(* ===== verification/Prelude.thy ===== *)
theory Prelude
  imports Main "HOL-Library.AList" "HOL-Library.Multiset" "HOL-Library.State_Monad"
    "HOL-Library.Char_ord" "HOL-Library.List_Lexorder"
    "HOL-Library.Word"
begin

text \<open>
  Shared vocabulary of the development: the collections of rewrite rules the component
  theories extend, rows of a table as a list with a key, the interface of a table that is
  written by INSERT ... ON CONFLICT, Go maps as association lists, and lower case
  hexadecimal text.
\<close>

named_theorems wp_simps \<open>symbolic execution of the state monad\<close>
named_theorems sql_simps \<open>unfolding of the SQL statements\<close>
named_theorems frame_intros \<open>rules that a computation respects a frame\<close>
named_theorems keeps_intros \<open>rules that a computation keeps a predicate on the database\<close>

type_synonym byte = "8 word"
type_synonym bytes = "8 word list"

text \<open>
  Text is a list of bytes, the UTF-8 encoding. The width of a \<open>VARCHAR(n)\<close> column counts characters, that is,
  the bytes that do not continue one.
\<close>

definition char_count :: "string \<Rightarrow> nat" where
  "char_count s = length (filter (\<lambda>c. (of_char c :: nat) < 128 \<or> 192 \<le> (of_char c :: nat)) s)"

lemma char_count_short [simp]: "length s \<le> n \<Longrightarrow> char_count s \<le> n"
  unfolding char_count_def by (rule order_trans [OF length_filter_le])

section \<open>Rows with a key\<close>

text \<open>A table is the list of its rows; a key is a function of the row.\<close>

definition row_at :: "('r \<Rightarrow> 'k) \<Rightarrow> 'k \<Rightarrow> 'r list \<Rightarrow> 'r option" where
  "row_at key k rows = find (\<lambda>r. key r = k) rows"

lemma row_at_Nil [simp]: "row_at key k [] = None"
  by (simp add: row_at_def)

lemma row_at_Cons [simp]:
  "row_at key k (r # rows) = (if key r = k then Some r else row_at key k rows)"
  by (simp add: row_at_def)

lemma row_at_append:
  "row_at key k (xs @ ys) = (case row_at key k xs of None \<Rightarrow> row_at key k ys | Some r \<Rightarrow> Some r)"
  by (induction xs) auto

lemma row_at_None: "row_at key k rows = None \<longleftrightarrow> k \<notin> key ` set rows"
  by (induction rows) auto

lemma row_at_SomeD: "row_at key k rows = Some r \<Longrightarrow> r \<in> set rows \<and> key r = k"
  by (induction rows) (auto split: if_splits)

lemma row_at_unique:
  "distinct (map key rows) \<Longrightarrow> r \<in> set rows \<Longrightarrow> row_at key (key r) rows = Some r"
  by (induction rows) (auto simp: image_iff)

lemma row_at_filter:
  "row_at key k rows = Some e \<Longrightarrow> Q e \<Longrightarrow> row_at key k (filter Q rows) = Some e"
  by (induction rows) (auto split: if_splits)

lemma row_at_filter_key: "(\<And>r. key r = k \<Longrightarrow> P r) \<Longrightarrow> row_at key k (filter P rows) = row_at key k rows"
  by (induction rows) auto

lemma row_at_iff:
  "distinct (map key rows) \<Longrightarrow> row_at key k rows = Some r \<longleftrightarrow> r \<in> set rows \<and> key r = k"
  using row_at_SomeD row_at_unique by metis

lemma filter_key:
  "distinct (map key rows) \<Longrightarrow> filter (\<lambda>r. key r = k) rows = (case row_at key k rows of None \<Rightarrow> [] | Some r \<Rightarrow> [r])"
proof (induction rows)
  case Nil
  then show ?case by simp
next
  case (Cons a rows)
  show ?case
  proof (cases "key a = k")
    case True
    with Cons.prems have "row_at key k rows = None" by (auto simp: row_at_None)
    with True Cons show ?thesis by simp
  next
    case False
    with Cons show ?thesis by simp
  qed
qed

lemma row_at_map:
  assumes "\<And>r. key (f r) = key r"
  shows "row_at key k (map f rows) = map_option f (row_at key k rows)"
  using assms by (induction rows) auto

text \<open>
  \<open>upsert_row key upd r rows\<close>: \<open>INSERT ... ON CONFLICT (key) DO UPDATE\<close>. The row that
  conflicts with \<open>r\<close> becomes \<open>upd old r\<close>; without a conflict \<open>r\<close> is a new row.
\<close>

definition upsert_row :: "('r \<Rightarrow> 'k) \<Rightarrow> ('r \<Rightarrow> 'r \<Rightarrow> 'r) \<Rightarrow> 'r \<Rightarrow> 'r list \<Rightarrow> 'r list" where
  "upsert_row key upd r rows =
     (if key r \<in> key ` set rows
      then map (\<lambda>old. if key old = key r then upd old r else old) rows
      else rows @ [r])"

text \<open>\<open>ON CONFLICT DO NOTHING\<close> leaves the row that is there.\<close>

abbreviation (input) keep_row :: "'r \<Rightarrow> 'r \<Rightarrow> 'r" where
  "keep_row \<equiv> (\<lambda>old new. old)"

lemma upsert_keep_row:
  "upsert_row key keep_row r rows = (if key r \<in> key ` set rows then rows else rows @ [r])"
  by (simp add: upsert_row_def)

lemma row_at_upsert:
  assumes "\<And>old. key old = key r \<Longrightarrow> key (upd old r) = key r"
  shows "row_at key k (upsert_row key upd r rows) =
    (if k = key r
     then Some (case row_at key k rows of None \<Rightarrow> r | Some old \<Rightarrow> upd old r)
     else row_at key k rows)"
proof (cases "key r \<in> key ` set rows")
  case True
  let ?f = "\<lambda>old. if key old = key r then upd old r else old"
  have key_f: "key (?f old) = key old" for old
    using assms by simp
  have "row_at key k (map ?f rows) = map_option ?f (row_at key k rows)"
    using key_f by (rule row_at_map)
  moreover have "row_at key (key r) rows \<noteq> None"
    using True by (simp add: row_at_None)
  moreover have "map_option ?f (row_at key k rows) = row_at key k rows" if "k \<noteq> key r"
    using that by (cases "row_at key k rows") (auto dest: row_at_SomeD)
  ultimately show ?thesis
    using True by (auto simp: upsert_row_def dest: row_at_SomeD)
next
  case False
  then have "row_at key (key r) rows = None" by (simp add: row_at_None)
  with False show ?thesis
    by (cases "row_at key k rows") (auto simp: upsert_row_def row_at_append)
qed

lemma map_key_upsert:
  assumes "\<And>old. key old = key r \<Longrightarrow> key (upd old r) = key r"
  shows "map key (upsert_row key upd r rows) =
    (if key r \<in> key ` set rows then map key rows else map key rows @ [key r])"
  using assms by (auto simp: upsert_row_def)

lemma keys_upsert:
  assumes "\<And>old. key old = key r \<Longrightarrow> key (upd old r) = key r"
  shows "key ` set (upsert_row key upd r rows) = insert (key r) (key ` set rows)"
proof -
  have "set (map key (upsert_row key upd r rows)) = insert (key r) (set (map key rows))"
    using map_key_upsert [of key r upd rows] assms by auto
  then show ?thesis by simp
qed

lemma distinct_upsert:
  assumes "\<And>old. key old = key r \<Longrightarrow> key (upd old r) = key r"
    and "distinct (map key rows)"
  shows "distinct (map key (upsert_row key upd r rows))"
  using map_key_upsert [of key r upd rows] assms by auto

lemma set_upsert:
  "x \<in> set (upsert_row key upd r rows) \<Longrightarrow>
    x = r \<or> x \<in> set rows \<or> (\<exists>old \<in> set rows. key old = key r \<and> x = upd old r)"
  by (auto simp: upsert_row_def split: if_splits)

text \<open>A statement that upserts several rows with different keys.\<close>

lemma row_at_fold_upsert:
  assumes "\<And>old r. key old = key r \<Longrightarrow> key (upd old r) = key r" and "distinct (map key rs)"
  shows "row_at key k (fold (upsert_row key upd) rs rows) =
    (case row_at key k rs of None \<Rightarrow> row_at key k rows
     | Some r \<Rightarrow> Some (case row_at key k rows of None \<Rightarrow> r | Some old \<Rightarrow> upd old r))"
  using assms(2)
proof (induction rs arbitrary: rows)
  case Nil
  then show ?case by simp
next
  case (Cons r rs)
  have up: "row_at key k (upsert_row key upd r rows) =
    (if k = key r then Some (case row_at key k rows of None \<Rightarrow> r | Some old \<Rightarrow> upd old r)
     else row_at key k rows)"
    using assms(1) by (rule row_at_upsert)
  show ?case
  proof (cases "key r = k")
    case True
    with Cons.prems have "row_at key k rs = None" by (auto simp: row_at_None)
    with True Cons up show ?thesis by simp
  next
    case False
    with Cons up show ?thesis by (auto split: option.splits)
  qed
qed

lemma distinct_fold_upsert:
  assumes "\<And>old r. key old = key r \<Longrightarrow> key (upd old r) = key r" and "distinct (map key rows)"
  shows "distinct (map key (fold (upsert_row key upd) rs rows))"
  using assms(2)
proof (induction rs arbitrary: rows)
  case Nil
  then show ?case by simp
next
  case (Cons r rs)
  have "distinct (map key (upsert_row key upd r rows))"
    using assms(1) Cons.prems by (rule distinct_upsert)
  with Cons.IH show ?case by simp
qed

lemma set_fold_upsert:
  assumes "\<And>old r. key old = key r \<Longrightarrow> upd old r = r"
    and "x \<in> set (fold (upsert_row key upd) rs rows)"
  shows "x \<in> set rows \<or> x \<in> set rs"
  using assms(2)
proof (induction rs arbitrary: rows)
  case Nil
  then show ?case by simp
next
  case (Cons r rs)
  then have "x \<in> set (upsert_row key upd r rows) \<or> x \<in> set rs" by simp
  then show ?case using set_upsert [of x key upd r rows] assms(1) by auto
qed

section \<open>The interface of an upserted table\<close>

text \<open>
  Every table that the server writes with \<open>ON CONFLICT\<close> promises the same law to its
  clients: after a successful write of \<open>v\<close>, the key of \<open>v\<close> maps to \<open>v\<close> combined with the
  row that was there, and every other key is as before.
\<close>

locale upsert_table =
  fixes lookup :: "'k \<Rightarrow> 'd \<Rightarrow> 'v option"
    and put :: "'v \<Rightarrow> 'd \<Rightarrow> 'e + unit \<times> 'd"
    and key :: "'v \<Rightarrow> 'k"
    and combine :: "'v option \<Rightarrow> 'v \<Rightarrow> 'v"
  assumes lookup_put:
    "put v d = Inr ((), d') \<Longrightarrow>
      lookup k d' = (if k = key v then Some (combine (lookup k d) v) else lookup k d)"
begin

lemma lookup_same: "put v d = Inr ((), d') \<Longrightarrow> lookup (key v) d' = Some (combine (lookup (key v) d) v)"
  by (simp add: lookup_put)

lemma lookup_other: "put v d = Inr ((), d') \<Longrightarrow> k \<noteq> key v \<Longrightarrow> lookup k d' = lookup k d"
  by (simp add: lookup_put)

lemma lookup_stays:
  "put v d = Inr ((), d') \<Longrightarrow> lookup k d \<noteq> None \<Longrightarrow> lookup k d' \<noteq> None"
  by (simp add: lookup_put)

lemma lookup_new: "put v d = Inr ((), d') \<Longrightarrow> lookup k d = None \<Longrightarrow> lookup k d' \<noteq> None \<Longrightarrow> k = key v"
  by (auto simp: lookup_put split: if_splits)

end

text \<open>\<open>ON CONFLICT DO NOTHING\<close>: the first row written under a key stays.\<close>

locale insert_ignore_table = upsert_table +
  assumes combine_keeps: "combine (Some old) v = old"
begin

lemma first_writer_wins:
  "put v d = Inr ((), d') \<Longrightarrow> lookup k d = Some old \<Longrightarrow> lookup k d' = Some old"
  by (cases "k = key v") (simp_all add: lookup_put combine_keeps)

lemma second_write_silent:
  "put v d = Inr ((), d1) \<Longrightarrow> put u d1 = Inr ((), d2) \<Longrightarrow> key u = key v \<Longrightarrow>
    lookup (key v) d2 = lookup (key v) d1"
  by (simp add: lookup_put combine_keeps)

end

text \<open>\<open>ON CONFLICT DO UPDATE\<close> of a payload: the last write of the payload is what is read.\<close>

locale overwrite_table = upsert_table +
  fixes payload :: "'b \<Rightarrow> 'p"
  assumes combine_payload: "payload (combine old v) = payload v"
begin

lemma last_writer_wins:
  "put v d = Inr ((), d') \<Longrightarrow> map_option payload (lookup (key v) d') = Some (payload v)"
  by (simp add: lookup_put combine_payload)

end

section \<open>Go maps\<close>

text \<open>
  A Go map is an association list without duplicate keys; assignment is
  \<^const>\<open>AList.update\<close>, lookup is \<^const>\<open>map_of\<close>. The order in which \<open>range\<close> visits it is
  chosen by the runtime and is not the order of the list (theory \<open>World\<close>).
\<close>

type_synonym ('k, 'v) gomap = "('k \<times> 'v) list"

definition gomap_of :: "('a \<Rightarrow> 'k) \<Rightarrow> ('a \<Rightarrow> 'v) \<Rightarrow> 'a list \<Rightarrow> ('k, 'v) gomap \<Rightarrow> ('k, 'v) gomap" where
  "gomap_of key val xs m = fold (\<lambda>x. AList.update (key x) (val x)) xs m"

lemma gomap_of_Nil [simp]: "gomap_of key val [] m = m"
  by (simp add: gomap_of_def)

lemma gomap_of_Cons [simp]:
  "gomap_of key val (x # xs) m = gomap_of key val xs (AList.update (key x) (val x) m)"
  by (simp add: gomap_of_def)

lemma distinct_gomap_of:
  "distinct (map fst m) \<Longrightarrow> distinct (map fst (gomap_of key val xs m))"
  by (induction xs arbitrary: m) (simp_all add: distinct_update)

lemma dom_gomap_of: "fst ` set (gomap_of key val xs m) = fst ` set m \<union> key ` set xs"
  by (induction xs arbitrary: m) (auto simp: dom_update)

lemma map_of_gomap_of_notin:
  "k \<notin> key ` set xs \<Longrightarrow> map_of (gomap_of key val xs m) k = map_of m k"
  by (induction xs arbitrary: m) (auto simp: update_conv')

lemma map_of_gomap_of_distinct:
  "distinct (map key xs) \<Longrightarrow> map_of (gomap_of key val xs m) k =
    (case row_at key k xs of None \<Rightarrow> map_of m k | Some x \<Rightarrow> Some (val x))"
proof (induction xs arbitrary: m)
  case Nil
  then show ?case by simp
next
  case (Cons x xs)
  show ?case
  proof (cases "key x = k")
    case True
    with Cons.prems have "k \<notin> key ` set xs" by auto
    with True show ?thesis
      by (simp add: map_of_gomap_of_notin update_conv')
  next
    case False
    with Cons show ?thesis by (simp add: update_conv' split: option.splits)
  qed
qed

text \<open>Later assignments win: the value is that of the last element with the key.\<close>

lemma map_of_gomap_of_in:
  "k \<in> key ` set xs \<Longrightarrow> \<exists>x \<in> set xs. key x = k \<and> map_of (gomap_of key val xs m) k = Some (val x)"
proof (induction xs arbitrary: m)
  case Nil
  then show ?case by simp
next
  case (Cons x xs)
  show ?case
  proof (cases "k \<in> key ` set xs")
    case True
    with Cons.IH show ?thesis by fastforce
  next
    case False
    with Cons.prems show ?thesis
      by (auto simp: map_of_gomap_of_notin update_conv')
  qed
qed

section \<open>Hexadecimal text\<close>

definition hex_digit :: "nat \<Rightarrow> char" where
  "hex_digit n = ''0123456789abcdef'' ! n"

definition hex_byte :: "byte \<Rightarrow> string" where
  "hex_byte b = [hex_digit (unat b div 16), hex_digit (unat b mod 16)]"

definition hex_string :: "bytes \<Rightarrow> string" where
  "hex_string bs = concat (map hex_byte bs)"

lemma hex_digit_inj: "m < 16 \<Longrightarrow> n < 16 \<Longrightarrow> hex_digit m = hex_digit n \<Longrightarrow> m = n"
proof -
  assume "m < 16" "n < 16" "hex_digit m = hex_digit n"
  moreover have "distinct ''0123456789abcdef''" by simp
  moreover have "length ''0123456789abcdef'' = 16" by simp
  ultimately show "m = n"
    unfolding hex_digit_def by (metis nth_eq_iff_index_eq)
qed

lemma unat_byte_less: "unat (b :: byte) < 256"
  using unsigned_less [of b] by simp

lemma hex_byte_inj: "hex_byte a = hex_byte b \<Longrightarrow> a = b"
proof -
  assume eq: "hex_byte a = hex_byte b"
  have "unat a div 16 = unat b div 16"
    using eq unat_byte_less [of a] unat_byte_less [of b]
    by (intro hex_digit_inj) (auto simp: hex_byte_def)
  moreover have "unat a mod 16 = unat b mod 16"
    using eq by (intro hex_digit_inj) (auto simp: hex_byte_def)
  ultimately have "unat a = unat b"
    by (metis div_mult_mod_eq)
  then show "a = b" by (rule unsigned_word_eqI)
qed

lemma length_hex_string [simp]: "length (hex_string bs) = 2 * length bs"
  by (induction bs) (auto simp: hex_string_def hex_byte_def)

lemma hex_string_Cons [simp]: "hex_string (b # bs) = hex_byte b @ hex_string bs"
  by (simp add: hex_string_def)

lemma hex_string_Nil [simp]: "hex_string [] = []"
  by (simp add: hex_string_def)

lemma length_hex_byte [simp]: "length (hex_byte b) = 2"
  by (simp add: hex_byte_def)

lemma hex_string_inj: "hex_string as = hex_string bs \<Longrightarrow> as = bs"
proof (induction as arbitrary: bs)
  case Nil
  then have "length (hex_string bs) = 0" by (metis list.size(3) hex_string_Nil)
  then show ?case by simp
next
  case (Cons a as)
  from Cons.prems have "length (hex_string bs) = 2 * Suc (length as)"
    by (metis length_hex_string length_Cons)
  then obtain b bs' where bs: "bs = b # bs'"
    by (cases bs) auto
  with Cons.prems have "hex_byte a @ hex_string as = hex_byte b @ hex_string bs'" by simp
  then have "hex_byte a = hex_byte b \<and> hex_string as = hex_string bs'"
    by (simp add: append_eq_append_conv)
  with Cons.IH bs show ?case by (auto dest: hex_byte_inj)
qed

end
