(* ===== verification/Model.thy ===== *)
theory Model
  imports Prelude
begin

text \<open>
  The data types of \<^verbatim>\<open>internal/model\<close> and the error values of the services. A Go struct
  is a record whose fields carry a prefix for the struct (\<open>c_ID\<close> is \<open>Commit.ID\<close>); a
  pointer to a string is an option; \<open>time.Time\<close> is the number of nanoseconds as an
  integer. A slice that reaches a \<open>TEXT[] NOT NULL\<close> column is an option of a list: \<open>None\<close>
  is the nil slice, which the driver writes as SQL NULL.
\<close>

section \<open>Errors\<close>

text \<open>
  An error value is one of the sentinels of the services and of the driver, a fresh
  \<open>errors.New\<close> with its text, or an error wrapped by \<open>fmt.Errorf\<close>: \<open>Wrap m e\<close> is the format
  \<open>"m: %w"\<close> and \<open>Note e m\<close> is \<open>"%w: m"\<close>.
\<close>

datatype error =
    ErrNoRows
  | Violation string
  | Unavailable
  | ErrInvalidCredentials | ErrUserExists
  | ErrChunkHashMismatch | ErrChunkTooLarge | ErrChunkNotFound
  | ErrFileLocked | ErrLockNotFound | ErrNotLockOwner
  | ErrBranchNotFound | ErrSameBranch | ErrNoMergeBase
  | ErrUnresolvedConflicts | ErrInvalidResolution
  | ErrProjectNotFound | ErrProjectExists
  | ErrCommitConflict | ErrCommitNotFound | ErrRefNotFound
  | NewError string
  | Wrap string error
  | Note error string

text \<open>\<open>errors.Is\<close>: the error itself or one that it wraps.\<close>

fun errors_Is :: "error \<Rightarrow> error \<Rightarrow> bool" where
  "errors_Is (Wrap msg e) target = (Wrap msg e = target \<or> errors_Is e target)"
| "errors_Is (Note e msg) target = (Note e msg = target \<or> errors_Is e target)"
| "errors_Is e target = (e = target)"

text \<open>
  \<open>err.Error()\<close>. The texts of driver errors are the driver's: only that they are there is
  modelled.
\<close>

fun error_Error :: "error \<Rightarrow> string" where
  "error_Error ErrNoRows = ''no rows in result set''"
| "error_Error (Violation msg) = msg"
| "error_Error Unavailable = ''unavailable''"
| "error_Error ErrInvalidCredentials = ''invalid username or password''"
| "error_Error ErrUserExists = ''username or email already exists''"
| "error_Error ErrChunkHashMismatch = ''chunk hash does not match content''"
| "error_Error ErrChunkTooLarge = ''chunk exceeds maximum size''"
| "error_Error ErrChunkNotFound = ''chunk not found''"
| "error_Error ErrFileLocked = ''file is locked by another user''"
| "error_Error ErrLockNotFound = ''lock not found''"
| "error_Error ErrNotLockOwner = ''you do not own this lock''"
| "error_Error ErrBranchNotFound = ''branch not found''"
| "error_Error ErrSameBranch = ''cannot merge a branch into itself''"
| "error_Error ErrNoMergeBase = ''branches have no common ancestor''"
| "error_Error ErrUnresolvedConflicts = ''merge has unresolved conflicts''"
| "error_Error ErrInvalidResolution = ''resolution references invalid file version''"
| "error_Error ErrProjectNotFound = ''project not found''"
| "error_Error ErrProjectExists = ''project name already exists''"
| "error_Error ErrCommitConflict = ''parent commit does not match current ref head''"
| "error_Error ErrCommitNotFound = ''commit not found''"
| "error_Error ErrRefNotFound = ''ref not found''"
| "error_Error (NewError msg) = msg"
| "error_Error (Wrap msg e) = msg @ '': '' @ error_Error e"
| "error_Error (Note e msg) = error_Error e @ '': '' @ msg"

lemma errors_Is_refl [simp]: "errors_Is e e"
  by (cases e) simp_all

text \<open>
  \<open>%q\<close> of \<open>fmt\<close>: the string in double quotes, with the escapes of Go for ASCII; bytes of UTF-8
  text pass as they are.
\<close>

definition quote_char :: "char \<Rightarrow> string" where
  "quote_char c = (let n = of_char c :: nat; bs = CHR 0x5C in
     if n = 0x22 \<or> n = 0x5C then [bs, c]
     else if n = 0x07 then bs # ''a'' else if n = 0x08 then bs # ''b''
     else if n = 0x0C then bs # ''f'' else if n = 0x0A then bs # ''n''
     else if n = 0x0D then bs # ''r'' else if n = 0x09 then bs # ''t''
     else if n = 0x0B then bs # ''v''
     else if n < 0x20 \<or> n = 0x7F then [bs, CHR ''x'', hex_digit (n div 16), hex_digit (n mod 16)]
     else [c])"

definition go_quote :: "string \<Rightarrow> string" where
  "go_quote s = CHR 0x22 # concat (map quote_char s) @ [CHR 0x22]"

section \<open>Entities\<close>

record User =
  u_ID :: string
  u_Username :: string
  u_Email :: string
  u_PasswordHash :: string
  u_Role :: string
  u_CreatedAt :: int
  u_UpdatedAt :: int

record Project =
  p_ID :: string
  p_Name :: string
  p_Description :: string
  p_CreatedBy :: string
  p_CreatedAt :: int
  p_UpdatedAt :: int

record Chunk =
  ch_Hash :: string
  ch_SizeBytes :: int
  ch_MinioBucket :: string
  ch_MinioKey :: string
  ch_RefCount :: int
  ch_CreatedAt :: int

record Commit =
  c_ID :: string
  c_ProjectID :: string
  c_ParentID :: "string option"
  c_ParentIDs :: "string list"
  c_AuthorID :: string
  c_Message :: string
  c_CreatedAt :: int

definition IsMergeCommit :: "Commit \<Rightarrow> bool" where
  "IsMergeCommit c \<longleftrightarrow> 2 \<le> length (c_ParentIDs c)"

record Ref =
  r_ID :: string
  r_ProjectID :: string
  r_Name :: string
  r_Type :: string
  r_CommitID :: string
  r_UpdatedAt :: int

record CommitFile =
  cf_CommitID :: string
  cf_FileID :: string
  cf_FileVersionID :: string

record Lock =
  l_ID :: string
  l_ProjectID :: string
  l_FilePath :: string
  l_Branch :: string
  l_LockedBy :: string
  l_LockedAt :: int
  l_LockedByUsername :: string

record File =
  f_ID :: string
  f_ProjectID :: string
  f_Path :: string
  f_CreatedAt :: int

record FileVersion =
  fv_ID :: string
  fv_FileID :: string
  fv_CommitID :: string
  fv_TotalSize :: int
  fv_ChunkCount :: int
  fv_ChunkHashes :: "string list option"
  fv_CreatedAt :: int

text \<open>\<open>len\<close>, \<open>range\<close> and \<open>append(...)\<close> see no elements in a nil slice.\<close>

definition slice :: "'a list option \<Rightarrow> 'a list" where
  "slice xs = (case xs of None \<Rightarrow> [] | Some ys \<Rightarrow> ys)"

lemma slice_simps [simp]: "slice None = []" "slice (Some xs) = xs"
  by (simp_all add: slice_def)

section \<open>Merging\<close>

datatype MergeType = MergeTypeFastForward | MergeTypeClean | MergeTypeConflict

record MergeFileEntry =
  me_FileID :: string
  me_FilePath :: string
  me_FileVersionID :: string

record MergeConflict =
  mc_FileID :: string
  mc_FilePath :: string
  mc_BaseFileVersionID :: string
  mc_SourceFileVersionID :: string
  mc_TargetFileVersionID :: string

record MergeAnalysis =
  ma_Type :: MergeType
  ma_MergeBaseID :: string
  ma_SourceBranch :: string
  ma_TargetBranch :: string
  ma_SourceOnly :: "MergeFileEntry list"
  ma_TargetOnly :: "MergeFileEntry list"
  ma_Conflicts :: "MergeConflict list"
  ma_Unchanged :: nat

record MergeResolution =
  mr_FileID :: string
  mr_FileVersionID :: string

end
