(* ===== verification/World.thy ===== *)
theory World
  imports Model
begin

text \<open>
  The state of a running server and the monad its code runs in: the rows of the PostgreSQL
  tables (\<^verbatim>\<open>migrations/\<close>), the objects of the MinIO bucket, and the outside world as
  oracles that are read one call after the other: whether the next store call is
  unavailable, the clock, the format of the clock, the random bytes, the order in which \<open>range\<close> visits a map.
  A store call that is unavailable has no effect (one SQL statement is atomic) and returns
  an error; the oracle is also what stands for a malformed UUID parameter or a timeout.
\<close>

section \<open>State\<close>

record db =
  users :: "User list"
  projects :: "Project list"
  chunks :: "Chunk list"
  commits :: "Commit list"
  refs :: "Ref list"
  files :: "File list"
  file_versions :: "FileVersion list"
  commit_files :: "CommitFile list"
  locks :: "Lock list"

definition empty_db :: db where
  "empty_db = \<lparr>users = [], projects = [], chunks = [], commits = [], refs = [], files = [],
     file_versions = [], commit_files = [], locks = []\<rparr>"

record world =
  w_db :: db
  w_blobs :: "string \<rightharpoonup> bytes"
  w_tick :: nat
  w_fault :: "nat \<Rightarrow> bool"
  w_clock :: "nat \<Rightarrow> int"
  w_rand :: "nat \<Rightarrow> bytes"
  w_order :: "nat \<Rightarrow> string list \<Rightarrow> string list"
  w_rfc3339 :: "int \<Rightarrow> string"

type_synonym 'a io = "(world, 'a) state"
type_synonym 'a result = "error + 'a"

abbreviation ret :: "'a \<Rightarrow> 'a io" where
  "ret \<equiv> State_Monad.return"

definition next_tick :: "world \<Rightarrow> world" where
  "next_tick w = w\<lparr>w_tick := Suc (w_tick w)\<rparr>"

lemma next_tick_simps [simp]:
  "w_db (next_tick w) = w_db w" "w_blobs (next_tick w) = w_blobs w"
  "w_fault (next_tick w) = w_fault w" "w_clock (next_tick w) = w_clock w"
  "w_rand (next_tick w) = w_rand w" "w_order (next_tick w) = w_order w"
  "w_rfc3339 (next_tick w) = w_rfc3339 w"
  "w_tick (next_tick w) = Suc (w_tick w)"
  by (simp_all add: next_tick_def)

section \<open>Calls\<close>

text \<open>A statement that reads the tables, and one that may change them.\<close>

definition db_query :: "(db \<Rightarrow> 'a result) \<Rightarrow> 'a result io" where
  "db_query q = State (\<lambda>w.
     (if w_fault w (w_tick w) then Inl Unavailable else q (w_db w), next_tick w))"

definition db_exec :: "(db \<Rightarrow> error + 'a \<times> db) \<Rightarrow> 'a result io" where
  "db_exec q = State (\<lambda>w.
     if w_fault w (w_tick w) then (Inl Unavailable, next_tick w)
     else case q (w_db w) of
         Inl e \<Rightarrow> (Inl e, next_tick w)
       | Inr (x, d) \<Rightarrow> (Inr x, (next_tick w)\<lparr>w_db := d\<rparr>))"

definition time_Now :: "int io" where
  "time_Now = State (\<lambda>w. (w_clock w (w_tick w), next_tick w))"

text \<open>\<open>t.Format(time.RFC3339)\<close> in the time zone of the host.\<close>

definition format_RFC3339 :: "int \<Rightarrow> string io" where
  "format_RFC3339 t = State (\<lambda>w. (w_rfc3339 w t, w))"

text \<open>
  \<open>rand.Read\<close> of \<open>n\<close> bytes; an oracle that has fewer is padded, so that every oracle is a
  possible source.
\<close>

definition rand_Read :: "nat \<Rightarrow> bytes io" where
  "rand_Read n = State (\<lambda>w. (take n (w_rand w (w_tick w) @ replicate n 0), next_tick w))"

text \<open>
  The keys of a map in the order a \<open>range\<close> loop visits them. Go leaves the order open: the
  oracle proposes one, and a proposal that is not a permutation of the keys is replaced by
  the order of insertion, so that exactly the permutations are possible.
\<close>

definition go_range :: "string list \<Rightarrow> string list io" where
  "go_range ks = State (\<lambda>w.
     (let p = w_order w (w_tick w) ks in if mset p = mset ks then p else ks, next_tick w))"

text \<open>
  \<open>x, err := m; if err != nil { return wrap(err) }; k(x)\<close>
\<close>

definition go_try :: "'a result io \<Rightarrow> (error \<Rightarrow> error) \<Rightarrow> ('a \<Rightarrow> 'b result io) \<Rightarrow> 'b result io" where
  "go_try m wrap k = do {
     r \<leftarrow> m;
     case r of Inl e \<Rightarrow> ret (Inl (wrap e)) | Inr x \<Rightarrow> k x
   }"

text \<open>
  The same in a function that may panic: the outcome \<open>None\<close> is a panic (a nil dereference or
  an index out of range), which the recoverer of the router turns into a reply 500.
\<close>

type_synonym 'a outcome = "(error + 'a) option"

definition go_must :: "'a result io \<Rightarrow> (error \<Rightarrow> error) \<Rightarrow> ('a \<Rightarrow> 'b outcome io) \<Rightarrow> 'b outcome io" where
  "go_must m wrap k = do {
     r \<leftarrow> m;
     case r of Inl e \<Rightarrow> ret (Some (Inl (wrap e))) | Inr x \<Rightarrow> k x
   }"

definition go_call :: "'a outcome io \<Rightarrow> (error \<Rightarrow> error) \<Rightarrow> ('a \<Rightarrow> 'b outcome io) \<Rightarrow> 'b outcome io" where
  "go_call m wrap k = do {
     r \<leftarrow> m;
     case r of None \<Rightarrow> ret None | Some (Inl e) \<Rightarrow> ret (Some (Inl (wrap e))) | Some (Inr x) \<Rightarrow> k x
   }"

definition panic :: "'a outcome io" where
  "panic = ret None"

section \<open>Symbolic execution\<close>

text \<open>
  \<open>wp m Q w\<close>: the run of \<open>m\<close> from \<open>w\<close> ends with a result and a state that satisfy \<open>Q\<close>.
  Every run ends, so this is total correctness.
\<close>

definition wp :: "'a io \<Rightarrow> ('a \<Rightarrow> world \<Rightarrow> bool) \<Rightarrow> world \<Rightarrow> bool" where
  "wp m Q w = (case run_state m w of (r, w') \<Rightarrow> Q r w')"

lemma wp_iff: "wp m Q w \<longleftrightarrow> Q (fst (run_state m w)) (snd (run_state m w))"
  by (simp add: wp_def split: prod.splits)

lemma wp_run: "wp m Q w \<Longrightarrow> run_state m w = (r, w') \<Longrightarrow> Q r w'"
  by (simp add: wp_def)

lemma wp_conj: "wp m P w \<Longrightarrow> wp m Q w \<Longrightarrow> wp m (\<lambda>r w'. P r w' \<and> Q r w') w"
  by (simp add: wp_iff)

lemma wp_mono: "wp m Q w \<Longrightarrow> (\<And>r w'. Q r w' \<Longrightarrow> Q' r w') \<Longrightarrow> wp m Q' w"
  by (auto simp: wp_def)

lemma wp_return [wp_simps]: "wp (ret x) Q w = Q x w"
  by (simp add: wp_def)

lemma wp_return_eta: "wp (ret x) Q = Q x"
  by (simp add: fun_eq_iff wp_return)

lemma wp_bind [wp_simps]: "wp (State_Monad.bind m f) Q w = wp m (\<lambda>x. wp (f x) Q) w"
  by (simp add: wp_def split: prod.splits)

lemma wp_go_try [wp_simps]:
  "wp (go_try m e k) Q w = wp m (\<lambda>r w'. case r of Inl x \<Rightarrow> Q (Inl (e x)) w' | Inr x \<Rightarrow> wp (k x) Q w') w"
  by (simp add: go_try_def wp_def split: prod.splits sum.splits)

lemma wp_go_must [wp_simps]:
  "wp (go_must m e k) Q w = wp m (\<lambda>r w'. case r of Inl x \<Rightarrow> Q (Some (Inl (e x))) w' | Inr x \<Rightarrow> wp (k x) Q w') w"
  by (simp add: go_must_def wp_def split: prod.splits sum.splits)

lemma wp_go_call [wp_simps]:
  "wp (go_call m e k) Q w = wp m (\<lambda>r w'. case r of None \<Rightarrow> Q None w'
    | Some (Inl x) \<Rightarrow> Q (Some (Inl (e x))) w' | Some (Inr x) \<Rightarrow> wp (k x) Q w') w"
  by (simp add: go_call_def wp_def split: prod.splits sum.splits option.splits)

lemma wp_panic [wp_simps]: "wp panic Q w = Q None w"
  by (simp add: panic_def wp_def)

lemma wp_if [wp_simps]: "wp (if b then m else n) Q w = (if b then wp m Q w else wp n Q w)"
  by simp

lemma wp_case_sum [wp_simps]:
  "wp (case r of Inl e \<Rightarrow> m e | Inr x \<Rightarrow> n x) Q w = (case r of Inl e \<Rightarrow> wp (m e) Q w | Inr x \<Rightarrow> wp (n x) Q w)"
  by (simp split: sum.splits)

lemma wp_case_option [wp_simps]:
  "wp (case r of None \<Rightarrow> m | Some x \<Rightarrow> n x) Q w = (case r of None \<Rightarrow> wp m Q w | Some x \<Rightarrow> wp (n x) Q w)"
  by (simp split: option.splits)

lemma wp_db_query [wp_simps]:
  "wp (db_query q) Q w = (if w_fault w (w_tick w) then Q (Inl Unavailable) (next_tick w) else Q (q (w_db w)) (next_tick w))"
  by (simp add: wp_def db_query_def)

lemma wp_db_exec [wp_simps]:
  "wp (db_exec q) Q w =
    (if w_fault w (w_tick w) then Q (Inl Unavailable) (next_tick w)
     else case q (w_db w) of
         Inl e \<Rightarrow> Q (Inl e) (next_tick w)
       | Inr (x, d) \<Rightarrow> Q (Inr x) ((next_tick w)\<lparr>w_db := d\<rparr>))"
  by (simp add: wp_def db_exec_def split: sum.splits prod.splits)

lemma wp_time_Now [wp_simps]: "wp time_Now Q w = Q (w_clock w (w_tick w)) (next_tick w)"
  by (simp add: wp_def time_Now_def)

lemma wp_format_RFC3339 [wp_simps]: "wp (format_RFC3339 t) Q w = Q (w_rfc3339 w t) w"
  by (simp add: wp_def format_RFC3339_def)

lemma wp_rand_Read [wp_simps]:
  "wp (rand_Read n) Q w = Q (take n (w_rand w (w_tick w) @ replicate n 0)) (next_tick w)"
  by (simp add: wp_def rand_Read_def)

text \<open>A \<open>range\<close> loop visits each key once, in some order.\<close>

lemma wp_go_range: "(\<And>ks'. mset ks' = mset ks \<Longrightarrow> Q ks' (next_tick w)) \<Longrightarrow> wp (go_range ks) Q w"
  by (simp add: wp_def go_range_def Let_def)

section \<open>No unavailable calls\<close>

definition no_faults :: "world \<Rightarrow> bool" where
  "no_faults w \<longleftrightarrow> (\<forall>n. \<not> w_fault w n)"

lemma no_faultsD [simp]: "no_faults w \<Longrightarrow> \<not> w_fault w n"
  by (simp add: no_faults_def)

lemma no_faults_next_tick [simp]: "no_faults (next_tick w) = no_faults w"
  by (simp add: no_faults_def)

lemma no_faults_db [simp]: "no_faults (w\<lparr>w_db := d\<rparr>) = no_faults w"
  by (simp add: no_faults_def)

lemma no_faults_blobs [simp]: "no_faults (w\<lparr>w_blobs := b\<rparr>) = no_faults w"
  by (simp add: no_faults_def)

section \<open>Predicates on the tables that a computation keeps\<close>

definition keeps :: "(db \<Rightarrow> bool) \<Rightarrow> 'a io \<Rightarrow> bool" where
  "keeps I m \<longleftrightarrow> (\<forall>w. I (w_db w) \<longrightarrow> wp m (\<lambda>_ w'. I (w_db w')) w)"

lemma keepsI: "(\<And>w. I (w_db w) \<Longrightarrow> wp m (\<lambda>_ w'. I (w_db w')) w) \<Longrightarrow> keeps I m"
  by (simp add: keeps_def)

lemma keepsD: "keeps I m \<Longrightarrow> I (w_db w) \<Longrightarrow> run_state m w = (r, w') \<Longrightarrow> I (w_db w')"
  by (auto simp: keeps_def dest: wp_run)

lemma keeps_return [keeps_intros]: "keeps I (ret x)"
  by (simp add: keeps_def wp_simps)

lemma keeps_bind [keeps_intros]: "keeps I m \<Longrightarrow> (\<And>x. keeps I (f x)) \<Longrightarrow> keeps I (State_Monad.bind m f)"
proof (rule keepsI)
  fix w :: world
  assume m: "keeps I m" and f: "\<And>x. keeps I (f x)" and "I (w_db w)"
  then have "wp m (\<lambda>_ w'. I (w_db w')) w" by (simp add: keeps_def)
  then have "wp m (\<lambda>x w'. wp (f x) (\<lambda>_ w'. I (w_db w')) w') w"
    by (rule wp_mono) (use f in \<open>simp add: keeps_def\<close>)
  then show "wp (State_Monad.bind m f) (\<lambda>_ w'. I (w_db w')) w"
    by (simp only: wp_bind)
qed

lemma keeps_go_try [keeps_intros]: "keeps I m \<Longrightarrow> (\<And>x. keeps I (k x)) \<Longrightarrow> keeps I (go_try m e k)"
  unfolding go_try_def by (auto intro!: keeps_intros split: sum.splits)

lemma keeps_go_must [keeps_intros]: "keeps I m \<Longrightarrow> (\<And>x. keeps I (k x)) \<Longrightarrow> keeps I (go_must m e k)"
  unfolding go_must_def by (auto intro!: keeps_intros split: sum.splits)

lemma keeps_go_call [keeps_intros]: "keeps I m \<Longrightarrow> (\<And>x. keeps I (k x)) \<Longrightarrow> keeps I (go_call m e k)"
  unfolding go_call_def by (auto intro!: keeps_intros split: sum.splits option.splits)

lemma keeps_panic [keeps_intros]: "keeps I panic"
  by (simp add: panic_def keeps_intros)

lemma keeps_if [keeps_intros]: "keeps I m \<Longrightarrow> keeps I n \<Longrightarrow> keeps I (if b then m else n)"
  by simp

lemma keeps_case_sum [keeps_intros]:
  "(\<And>e. keeps I (m e)) \<Longrightarrow> (\<And>x. keeps I (n x)) \<Longrightarrow> keeps I (case r of Inl e \<Rightarrow> m e | Inr x \<Rightarrow> n x)"
  by (simp split: sum.splits)

lemma keeps_case_option [keeps_intros]:
  "keeps I m \<Longrightarrow> (\<And>x. keeps I (n x)) \<Longrightarrow> keeps I (case r of None \<Rightarrow> m | Some x \<Rightarrow> n x)"
  by (simp split: option.splits)

lemma keeps_db_query [keeps_intros]: "keeps I (db_query q)"
  by (simp add: keeps_def wp_simps)

lemma keeps_db_exec:
  "(\<And>d x d'. I d \<Longrightarrow> q d = Inr (x, d') \<Longrightarrow> I d') \<Longrightarrow> keeps I (db_exec q)"
  by (auto simp: keeps_def wp_simps split: sum.splits)

lemma keeps_time_Now [keeps_intros]: "keeps I time_Now"
  and keeps_rand_Read [keeps_intros]: "keeps I (rand_Read n)"
  and keeps_format_RFC3339 [keeps_intros]: "keeps I (format_RFC3339 t)"
  by (simp_all add: keeps_def wp_simps)

lemma keeps_go_range [keeps_intros]: "keeps I (go_range ks)"
  by (auto simp: keeps_def intro: wp_go_range)

section \<open>Identifiers\<close>

unbundle bit_operations_syntax

text \<open>
  \<open>GenerateUUID\<close> (\<^verbatim>\<open>internal/service/auth.go\<close>): sixteen random bytes, the version nibble
  set to 4 and the variant bits to 10, printed in the usual groups.
\<close>

definition uuid_bits :: "bytes \<Rightarrow> bytes" where
  "uuid_bits b = (b[6 := (b ! 6 AND 0x0f) OR 0x40]) [8 := (b ! 8 AND 0x3f) OR 0x80]"

definition uuid_string :: "bytes \<Rightarrow> string" where
  "uuid_string b =
     hex_string (take 4 b) @ ''-'' @ hex_string (take 2 (drop 4 b)) @ ''-'' @
     hex_string (take 2 (drop 6 b)) @ ''-'' @ hex_string (take 2 (drop 8 b)) @ ''-'' @
     hex_string (drop 10 b)"

definition GenerateUUID :: "string io" where
  "GenerateUUID = do { b \<leftarrow> rand_Read 16; ret (uuid_string (uuid_bits b)) }"

definition generateUUID :: "string io" where
  "generateUUID = GenerateUUID"

text \<open>The identifier that a call at this point of the run would draw.\<close>

definition uuid_at :: "world \<Rightarrow> nat \<Rightarrow> string" where
  "uuid_at w n = uuid_string (uuid_bits (take 16 (w_rand w n @ replicate 16 0)))"

lemma wp_generateUUID [wp_simps]: "wp generateUUID Q w = Q (uuid_at w (w_tick w)) (next_tick w)"
  by (simp add: generateUUID_def GenerateUUID_def wp_simps uuid_at_def)

lemma keeps_generateUUID [keeps_intros]: "keeps I generateUUID"
  by (simp add: keeps_def wp_simps)

lemma uuid_at_next [simp]: "uuid_at (next_tick w) = uuid_at w"
  and uuid_at_db [simp]: "uuid_at (w\<lparr>w_db := d\<rparr>) = uuid_at w"
  by (simp_all add: uuid_at_def fun_eq_iff)

lemma length_uuid_string: "length b = 16 \<Longrightarrow> length (uuid_string b) = 36"
  by (simp add: uuid_string_def)

lemma length_uuid_at [simp]: "length (uuid_at w n) = 36"
  by (simp add: uuid_at_def length_uuid_string uuid_bits_def)

lemma uuid_at_nonempty [simp]: "uuid_at w n \<noteq> ''''"
  using length_uuid_at [of w n] by (metis list.size(3) zero_neq_numeral)

section \<open>Execution with an unknown store\<close>

text \<open>
  The rules above compute; these forget which calls were unavailable and what the oracles
  gave, and leave for each call the case of an error and the case of success. They are what a
  property that holds for every behaviour of the store needs.
\<close>

definition same_env :: "world \<Rightarrow> world \<Rightarrow> bool" where
  "same_env w w' \<longleftrightarrow> w_fault w' = w_fault w \<and> w_clock w' = w_clock w \<and> w_rand w' = w_rand w
     \<and> w_order w' = w_order w \<and> w_rfc3339 w' = w_rfc3339 w \<and> w_blobs w' = w_blobs w"

lemma same_env_refl [simp]: "same_env w w"
  by (simp add: same_env_def)

lemma same_env_trans: "same_env w w' \<Longrightarrow> same_env w' w'' \<Longrightarrow> same_env w w''"
  by (simp add: same_env_def)

lemma same_env_next_tick [simp]: "same_env w (next_tick w)"
  by (simp add: same_env_def)

lemma same_env_db [simp]: "same_env w (next_tick w\<lparr>w_db := d\<rparr>)"
  by (simp add: same_env_def)

lemma same_env_no_faults: "same_env w w' \<Longrightarrow> no_faults w' = no_faults w"
  by (simp add: same_env_def no_faults_def)

lemma wp_db_execI:
  assumes "\<And>e w'. w_db w' = w_db w \<Longrightarrow> same_env w w' \<Longrightarrow> (no_faults w \<Longrightarrow> q (w_db w) = Inl e) \<Longrightarrow> Q (Inl e) w'"
    and "\<And>x w'. q (w_db w) = Inr (x, w_db w') \<Longrightarrow> same_env w w' \<Longrightarrow> Q (Inr x) w'"
  shows "wp (db_exec q) Q w"
proof (cases "w_fault w (w_tick w)")
  case True
  then have "\<not> no_faults w" by (auto simp: no_faults_def)
  with True show ?thesis by (auto simp: wp_db_exec intro!: assms(1))
next
  case ok: False
  show ?thesis
  proof (cases "q (w_db w)")
    case (Inl e)
    with ok show ?thesis by (auto simp: wp_db_exec intro!: assms(1))
  next
    case (Inr p)
    with ok show ?thesis
      using assms(2) [of "fst p" "(next_tick w)\<lparr>w_db := snd p\<rparr>"]
      by (cases p) (simp add: wp_db_exec)
  qed
qed

lemma wp_db_queryI:
  assumes "\<And>e w'. w_db w' = w_db w \<Longrightarrow> same_env w w' \<Longrightarrow> (no_faults w \<Longrightarrow> q (w_db w) = Inl e) \<Longrightarrow> Q (Inl e) w'"
    and "\<And>x w'. q (w_db w) = Inr x \<Longrightarrow> w_db w' = w_db w \<Longrightarrow> same_env w w' \<Longrightarrow> Q (Inr x) w'"
  shows "wp (db_query q) Q w"
proof (cases "w_fault w (w_tick w)")
  case True
  then have "\<not> no_faults w" by (auto simp: no_faults_def)
  with True show ?thesis by (auto simp: wp_db_query intro!: assms(1))
next
  case False
  then show ?thesis using assms by (cases "q (w_db w)") (simp_all add: wp_db_query)
qed

lemma wp_go_tryI:
  assumes "wp m (\<lambda>r w'. case r of Inl x \<Rightarrow> Q (Inl (e x)) w' | Inr x \<Rightarrow> wp (k x) Q w') w"
  shows "wp (go_try m e k) Q w"
  using assms by (simp add: wp_go_try)

lemma wp_go_mustI:
  assumes "wp m (\<lambda>r w'. case r of Inl x \<Rightarrow> Q (Some (Inl (e x))) w' | Inr x \<Rightarrow> wp (k x) Q w') w"
  shows "wp (go_must m e k) Q w"
  using assms by (simp add: wp_go_must)

lemma wp_bindI: "wp m (\<lambda>x. wp (f x) Q) w \<Longrightarrow> wp (State_Monad.bind m f) Q w"
  by (simp add: wp_bind)

lemma wp_generateUUIDI:
  "(\<And>i w'. w_db w' = w_db w \<Longrightarrow> same_env w w' \<Longrightarrow> i \<noteq> '''' \<Longrightarrow> Q i w') \<Longrightarrow> wp generateUUID Q w"
  by (simp add: wp_generateUUID)

lemma wp_time_NowI:
  "(\<And>t w'. w_db w' = w_db w \<Longrightarrow> same_env w w' \<Longrightarrow> Q t w') \<Longrightarrow> wp time_Now Q w"
  by (simp add: wp_time_Now)

lemma wp_go_rangeI:
  "(\<And>ks' w'. mset ks' = mset ks \<Longrightarrow> w_db w' = w_db w \<Longrightarrow> same_env w w' \<Longrightarrow> Q ks' w') \<Longrightarrow> wp (go_range ks) Q w"
  by (rule wp_go_range) simp

section \<open>Frames\<close>

text \<open>
  A relation between the state before and after a call that is transitive and allows every
  call that changes neither the tables nor the bucket: what a component promises not to touch.
  The rules that follow lift it from the statements to whole handlers.
\<close>

definition preserves :: "(world \<Rightarrow> world \<Rightarrow> bool) \<Rightarrow> 'a io \<Rightarrow> bool" where
  "preserves R m \<longleftrightarrow> (\<forall>w. wp m (\<lambda>_ w'. R w w') w)"

lemma preservesD: "preserves R m \<Longrightarrow> run_state m w = (r, w') \<Longrightarrow> R w w'"
  by (auto simp: preserves_def dest: wp_run)

locale frame_relation =
  fixes R :: "world \<Rightarrow> world \<Rightarrow> bool"
  assumes frame_trans: "R w1 w2 \<Longrightarrow> R w2 w3 \<Longrightarrow> R w1 w3"
    and frame_idle: "w_db w' = w_db w \<Longrightarrow> w_blobs w' = w_blobs w \<Longrightarrow> R w w'"
begin

lemma frame_bind [frame_intros]:
  assumes "preserves R m" "\<And>x. preserves R (f x)"
  shows "preserves R (State_Monad.bind m f)"
  unfolding preserves_def
proof (intro allI wp_bindI)
  fix w :: world
  have "wp m (\<lambda>_ w'. R w w') w" using assms(1) by (simp add: preserves_def)
  then show "wp m (\<lambda>x. wp (f x) (\<lambda>_ w'. R w w')) w"
  proof (rule wp_mono)
    fix x and w1 :: world
    assume "R w w1"
    have "wp (f x) (\<lambda>_ w'. R w1 w') w1" using assms(2) by (simp add: preserves_def)
    then show "wp (f x) (\<lambda>_ w'. R w w') w1"
      by (rule wp_mono) (rule frame_trans [OF \<open>R w w1\<close>])
  qed
qed

lemma frame_return [frame_intros]: "preserves R (ret x)"
  by (simp add: preserves_def wp_simps frame_idle)

lemma frame_go_try [frame_intros]: "preserves R m \<Longrightarrow> (\<And>x. preserves R (k x)) \<Longrightarrow> preserves R (go_try m e k)"
  unfolding go_try_def by (rule frame_bind) (auto intro: frame_return split: sum.splits)

lemma frame_go_must [frame_intros]: "preserves R m \<Longrightarrow> (\<And>x. preserves R (k x)) \<Longrightarrow> preserves R (go_must m e k)"
  unfolding go_must_def by (rule frame_bind) (auto intro: frame_return split: sum.splits)

lemma frame_panic [frame_intros]: "preserves R panic"
  unfolding panic_def by (rule frame_return)

lemma frame_go_call [frame_intros]: "preserves R m \<Longrightarrow> (\<And>x. preserves R (k x)) \<Longrightarrow> preserves R (go_call m e k)"
  unfolding go_call_def by (rule frame_bind) (auto intro: frame_return frame_panic split: sum.splits option.splits)

lemma frame_if [frame_intros]: "preserves R m \<Longrightarrow> preserves R n \<Longrightarrow> preserves R (if b then m else n)"
  by simp

lemma frame_db_query [frame_intros]: "preserves R (db_query q)"
  by (simp add: preserves_def wp_simps frame_idle)

lemma frame_db_exec:
  "(\<And>w x w'. q (w_db w) = Inr (x, w_db w') \<Longrightarrow> w_blobs w' = w_blobs w \<Longrightarrow> R w w') \<Longrightarrow> preserves R (db_exec q)"
  unfolding preserves_def by (intro allI wp_db_execI) (auto simp: same_env_def intro: frame_idle)

lemma frame_time_Now [frame_intros]: "preserves R time_Now"
  and frame_rand_Read [frame_intros]: "preserves R (rand_Read n)"
  and frame_format_RFC3339 [frame_intros]: "preserves R (format_RFC3339 t)"
  and frame_generateUUID [frame_intros]: "preserves R generateUUID"
  by (simp_all add: preserves_def wp_simps frame_idle)

lemma frame_go_range [frame_intros]: "preserves R (go_range ks)"
  unfolding preserves_def by (auto intro!: wp_go_range frame_idle)

end

end
