(* ===== verification/Schema.thy ===== *)
theory Schema
  imports World
begin

text \<open>
  The constraints of \<^verbatim>\<open>migrations/001_initial.up.sql\<close> and
  \<^verbatim>\<open>migrations/002_branching.up.sql\<close> on the tables the server uses, and the invariants the
  server itself maintains on top of them (no constraint of the schema states those).
\<close>

section \<open>Keys\<close>

definition r_key :: "Ref \<Rightarrow> string \<times> string \<times> string" where
  "r_key r = (r_ProjectID r, r_Name r, r_Type r)"

definition cf_key :: "CommitFile \<Rightarrow> string \<times> string" where
  "cf_key cf = (cf_CommitID cf, cf_FileID cf)"

definition f_key :: "File \<Rightarrow> string \<times> string" where
  "f_key f = (f_ProjectID f, f_Path f)"

definition l_key :: "Lock \<Rightarrow> string \<times> string" where
  "l_key l = (l_ProjectID l, l_FilePath l)"

section \<open>Constraints of the schema\<close>

definition users_ok :: "db \<Rightarrow> bool" where
  "users_ok d \<longleftrightarrow> distinct (map u_ID (users d)) \<and> distinct (map u_Username (users d))
     \<and> distinct (map u_Email (users d))"

definition projects_ok :: "db \<Rightarrow> bool" where
  "projects_ok d \<longleftrightarrow> distinct (map p_ID (projects d)) \<and> distinct (map p_Name (projects d))
     \<and> p_CreatedBy ` set (projects d) \<subseteq> u_ID ` set (users d)"

definition chunks_ok :: "db \<Rightarrow> bool" where
  "chunks_ok d \<longleftrightarrow> distinct (map ch_Hash (chunks d))"

definition commits_ok :: "db \<Rightarrow> bool" where
  "commits_ok d \<longleftrightarrow> distinct (map c_ID (commits d))
     \<and> c_ProjectID ` set (commits d) \<subseteq> p_ID ` set (projects d)
     \<and> c_AuthorID ` set (commits d) \<subseteq> u_ID ` set (users d)
     \<and> (\<forall>c \<in> set (commits d). \<forall>p. c_ParentID c = Some p \<longrightarrow> p \<in> c_ID ` set (commits d))"

definition refs_ok :: "db \<Rightarrow> bool" where
  "refs_ok d \<longleftrightarrow> distinct (map r_ID (refs d)) \<and> distinct (map r_key (refs d))
     \<and> r_ProjectID ` set (refs d) \<subseteq> p_ID ` set (projects d)
     \<and> r_CommitID ` set (refs d) \<subseteq> c_ID ` set (commits d)
     \<and> (\<forall>r \<in> set (refs d). char_count (r_Name r) \<le> 256 \<and> char_count (r_Type r) \<le> 32)"

definition files_ok :: "db \<Rightarrow> bool" where
  "files_ok d \<longleftrightarrow> distinct (map f_ID (files d)) \<and> distinct (map f_key (files d))
     \<and> f_ProjectID ` set (files d) \<subseteq> p_ID ` set (projects d)"

definition versions_ok :: "db \<Rightarrow> bool" where
  "versions_ok d \<longleftrightarrow> distinct (map fv_ID (file_versions d))
     \<and> fv_FileID ` set (file_versions d) \<subseteq> f_ID ` set (files d)
     \<and> fv_CommitID ` set (file_versions d) \<subseteq> c_ID ` set (commits d)
     \<and> None \<notin> fv_ChunkHashes ` set (file_versions d)"

definition snapshots_ok :: "db \<Rightarrow> bool" where
  "snapshots_ok d \<longleftrightarrow> distinct (map cf_key (commit_files d))
     \<and> cf_CommitID ` set (commit_files d) \<subseteq> c_ID ` set (commits d)
     \<and> cf_FileID ` set (commit_files d) \<subseteq> f_ID ` set (files d)
     \<and> cf_FileVersionID ` set (commit_files d) \<subseteq> fv_ID ` set (file_versions d)"

definition locks_ok :: "db \<Rightarrow> bool" where
  "locks_ok d \<longleftrightarrow> distinct (map l_ID (locks d)) \<and> distinct (map l_key (locks d))
     \<and> l_ProjectID ` set (locks d) \<subseteq> p_ID ` set (projects d)
     \<and> l_LockedBy ` set (locks d) \<subseteq> u_ID ` set (users d)"

definition schema_ok :: "db \<Rightarrow> bool" where
  "schema_ok d \<longleftrightarrow> users_ok d \<and> projects_ok d \<and> chunks_ok d \<and> commits_ok d \<and> refs_ok d
     \<and> files_ok d \<and> versions_ok d \<and> snapshots_ok d \<and> locks_ok d"

lemmas table_ok_defs = users_ok_def projects_ok_def chunks_ok_def commits_ok_def refs_ok_def
  files_ok_def versions_ok_def snapshots_ok_def locks_ok_def

lemma schema_ok_empty: "schema_ok empty_db"
  by (simp add: schema_ok_def table_ok_defs empty_db_def)

lemma schema_okD:
  assumes "schema_ok d"
  shows "distinct (map c_ID (commits d))" "distinct (map r_key (refs d))"
    "distinct (map f_ID (files d))" "distinct (map f_key (files d))"
    "distinct (map cf_key (commit_files d))" "distinct (map fv_ID (file_versions d))"
    "distinct (map l_key (locks d))" "distinct (map ch_Hash (chunks d))"
    "r_CommitID ` set (refs d) \<subseteq> c_ID ` set (commits d)"
    "distinct (map u_ID (users d))"
  using assms by (simp_all add: schema_ok_def table_ok_defs)

section \<open>Invariants of the server\<close>

text \<open>
  The parents of a commit are rows that were there before it (or the commit itself: the
  foreign key is checked after the row is in). The \<open>parent_ids\<close> column has no foreign key.
\<close>

primrec parents_before :: "string set \<Rightarrow> Commit list \<Rightarrow> bool" where
  "parents_before seen [] = True"
| "parents_before seen (c # cs) =
     (set (c_ParentIDs c) \<subseteq> insert (c_ID c) seen \<and> parents_before (insert (c_ID c) seen) cs)"

lemma parents_before_snoc:
  "parents_before seen (cs @ [c]) \<longleftrightarrow>
    parents_before seen cs \<and> set (c_ParentIDs c) \<subseteq> insert (c_ID c) (seen \<union> c_ID ` set cs)"
  by (induction cs arbitrary: seen) auto

lemma parents_before_subset:
  "parents_before seen cs \<Longrightarrow> c \<in> set cs \<Longrightarrow> set (c_ParentIDs c) \<subseteq> seen \<union> c_ID ` set cs"
proof (induction cs arbitrary: seen)
  case Nil
  then show ?case by simp
next
  case (Cons a cs)
  show ?case
  proof (cases "c = a")
    case True
    with Cons.prems show ?thesis by auto
  next
    case False
    with Cons.prems have "set (c_ParentIDs c) \<subseteq> insert (c_ID a) seen \<union> c_ID ` set cs"
      by (intro Cons.IH) auto
    then show ?thesis by auto
  qed
qed

text \<open>The legacy \<open>parent_id\<close> column is the first element of \<open>parent_ids\<close>.\<close>

definition parent_compat :: "Commit \<Rightarrow> bool" where
  "parent_compat c \<longleftrightarrow> c_ParentID c = (case c_ParentIDs c of [] \<Rightarrow> None | p # _ \<Rightarrow> Some p)"

text \<open>The version a snapshot names for a file is a version of that file.\<close>

definition snapshot_typed :: "db \<Rightarrow> bool" where
  "snapshot_typed d \<longleftrightarrow> (\<forall>cf \<in> set (commit_files d). \<exists>fv \<in> set (file_versions d).
     fv_ID fv = cf_FileVersionID cf \<and> fv_FileID fv = cf_FileID cf)"

text \<open>A ref points to a commit of its own project.\<close>

definition refs_local :: "db \<Rightarrow> bool" where
  "refs_local d \<longleftrightarrow> (\<forall>r \<in> set (refs d). \<exists>c \<in> set (commits d).
     c_ID c = r_CommitID r \<and> c_ProjectID c = r_ProjectID r)"

text \<open>No version has the empty identifier, which the merge uses for ``no version''.\<close>

definition versions_named :: "db \<Rightarrow> bool" where
  "versions_named d \<longleftrightarrow> (\<forall>fv \<in> set (file_versions d). fv_ID fv \<noteq> '''')"

definition history_ok :: "db \<Rightarrow> bool" where
  "history_ok d \<longleftrightarrow> parents_before {} (commits d) \<and> (\<forall>c \<in> set (commits d). parent_compat c)
     \<and> snapshot_typed d \<and> refs_local d \<and> versions_named d"

lemmas history_defs = history_ok_def snapshot_typed_def refs_local_def versions_named_def

definition db_ok :: "db \<Rightarrow> bool" where
  "db_ok d \<longleftrightarrow> schema_ok d \<and> history_ok d"

lemma db_ok_empty: "db_ok empty_db"
  using schema_ok_empty by (simp add: db_ok_def history_defs) (simp add: empty_db_def)

section \<open>Snapshots as maps\<close>

text \<open>The snapshot of a commit: file identifier to version identifier.\<close>

definition snap :: "db \<Rightarrow> string \<Rightarrow> string \<rightharpoonup> string" where
  "snap d cid f = map_option cf_FileVersionID (row_at cf_key (cid, f) (commit_files d))"

lemma snap_Some:
  "distinct (map cf_key (commit_files d)) \<Longrightarrow> snap d cid f = Some v \<longleftrightarrow>
    (\<exists>cf \<in> set (commit_files d). cf_CommitID cf = cid \<and> cf_FileID cf = f \<and> cf_FileVersionID cf = v)"
  by (auto simp: snap_def row_at_iff cf_key_def)

lemma snap_None:
  "snap d cid f = None \<longleftrightarrow> (\<forall>cf \<in> set (commit_files d). cf_CommitID cf = cid \<longrightarrow> cf_FileID cf \<noteq> f)"
  by (force simp: snap_def row_at_None cf_key_def)

lemma snap_cong: "commit_files d' = commit_files d \<Longrightarrow> snap d' = snap d"
  by (simp add: snap_def fun_eq_iff)

lemma snap_simps [simp]:
  "snap (d\<lparr>commits := x1\<rparr>) = snap d" "snap (d\<lparr>refs := x2\<rparr>) = snap d" "snap (d\<lparr>chunks := x3\<rparr>) = snap d"
  "snap (d\<lparr>files := x4\<rparr>) = snap d" "snap (d\<lparr>file_versions := x5\<rparr>) = snap d" "snap (d\<lparr>locks := x6\<rparr>) = snap d"
  by (simp_all add: snap_def fun_eq_iff)

definition head_of :: "db \<Rightarrow> string \<Rightarrow> string \<Rightarrow> string option" where
  "head_of d project name =
     map_option r_CommitID (row_at r_key (project, name, ''branch'') (refs d))"

end
