(* ===== verification/Chunk_Store.thy ===== *)
theory Chunk_Store
  imports Schema
begin

text \<open>
  \<^verbatim>\<open>internal/store/postgres/chunk.go\<close>, the metadata and reference counts of chunks, and
  \<^verbatim>\<open>internal/store/minio/chunk.go\<close>, the chunk blobs.
\<close>

section \<open>Metadata\<close>

definition sql_insert_chunk :: "Chunk \<Rightarrow> db \<Rightarrow> error + unit \<times> db" where
  "sql_insert_chunk c d =
     (if 64 < length (ch_Hash c) then Inl (Violation ''value too long for type character(64)'')
      else Inr ((), d\<lparr>chunks := upsert_row ch_Hash keep_row c (chunks d)\<rparr>))"

definition ChunkStore_Insert :: "Chunk \<Rightarrow> unit result io" where
  "ChunkStore_Insert c = db_exec (sql_insert_chunk c)"

definition ChunkStore_GetByHash :: "string \<Rightarrow> Chunk result io" where
  "ChunkStore_GetByHash hash = db_query (\<lambda>d.
     case row_at ch_Hash hash (chunks d) of None \<Rightarrow> Inl ErrNoRows | Some c \<Rightarrow> Inr c)"

text \<open>The join with \<open>unnest(hashes)\<close> gives one row per occurrence in \<open>hashes\<close>.\<close>

definition sql_existing_chunks :: "string list \<Rightarrow> db \<Rightarrow> string list" where
  "sql_existing_chunks hashes d =
     concat (map (\<lambda>c. map (\<lambda>_. ch_Hash c) (filter (\<lambda>h. h = ch_Hash c) hashes)) (chunks d))"

definition ChunkStore_CheckExisting :: "string list \<Rightarrow> string list result io" where
  "ChunkStore_CheckExisting hashes = db_query (\<lambda>d. Inr (sql_existing_chunks hashes d))"

text \<open>
  \<open>UPDATE chunks SET ref_count = ref_count + n WHERE hash = ANY(hashes)\<close>: every matching row
  once, however often its hash is listed; the column is a 32 bit INT and overflow aborts the
  statement.
\<close>

definition sql_add_ref_count :: "int \<Rightarrow> string list \<Rightarrow> db \<Rightarrow> error + unit \<times> db" where
  "sql_add_ref_count n hashes d =
     (if list_ex (\<lambda>c. ch_Hash c \<in> set hashes
          \<and> (ch_RefCount c + n < - (2 ^ 31) \<or> 2 ^ 31 \<le> ch_RefCount c + n)) (chunks d)
      then Inl (Violation ''integer out of range'')
      else Inr ((), d\<lparr>chunks := map (\<lambda>c. if ch_Hash c \<in> set hashes
          then c\<lparr>ch_RefCount := ch_RefCount c + n\<rparr> else c) (chunks d)\<rparr>))"

definition ChunkStore_IncrementRefCount :: "string list \<Rightarrow> unit result io" where
  "ChunkStore_IncrementRefCount hashes = db_exec (sql_add_ref_count 1 hashes)"

definition ChunkStore_DecrementRefCount :: "string list \<Rightarrow> unit result io" where
  "ChunkStore_DecrementRefCount hashes = db_exec (sql_add_ref_count (- 1) hashes)"

lemmas chunk_store_calls [wp_simps] = ChunkStore_Insert_def ChunkStore_GetByHash_def
  ChunkStore_CheckExisting_def ChunkStore_IncrementRefCount_def ChunkStore_DecrementRefCount_def

section \<open>Blobs\<close>

text \<open>
  \<open>hash[:2]\<close> and \<open>hash[2:4]\<close> panic on a string of fewer than four bytes: \<open>None\<close>.
\<close>

definition KeyFromHash :: "string \<Rightarrow> string option" where
  "KeyFromHash hash =
     (if length hash < 4 then None
      else Some (take 2 hash @ ''/'' @ take 2 (drop 2 hash) @ ''/'' @ hash))"

text \<open>
  Object storage: a put replaces the object under the key, a get of a missing key is an
  error. A method called with a hash that has no key panics; a panic is the outcome \<open>None\<close>.
\<close>

definition MinioStore_Put :: "string \<Rightarrow> bytes \<Rightarrow> unit result option io" where
  "MinioStore_Put hash data = State (\<lambda>w.
     case KeyFromHash hash of
       None \<Rightarrow> (None, w)
     | Some k \<Rightarrow>
         if w_fault w (w_tick w) then (Some (Inl Unavailable), next_tick w)
         else (Some (Inr ()), (next_tick w)\<lparr>w_blobs := (w_blobs w)(k \<mapsto> data)\<rparr>))"

definition MinioStore_Get :: "string \<Rightarrow> (bytes \<times> int) result option io" where
  "MinioStore_Get hash = State (\<lambda>w.
     case KeyFromHash hash of
       None \<Rightarrow> (None, w)
     | Some k \<Rightarrow>
         (if w_fault w (w_tick w) then Some (Inl Unavailable)
          else (case w_blobs w k of
             None \<Rightarrow> Some (Inl (NewError ''NoSuchKey''))
           | Some data \<Rightarrow> Some (Inr (data, int (length data)))), next_tick w))"

definition MinioStore_Exists :: "string \<Rightarrow> bool result option io" where
  "MinioStore_Exists hash = State (\<lambda>w.
     case KeyFromHash hash of
       None \<Rightarrow> (None, w)
     | Some k \<Rightarrow>
         (if w_fault w (w_tick w) then Some (Inl Unavailable)
          else Some (Inr (w_blobs w k \<noteq> None)), next_tick w))"

definition MinioStore_Delete :: "string \<Rightarrow> unit result option io" where
  "MinioStore_Delete hash = State (\<lambda>w.
     case KeyFromHash hash of
       None \<Rightarrow> (None, w)
     | Some k \<Rightarrow>
         if w_fault w (w_tick w) then (Some (Inl Unavailable), next_tick w)
         else (Some (Inr ()), (next_tick w)\<lparr>w_blobs := (w_blobs w)(k := None)\<rparr>))"

lemma wp_MinioStore_Put [wp_simps]:
  "wp (MinioStore_Put hash data) Q w =
    (case KeyFromHash hash of
       None \<Rightarrow> Q None w
     | Some k \<Rightarrow>
         if w_fault w (w_tick w) then Q (Some (Inl Unavailable)) (next_tick w)
         else Q (Some (Inr ())) ((next_tick w)\<lparr>w_blobs := (w_blobs w)(k \<mapsto> data)\<rparr>))"
  by (simp add: wp_def MinioStore_Put_def split: option.splits)

lemma wp_MinioStore_Get [wp_simps]:
  "wp (MinioStore_Get hash) Q w =
    (case KeyFromHash hash of
       None \<Rightarrow> Q None w
     | Some k \<Rightarrow>
         if w_fault w (w_tick w) then Q (Some (Inl Unavailable)) (next_tick w)
         else (case w_blobs w k of
             None \<Rightarrow> Q (Some (Inl (NewError ''NoSuchKey''))) (next_tick w)
           | Some data \<Rightarrow> Q (Some (Inr (data, int (length data)))) (next_tick w)))"
  by (simp add: wp_def MinioStore_Get_def split: option.splits)

text \<open>The key determines the hash: two chunks never share an object.\<close>

lemma KeyFromHash_inj: "KeyFromHash h = Some k \<Longrightarrow> KeyFromHash h' = Some k \<Longrightarrow> h = h'"
  by (auto simp: KeyFromHash_def split: if_splits)

lemma KeyFromHash_None: "KeyFromHash h = None \<longleftrightarrow> length h < 4"
  by (simp add: KeyFromHash_def)

section \<open>Effects of the statements\<close>

lemma sql_insert_chunk_Inr:
  "sql_insert_chunk c d = Inr (x, d') \<longleftrightarrow>
    d' = d\<lparr>chunks := upsert_row ch_Hash keep_row c (chunks d)\<rparr> \<and> length (ch_Hash c) \<le> 64"
  by (auto simp: sql_insert_chunk_def)

definition chunk_combine :: "Chunk option \<Rightarrow> Chunk \<Rightarrow> Chunk" where
  "chunk_combine old c = (case old of None \<Rightarrow> c | Some row \<Rightarrow> row)"

interpretation chunk_table: insert_ignore_table
  "\<lambda>k d. row_at ch_Hash k (chunks d)" sql_insert_chunk ch_Hash chunk_combine
proof (unfold_locales, goal_cases)
  case (1 v d d' k)
  then show ?case
    by (auto simp: sql_insert_chunk_Inr row_at_upsert chunk_combine_def split: option.splits)
next
  case (2 old v)
  show ?case by (simp add: chunk_combine_def)
qed

lemma set_existing_chunks:
  "set (sql_existing_chunks hashes d) = set hashes \<inter> ch_Hash ` set (chunks d)"
  by (auto simp: sql_existing_chunks_def)

lemma sql_add_ref_count_Inr:
  "sql_add_ref_count n hashes d = Inr (x, d') \<Longrightarrow>
    d' = d\<lparr>chunks := map (\<lambda>c. if ch_Hash c \<in> set hashes
          then c\<lparr>ch_RefCount := ch_RefCount c + n\<rparr> else c) (chunks d)\<rparr>"
  by (simp add: sql_add_ref_count_def split: if_splits)

lemma row_at_add_ref_count:
  assumes "sql_add_ref_count n hashes d = Inr (x, d')"
  shows "row_at ch_Hash h (chunks d') =
    map_option (\<lambda>c. if h \<in> set hashes then c\<lparr>ch_RefCount := ch_RefCount c + n\<rparr> else c)
      (row_at ch_Hash h (chunks d))"
proof -
  let ?f = "\<lambda>c. if ch_Hash c \<in> set hashes then c\<lparr>ch_RefCount := ch_RefCount c + n\<rparr> else c"
  have "row_at ch_Hash h (chunks d') = map_option ?f (row_at ch_Hash h (chunks d))"
    unfolding sql_add_ref_count_Inr [OF assms]
    using row_at_map [of ch_Hash ?f h "chunks d"] by simp
  then show ?thesis
    by (cases "row_at ch_Hash h (chunks d)") (auto dest: row_at_SomeD)
qed

lemma hashes_add_ref_count:
  assumes "sql_add_ref_count n hashes d = Inr (x, d')"
  shows "ch_Hash ` set (chunks d') = ch_Hash ` set (chunks d)"
proof -
  have "h \<in> ch_Hash ` set (chunks d') \<longleftrightarrow> h \<in> ch_Hash ` set (chunks d)" for h
    using row_at_add_ref_count [OF assms, of h] row_at_None [of ch_Hash h "chunks d"]
      row_at_None [of ch_Hash h "chunks d'"] by (simp only: option.map_disc_iff) blast
  then show ?thesis by blast
qed

section \<open>Invariants\<close>

lemma chunks_change_ok:
  "db_ok d \<Longrightarrow> chunks_ok (d\<lparr>chunks := cs\<rparr>) \<Longrightarrow> db_ok (d\<lparr>chunks := cs\<rparr>)"
  by (simp add: db_ok_def schema_ok_def table_ok_defs history_defs)

lemma insert_chunk_ok:
  assumes "db_ok d" "sql_insert_chunk c d = Inr (x, d')"
  shows "db_ok d'"
proof -
  have "distinct (map ch_Hash (chunks d))"
    using assms(1) by (simp add: db_ok_def schema_okD)
  then have "distinct (map ch_Hash (upsert_row ch_Hash keep_row c (chunks d)))"
    by (intro distinct_upsert) simp_all
  then show ?thesis
    using assms by (auto simp: sql_insert_chunk_Inr chunks_ok_def intro!: chunks_change_ok)
qed

lemma add_ref_count_ok:
  assumes "db_ok d" "sql_add_ref_count n hashes d = Inr (x, d')"
  shows "db_ok d'"
proof -
  let ?f = "\<lambda>c. if ch_Hash c \<in> set hashes then c\<lparr>ch_RefCount := ch_RefCount c + n\<rparr> else c"
  have keys: "ch_Hash (?f c) = ch_Hash c" for c by simp
  have "map ch_Hash (map ?f (chunks d)) = map ch_Hash (chunks d)"
    unfolding map_map comp_def keys by (rule refl)
  moreover have "distinct (map ch_Hash (chunks d))"
    using assms(1) by (simp add: db_ok_def schema_okD)
  ultimately have "distinct (map ch_Hash (map ?f (chunks d)))" by (simp only:)
  then have "chunks_ok (d\<lparr>chunks := map ?f (chunks d)\<rparr>)"
    by (simp add: chunks_ok_def del: map_map)
  with assms(1) show ?thesis
    unfolding sql_add_ref_count_Inr [OF assms(2)] by (rule chunks_change_ok)
qed

end
