(* ===== verification/Http.thy ===== *)
theory Http
  imports World
begin

text \<open>
  What the handlers see of HTTP: a JSON body that decoded or did not (\<open>None\<close>), the identity
  the auth middleware put in the context, and the reply. \<^verbatim>\<open>internal/handler/helpers.go\<close>:
  \<open>writeJSON(w, status, data)\<close> sends one reply; \<open>errorBody(code, message)\<close> is the payload of
  an error.
\<close>

datatype 'a reply =
    Reply (status: nat) 'a
  | ErrorReply (status: nat) (code: string) (message: string)

definition writeJSON :: "nat \<Rightarrow> 'a \<Rightarrow> 'a reply io" where
  "writeJSON st data = ret (Reply st data)"

definition writeErrorJSON :: "nat \<Rightarrow> string \<Rightarrow> string \<Rightarrow> 'a reply io" where
  "writeErrorJSON st c msg = ret (ErrorReply st c msg)"

definition is_error :: "'a reply \<Rightarrow> bool" where
  "is_error r = (case r of Reply _ _ \<Rightarrow> False | ErrorReply _ _ _ \<Rightarrow> True)"

lemma is_error_simps [simp]: "\<not> is_error (Reply st x)" "is_error (ErrorReply st c m)"
  by (simp_all add: is_error_def)

lemma wp_writeJSON [wp_simps]: "wp (writeJSON st x) Q w = Q (Reply st x) w"
  and wp_writeErrorJSON [wp_simps]: "wp (writeErrorJSON st c m) Q w = Q (ErrorReply st c m) w"
  by (simp_all add: writeJSON_def writeErrorJSON_def wp_simps)

lemma keeps_writeJSON [keeps_intros]: "keeps I (writeJSON st x)"
  and keeps_writeErrorJSON [keeps_intros]: "keeps I (writeErrorJSON st c m)"
  by (simp_all add: writeJSON_def writeErrorJSON_def keeps_intros)

text \<open>
  A handler on top of a service that may panic: chi's \<open>Recoverer\<close> middleware answers a panic
  before the reply with status 500 and no body.
\<close>

definition reply_outcome :: "'a outcome io \<Rightarrow> (error \<Rightarrow> 'b reply io) \<Rightarrow> ('a \<Rightarrow> 'b reply io) \<Rightarrow> 'b reply io" where
  "reply_outcome m fail succeed = do {
     r \<leftarrow> m;
     case r of
       None \<Rightarrow> ret (ErrorReply 500 [] [])
     | Some (Inl e) \<Rightarrow> fail e
     | Some (Inr x) \<Rightarrow> succeed x
   }"

lemma wp_reply_outcome [wp_simps]:
  "wp (reply_outcome m f g) Q w = wp m (\<lambda>r w'. case r of None \<Rightarrow> Q (ErrorReply 500 [] []) w'
    | Some (Inl e) \<Rightarrow> wp (f e) Q w' | Some (Inr x) \<Rightarrow> wp (g x) Q w') w"
  by (simp add: reply_outcome_def wp_def split: prod.splits option.splits sum.splits)

lemma keeps_reply_outcome [keeps_intros]:
  "keeps I m \<Longrightarrow> (\<And>e. keeps I (f e)) \<Longrightarrow> (\<And>x. keeps I (g x)) \<Longrightarrow> keeps I (reply_outcome m f g)"
  unfolding reply_outcome_def by (auto intro!: keeps_intros split: option.splits sum.splits)

text \<open>The same for a service that returns a result.\<close>

definition reply_result :: "'a result io \<Rightarrow> (error \<Rightarrow> 'b reply io) \<Rightarrow> ('a \<Rightarrow> 'b reply io) \<Rightarrow> 'b reply io" where
  "reply_result m fail succeed = do {
     r \<leftarrow> m;
     case r of Inl e \<Rightarrow> fail e | Inr x \<Rightarrow> succeed x
   }"

lemma wp_reply_result [wp_simps]:
  "wp (reply_result m f g) Q w = wp m (\<lambda>r w'. case r of Inl e \<Rightarrow> wp (f e) Q w' | Inr x \<Rightarrow> wp (g x) Q w') w"
  by (simp add: reply_result_def wp_def split: prod.splits sum.splits)

text \<open>What holds after the service and is not changed by writing the reply.\<close>

lemma wp_reply_resultI:
  assumes "wp m (\<lambda>_. P) w" "\<And>e w'. P w' \<Longrightarrow> wp (f e) (\<lambda>_. P) w'" "\<And>x w'. P w' \<Longrightarrow> wp (g x) (\<lambda>_. P) w'"
  shows "wp (reply_result m f g) (\<lambda>_. P) w"
  unfolding wp_reply_result by (rule wp_mono [OF assms(1)]) (auto split: sum.splits intro: assms(2,3))

lemma keeps_reply_result [keeps_intros]:
  "keeps I m \<Longrightarrow> (\<And>e. keeps I (f e)) \<Longrightarrow> (\<And>x. keeps I (g x)) \<Longrightarrow> keeps I (reply_result m f g)"
  unfolding reply_result_def by (auto intro!: keeps_intros split: sum.splits)

context frame_relation
begin

lemma frame_writeJSON [frame_intros]: "preserves R (writeJSON st x)"
  and frame_writeErrorJSON [frame_intros]: "preserves R (writeErrorJSON st c m)"
  by (simp_all add: writeJSON_def writeErrorJSON_def frame_return)

lemma frame_reply_outcome [frame_intros]:
  "preserves R m \<Longrightarrow> (\<And>e. preserves R (f e)) \<Longrightarrow> (\<And>x. preserves R (g x)) \<Longrightarrow> preserves R (reply_outcome m f g)"
  unfolding reply_outcome_def by (rule frame_bind) (auto intro: frame_return split: option.splits sum.splits)

lemma frame_reply_result [frame_intros]:
  "preserves R m \<Longrightarrow> (\<And>e. preserves R (f e)) \<Longrightarrow> (\<And>x. preserves R (g x)) \<Longrightarrow> preserves R (reply_result m f g)"
  unfolding reply_result_def by (rule frame_bind) (auto split: sum.splits)

end

text \<open>The bytes of the dash in two of the messages.\<close>

definition em_dash :: string where
  "em_dash = [CHR 0xE2, CHR 0x80, CHR 0x94]"

abbreviation StatusOK :: nat where "StatusOK \<equiv> 200"
abbreviation StatusCreated :: nat where "StatusCreated \<equiv> 201"
abbreviation StatusBadRequest :: nat where "StatusBadRequest \<equiv> 400"
abbreviation StatusUnauthorized :: nat where "StatusUnauthorized \<equiv> 401"
abbreviation StatusForbidden :: nat where "StatusForbidden \<equiv> 403"
abbreviation StatusNotFound :: nat where "StatusNotFound \<equiv> 404"
abbreviation StatusConflict :: nat where "StatusConflict \<equiv> 409"
abbreviation StatusRequestEntityTooLarge :: nat where "StatusRequestEntityTooLarge \<equiv> 413"
abbreviation StatusTooManyRequests :: nat where "StatusTooManyRequests \<equiv> 429"
abbreviation StatusInternalServerError :: nat where "StatusInternalServerError \<equiv> 500"

end
