(* ===== verification/Chunk_Service.thy ===== *)
theory Chunk_Service
  imports Chunk_Store Sha256 Http
begin

text \<open>
  \<^verbatim>\<open>internal/service/chunk.go\<close>: chunks are named by the SHA-256 of their content; the blob
  is in the bucket, its metadata in the table \<open>chunks\<close>.
\<close>

section \<open>Service\<close>

text \<open>
  \<open>make([]string, 0, len(hashes)-len(existing))\<close> panics when there are more rows than hashes.
\<close>

definition ChunkService_CheckExisting :: "string list \<Rightarrow> (string list \<times> string list) outcome io" where
  "ChunkService_CheckExisting hashes =
     go_must (ChunkStore_CheckExisting hashes) (Wrap ''check existing chunks'') (\<lambda>existing.
       if length hashes < length existing then panic
       else ret (Some (Inr (existing, filter (\<lambda>h. h \<notin> set existing) hashes))))"

definition ChunkService_Upload :: "int \<Rightarrow> string \<Rightarrow> bytes \<Rightarrow> unit outcome io" where
  "ChunkService_Upload maxSize expectedHash data =
     (if maxSize < int (length data) then ret (Some (Inl ErrChunkTooLarge))
      else let actualHash = hex_string (Sum256 data) in
        if actualHash \<noteq> expectedHash then ret (Some (Inl ErrChunkHashMismatch))
        else go_call (MinioStore_Put actualHash data) (Wrap ''store chunk blob'') (\<lambda>_.
          case KeyFromHash actualHash of
            None \<Rightarrow> panic
          | Some key \<Rightarrow> do {
              now \<leftarrow> time_Now;
              go_must (ChunkStore_Insert \<lparr>ch_Hash = actualHash, ch_SizeBytes = int (length data),
                  ch_MinioBucket = ''chunks'', ch_MinioKey = key, ch_RefCount = 0, ch_CreatedAt = now\<rparr>)
                (Wrap ''record chunk metadata'') (\<lambda>_. ret (Some (Inr ())))
            }))"

definition ChunkService_Download :: "string \<Rightarrow> (bytes \<times> int) outcome io" where
  "ChunkService_Download hash =
     go_must (ChunkStore_GetByHash hash) (\<lambda>_. ErrChunkNotFound) (\<lambda>_.
     go_call (MinioStore_Get hash) (Wrap ''retrieve chunk blob'') (\<lambda>r. ret (Some (Inr r))))"

section \<open>Content addressing\<close>

abbreviation hash_of :: "bytes \<Rightarrow> string" where
  "hash_of data \<equiv> hex_string (Sum256 data)"

lemma KeyFromHash_hash_of: "\<exists>k. KeyFromHash (hash_of data) = Some k"
  by (simp add: KeyFromHash_def)

text \<open>
  The bucket invariant: an object is stored under the key of the hash of its content, and
  every row of \<open>chunks\<close> is the hash of an object that is there.
\<close>

definition bucket_ok :: "(string \<rightharpoonup> bytes) \<Rightarrow> bool" where
  "bucket_ok b \<longleftrightarrow> (\<forall>k data. b k = Some data \<longrightarrow> KeyFromHash (hash_of data) = Some k)"

definition backed :: "world \<Rightarrow> bool" where
  "backed w \<longleftrightarrow> (\<forall>h \<in> ch_Hash ` set (chunks (w_db w)). \<exists>k data.
     KeyFromHash h = Some k \<and> w_blobs w k = Some data \<and> hash_of data = h)"

definition content_ok :: "world \<Rightarrow> bool" where
  "content_ok w \<longleftrightarrow> bucket_ok (w_blobs w) \<and> backed w"

text \<open>No object is ever removed or changed.\<close>

definition bucket_le :: "(string \<rightharpoonup> bytes) \<Rightarrow> (string \<rightharpoonup> bytes) \<Rightarrow> bool" where
  "bucket_le b b' \<longleftrightarrow> (\<forall>k data. b k = Some data \<longrightarrow> (\<exists>data'. b' k = Some data' \<and> hash_of data' = hash_of data))"

lemma bucket_put:
  assumes "bucket_ok b" "KeyFromHash (hash_of data) = Some k"
  shows "bucket_ok (b(k \<mapsto> data))" "bucket_le b (b(k \<mapsto> data))"
proof -
  show "bucket_ok (b(k \<mapsto> data))" using assms by (auto simp: bucket_ok_def)
  have "hash_of data = hash_of x" if "b k = Some x" for x
    using assms that KeyFromHash_inj unfolding bucket_ok_def by blast
  then show "bucket_le b (b(k \<mapsto> data))" by (auto simp: bucket_le_def)
qed

lemma backed_mono:
  assumes "backed w" "bucket_le (w_blobs w) (w_blobs w')"
    "ch_Hash ` set (chunks (w_db w')) \<subseteq> ch_Hash ` set (chunks (w_db w)) \<union> H"
    "\<And>h. h \<in> H \<Longrightarrow> \<exists>k data. KeyFromHash h = Some k \<and> w_blobs w' k = Some data \<and> hash_of data = h"
  shows "backed w'"
  unfolding backed_def
proof
  fix h
  assume "h \<in> ch_Hash ` set (chunks (w_db w'))"
  with assms(3) consider "h \<in> ch_Hash ` set (chunks (w_db w))" | "h \<in> H" by blast
  then show "\<exists>k data. KeyFromHash h = Some k \<and> w_blobs w' k = Some data \<and> hash_of data = h"
  proof cases
    case 1
    then obtain k data where "KeyFromHash h = Some k" "w_blobs w k = Some data" "hash_of data = h"
      using assms(1) unfolding backed_def by blast
    with assms(2) show ?thesis unfolding bucket_le_def by blast
  qed (rule assms(4))
qed

section \<open>Uploading\<close>

lemma wp_Upload:
  assumes reject: "maxSize < int (length data) \<Longrightarrow> Q (Some (Inl ErrChunkTooLarge)) w"
      "int (length data) \<le> maxSize \<Longrightarrow> hash_of data \<noteq> h \<Longrightarrow> Q (Some (Inl ErrChunkHashMismatch)) w"
    and unstored: "\<And>e w'. w_db w' = w_db w \<Longrightarrow> w_blobs w' = w_blobs w \<Longrightarrow> \<not> no_faults w \<Longrightarrow>
      int (length data) \<le> maxSize \<Longrightarrow> hash_of data = h \<Longrightarrow> Q (Some (Inl (Wrap ''store chunk blob'' e))) w'"
    and unrecorded: "\<And>k e w'. w_db w' = w_db w \<Longrightarrow> w_blobs w' = (w_blobs w)(k \<mapsto> data) \<Longrightarrow>
      KeyFromHash h = Some k \<Longrightarrow> \<not> no_faults w \<Longrightarrow> int (length data) \<le> maxSize \<Longrightarrow> hash_of data = h \<Longrightarrow>
      Q (Some (Inl (Wrap ''record chunk metadata'' e))) w'"
    and stored: "\<And>k c w'. ch_Hash c = h \<Longrightarrow> w_db w' = (w_db w)\<lparr>chunks := upsert_row ch_Hash keep_row c (chunks (w_db w))\<rparr> \<Longrightarrow>
      w_blobs w' = (w_blobs w)(k \<mapsto> data) \<Longrightarrow> KeyFromHash h = Some k \<Longrightarrow>
      int (length data) \<le> maxSize \<Longrightarrow> hash_of data = h \<Longrightarrow> w_fault w' = w_fault w \<Longrightarrow> Q (Some (Inr ())) w'"
  shows "wp (ChunkService_Upload maxSize h data) Q w"
proof (cases "maxSize < int (length data) \<or> hash_of data \<noteq> h")
  case True
  then show ?thesis using reject by (auto simp: ChunkService_Upload_def wp_simps Let_def)
next
  case False
  then obtain k where k: "KeyFromHash h = Some k" using KeyFromHash_hash_of by metis
  have "length h \<le> 64" using False by auto
  have faulty: "w_fault w n \<Longrightarrow> \<not> no_faults w" for n by auto
  let ?c = "\<lparr>ch_Hash = h, ch_SizeBytes = int (length data), ch_MinioBucket = ''chunks'', ch_MinioKey = k,
    ch_RefCount = 0, ch_CreatedAt = w_clock w (Suc (w_tick w))\<rparr>"
  show ?thesis
    using False k \<open>length h \<le> 64\<close> unstored unrecorded stored [of ?c _ k] faulty
    by (auto simp: ChunkService_Upload_def wp_simps sql_insert_chunk_def)
qed

lemma ch_Hash_upsert: "ch_Hash ` set (upsert_row ch_Hash keep_row c rows) = insert (ch_Hash c) (ch_Hash ` set rows)"
  by (rule keys_upsert) simp

lemma Upload_content_ok:
  assumes "content_ok w"
  shows "wp (ChunkService_Upload maxSize h data) (\<lambda>_ w'. content_ok w' \<and> bucket_le (w_blobs w) (w_blobs w')) w"
proof (rule wp_Upload, goal_cases)
  case (3 e w')
  then show ?case using assms by (auto simp: content_ok_def backed_def bucket_le_def)
next
  case (4 k e w')
  have put: "bucket_ok (w_blobs w')" "bucket_le (w_blobs w) (w_blobs w')"
    using bucket_put [of "w_blobs w" data k] assms 4 by (simp_all add: content_ok_def)
  moreover have "backed w'"
    by (rule backed_mono [of w _ "{}"]) (use assms put 4 in \<open>simp_all add: content_ok_def\<close>)
  ultimately show ?case by (simp add: content_ok_def)
next
  case (5 k c w')
  have put: "bucket_ok (w_blobs w')" "bucket_le (w_blobs w) (w_blobs w')"
    using bucket_put [of "w_blobs w" data k] assms 5 by (simp_all add: content_ok_def)
  moreover have "backed w'"
    by (rule backed_mono [of w _ "{h}"]) (use assms put 5 in \<open>auto simp: content_ok_def ch_Hash_upsert\<close>)
  ultimately show ?case by (simp add: content_ok_def)
qed (use assms in \<open>simp_all add: bucket_le_def\<close>)

lemma keeps_MinioStore [keeps_intros]:
  "keeps I (MinioStore_Put h data)" "keeps I (MinioStore_Get h)"
  by (auto simp: keeps_def wp_simps split: option.splits)

lemma keeps_ChunkStore [keeps_intros]:
  "keeps db_ok (ChunkStore_Insert c)" "keeps I (ChunkStore_GetByHash h)" "keeps I (ChunkStore_CheckExisting hs)"
  unfolding chunk_store_calls
  by (auto intro!: keeps_db_exec keeps_db_query intro: insert_chunk_ok)

lemma keeps_ChunkService [keeps_intros]:
  "keeps db_ok (ChunkService_Upload maxSize h data)"
  "keeps I (ChunkService_Download h)"
  "keeps I (ChunkService_CheckExisting hs)"
  unfolding ChunkService_Upload_def ChunkService_Download_def ChunkService_CheckExisting_def Let_def
  by (auto intro!: keeps_intros split: option.splits)

section \<open>Downloading\<close>

lemma wp_Download:
  assumes missing: "row_at ch_Hash h (chunks (w_db w)) = None \<or> \<not> no_faults w \<Longrightarrow>
      (\<And>w' r. w_db w' = w_db w \<Longrightarrow> w_blobs w' = w_blobs w \<Longrightarrow> r = None \<or> (\<exists>e. r = Some (Inl e)) \<Longrightarrow> Q r w')"
    and lost: "\<And>w' r. w_db w' = w_db w \<Longrightarrow> w_blobs w' = w_blobs w \<Longrightarrow> r = None \<or> (\<exists>e. r = Some (Inl e)) \<Longrightarrow>
      \<not> backed w \<Longrightarrow> Q r w'"
    and found: "\<And>k data w'. w_db w' = w_db w \<Longrightarrow> w_blobs w' = w_blobs w \<Longrightarrow> KeyFromHash h = Some k \<Longrightarrow>
      w_blobs w k = Some data \<Longrightarrow> h \<in> ch_Hash ` set (chunks (w_db w)) \<Longrightarrow>
      Q (Some (Inr (data, int (length data)))) w'"
  shows "wp (ChunkService_Download h) Q w"
proof (cases "row_at ch_Hash h (chunks (w_db w)) = None \<or> w_fault w (w_tick w)")
  case True
  then have "wp (ChunkService_Download h) Q w = Q (Some (Inl ErrChunkNotFound)) (next_tick w)"
    by (auto simp: ChunkService_Download_def wp_simps)
  moreover have "\<not> no_faults w" if "w_fault w (w_tick w)" using that by auto
  ultimately show ?thesis using True missing by auto
next
  case False
  then have row: "h \<in> ch_Hash ` set (chunks (w_db w))" by (auto simp: row_at_None)
  have faulty: "w_fault w n \<Longrightarrow> \<not> no_faults w" for n by auto
  have lost': "\<not> backed w" if "KeyFromHash h = None \<or> (\<exists>k. KeyFromHash h = Some k \<and> w_blobs w k = None)"
    using that row unfolding backed_def by force
  show ?thesis
    using False missing lost lost' found [of _ _ _] row faulty
    by (auto simp: ChunkService_Download_def wp_simps split: option.splits)
qed

lemma Download_content:
  assumes "content_ok w"
  shows "wp (ChunkService_Download h) (\<lambda>r w'. \<forall>data n. r = Some (Inr (data, n)) \<longrightarrow> hash_of data = h \<and> n = int (length data)) w"
proof (rule wp_Download, goal_cases)
  case (3 k data w')
  then have "KeyFromHash (hash_of data) = Some k" using assms by (auto simp: content_ok_def bucket_ok_def)
  with 3 have "hash_of data = h" using KeyFromHash_inj by blast
  then show ?case by simp
qed auto

section \<open>Checking\<close>

text \<open>The query never returns more rows than hashes, so the service does not panic.\<close>

lemma length_existing_chunks:
  assumes "distinct (map ch_Hash (chunks d))"
  shows "length (sql_existing_chunks hashes d) \<le> length hashes"
proof -
  have "length (sql_existing_chunks hashes d) = (\<Sum>c\<leftarrow>chunks d. count_list hashes (ch_Hash c))"
  proof -
    have "length (filter (\<lambda>h. h = x) hashes) = count_list hashes x" for x
      by (induction hashes) auto
    then show ?thesis by (simp add: sql_existing_chunks_def length_concat comp_def)
  qed
  also have "\<dots> = (\<Sum>h\<leftarrow>map ch_Hash (chunks d). count_list hashes h)"
    by (simp add: comp_def)
  also have "\<dots> = (\<Sum>h\<in>set (map ch_Hash (chunks d)). count_list hashes h)"
    using assms by (rule sum_list_distinct_conv_sum_set)
  also have "\<dots> \<le> (\<Sum>h\<in>set (map ch_Hash (chunks d)) \<union> set hashes. count_list hashes h)"
    by (rule sum_mono2) auto
  also have "\<dots> = (\<Sum>h\<in>set hashes. count_list hashes h)"
    by (rule sum.mono_neutral_right) (auto simp: count_list_0_iff)
  also have "\<dots> = length hashes" by (rule sum_count_set) auto
  finally show ?thesis .
qed

lemma wp_CheckExisting:
  assumes "db_ok (w_db w)" "no_faults w"
  shows "wp (ChunkService_CheckExisting hashes) Q w =
    Q (Some (Inr (sql_existing_chunks hashes (w_db w),
      filter (\<lambda>h. h \<notin> ch_Hash ` set (chunks (w_db w))) hashes))) (next_tick w)"
proof -
  have "\<not> length hashes < length (sql_existing_chunks hashes (w_db w))"
    using length_existing_chunks [of "w_db w" hashes] assms(1) by (simp add: db_ok_def schema_okD)
  moreover have "filter (\<lambda>h. h \<notin> set (sql_existing_chunks hashes (w_db w))) hashes =
      filter (\<lambda>h. h \<notin> ch_Hash ` set (chunks (w_db w))) hashes"
    by (rule filter_cong) (auto simp: set_existing_chunks)
  ultimately show ?thesis
    using assms(2) by (simp add: ChunkService_CheckExisting_def wp_simps)
qed

end
