(* ===== verification/Commit_Store.thy ===== *)
theory Commit_Store
  imports Schema
begin

text \<open>
  \<^verbatim>\<open>internal/store/postgres/commit.go\<close>: commits, the snapshot of a commit and refs. Each
  store method is one SQL statement; the statement is a function of the tables
  (\<open>sql_...\<close>) and the method runs it as one call. The two recursive queries are the
  working-table iteration of PostgreSQL, proved to compute reachability.
\<close>

section \<open>Commits\<close>

definition sql_insert_commit :: "Commit \<Rightarrow> db \<Rightarrow> error + unit \<times> db" where
  "sql_insert_commit c d =
     (let rows = commits d @ [c] in
      if c_ID c \<in> c_ID ` set (commits d) then Inl (Violation ''commits_pkey'')
      else if c_ProjectID c \<notin> p_ID ` set (projects d)
        then Inl (Violation ''commits_project_id_fkey'')
      else if (case c_ParentID c of None \<Rightarrow> False | Some p \<Rightarrow> p \<notin> c_ID ` set rows)
        then Inl (Violation ''commits_parent_id_fkey'')
      else if c_AuthorID c \<notin> u_ID ` set (users d)
        then Inl (Violation ''commits_author_id_fkey'')
      else Inr ((), d\<lparr>commits := rows\<rparr>))"

definition CommitStore_Create :: "Commit \<Rightarrow> unit result io" where
  "CommitStore_Create c = db_exec (sql_insert_commit c)"

definition CommitStore_GetByID :: "string \<Rightarrow> Commit result io" where
  "CommitStore_GetByID cid = db_query (\<lambda>d.
     case row_at c_ID cid (commits d) of None \<Rightarrow> Inl ErrNoRows | Some c \<Rightarrow> Inr c)"

text \<open>\<open>ORDER BY created_at DESC LIMIT l OFFSET o\<close>; a negative bound is an SQL error.\<close>

definition CommitStore_ListByProject :: "string \<Rightarrow> int \<Rightarrow> int \<Rightarrow> Commit list result io" where
  "CommitStore_ListByProject projectID limit offset = db_query (\<lambda>d.
     if limit < 0 \<or> offset < 0 then Inl (Violation ''negative LIMIT or OFFSET'')
     else Inr (take (nat limit) (drop (nat offset)
       (sort_key (\<lambda>c. - c_CreatedAt c) (filter (\<lambda>c. c_ProjectID c = projectID) (commits d))))))"

section \<open>Snapshots\<close>

definition cf_overwrite :: "CommitFile \<Rightarrow> CommitFile \<Rightarrow> CommitFile" where
  "cf_overwrite old new = old\<lparr>cf_FileVersionID := cf_FileVersionID new\<rparr>"

text \<open>
  One statement inserts all rows; it may not meet the same key twice, and each row needs
  its commit, its file and its version.
\<close>

definition sql_upsert_commit_files :: "CommitFile list \<Rightarrow> db \<Rightarrow> error + unit \<times> db" where
  "sql_upsert_commit_files rows d =
     (if \<not> distinct (map cf_key rows) then Inl (Violation ''row affected a second time'')
      else if list_all (\<lambda>cf. cf_CommitID cf \<in> c_ID ` set (commits d)
          \<and> cf_FileID cf \<in> f_ID ` set (files d)
          \<and> cf_FileVersionID cf \<in> fv_ID ` set (file_versions d)) rows
        then Inr ((), d\<lparr>commit_files := fold (upsert_row cf_key cf_overwrite) rows (commit_files d)\<rparr>)
      else Inl (Violation ''commit_files_fkey''))"

definition CommitStore_SetCommitFiles :: "string \<Rightarrow> CommitFile list \<Rightarrow> unit result io" where
  "CommitStore_SetCommitFiles commitID entries =
     (if entries = [] then ret (Inr ())
      else db_exec (sql_upsert_commit_files
        (map (\<lambda>e. \<lparr>cf_CommitID = commitID, cf_FileID = cf_FileID e,
           cf_FileVersionID = cf_FileVersionID e\<rparr>) entries)))"

definition CommitStore_GetCommitSnapshot :: "string \<Rightarrow> CommitFile list result io" where
  "CommitStore_GetCommitSnapshot commitID = db_query (\<lambda>d.
     Inr (filter (\<lambda>cf. cf_CommitID cf = commitID) (commit_files d)))"

definition sql_snapshot_paths :: "string \<Rightarrow> db \<Rightarrow> MergeFileEntry list" where
  "sql_snapshot_paths commitID d = sort_key me_FilePath
     (concat (map (\<lambda>cf. map (\<lambda>f. \<lparr>me_FileID = cf_FileID cf, me_FilePath = f_Path f,
          me_FileVersionID = cf_FileVersionID cf\<rparr>)
        (filter (\<lambda>f. f_ID f = cf_FileID cf) (files d)))
      (filter (\<lambda>cf. cf_CommitID cf = commitID) (commit_files d))))"

definition CommitStore_GetCommitSnapshotWithPaths :: "string \<Rightarrow> MergeFileEntry list result io" where
  "CommitStore_GetCommitSnapshotWithPaths commitID = db_query (\<lambda>d. Inr (sql_snapshot_paths commitID d))"

section \<open>Recursive queries\<close>

text \<open>
  \<open>WITH RECURSIVE ... UNION\<close>: the rows of the last round are joined with \<open>commits\<close>; what is
  new after removing duplicates is the next round; an empty round ends the query.
\<close>

definition cte_round :: "Commit list \<Rightarrow> Commit list \<Rightarrow> Commit list \<Rightarrow> Commit list" where
  "cte_round rows work res =
     remdups (filter (\<lambda>c. c \<notin> set res)
       (filter (\<lambda>c. list_ex (\<lambda>a. c_ID c \<in> set (c_ParentIDs a)) work) rows))"

lemma set_cte_round:
  "set (cte_round rows work res) =
    {c \<in> set rows. c \<notin> set res \<and> (\<exists>a \<in> set work. c_ID c \<in> set (c_ParentIDs a))}"
  by (auto simp: cte_round_def list_ex_iff)

function cte_walk :: "Commit list \<Rightarrow> Commit list \<Rightarrow> Commit list \<Rightarrow> Commit list" where
  "cte_walk rows work res =
     (let new = cte_round rows work res in if new = [] then res else cte_walk rows new (res @ new))"
  by pat_completeness auto
termination
proof (relation "measure (\<lambda>(rows, work, res). card (set rows - set res))")
  fix rows work res new
  assume new: "new = cte_round rows work res" "new \<noteq> []"
  then obtain c where "c \<in> set new" by (metis list.set_intros(1) neq_Nil_conv)
  with new have "c \<in> set rows" "c \<notin> set res" by (simp_all add: set_cte_round)
  with \<open>c \<in> set new\<close> have "set rows - set (res @ new) \<subset> set rows - set res" by auto
  then show "((rows, new, res @ new), rows, work, res) \<in> measure (\<lambda>(rows, work, res). card (set rows - set res))"
    by (simp add: psubset_card_mono)
qed simp

declare cte_walk.simps [simp del]

definition ancestors_cte :: "Commit list \<Rightarrow> string \<Rightarrow> Commit list" where
  "ancestors_cte rows start =
     (let seed = remdups (filter (\<lambda>c. c_ID c = start) rows) in cte_walk rows seed seed)"

definition sql_is_ancestor :: "string \<Rightarrow> string \<Rightarrow> db \<Rightarrow> bool" where
  "sql_is_ancestor ancestorID descendantID d \<longleftrightarrow>
     list_ex (\<lambda>c. c_ID c = ancestorID) (ancestors_cte (commits d) descendantID)"

definition CommitStore_IsAncestor :: "string \<Rightarrow> string \<Rightarrow> bool result io" where
  "CommitStore_IsAncestor ancestorID descendantID =
     db_query (\<lambda>d. Inr (sql_is_ancestor ancestorID descendantID d))"

definition sql_merge_base :: "string \<Rightarrow> string \<Rightarrow> db \<Rightarrow> string option" where
  "sql_merge_base a b d =
     (let as = ancestors_cte (commits d) a; bs = ancestors_cte (commits d) b in
      case sort_key (\<lambda>c. - c_CreatedAt c)
          (filter (\<lambda>c. list_ex (\<lambda>c'. c_ID c' = c_ID c) bs) as) of
        [] \<Rightarrow> None
      | c # _ \<Rightarrow> Some (c_ID c))"

definition CommitStore_FindMergeBase :: "string \<Rightarrow> string \<Rightarrow> string result io" where
  "CommitStore_FindMergeBase a b = db_query (\<lambda>d.
     case sql_merge_base a b d of None \<Rightarrow> Inl ErrNoRows | Some c \<Rightarrow> Inr c)"

section \<open>Refs\<close>

definition CommitStore_GetRef :: "string \<Rightarrow> string \<Rightarrow> string \<Rightarrow> Ref result io" where
  "CommitStore_GetRef projectID name refType = db_query (\<lambda>d.
     case row_at r_key (projectID, name, refType) (refs d) of
       None \<Rightarrow> Inl ErrNoRows | Some r \<Rightarrow> Inr r)"

definition r_overwrite :: "Ref \<Rightarrow> Ref \<Rightarrow> Ref" where
  "r_overwrite old new = old\<lparr>r_CommitID := r_CommitID new, r_UpdatedAt := r_UpdatedAt new\<rparr>"

definition sql_upsert_ref :: "Ref \<Rightarrow> db \<Rightarrow> error + unit \<times> db" where
  "sql_upsert_ref r d =
     (if 256 < char_count (r_Name r) \<or> 32 < char_count (r_Type r) then Inl (Violation ''value too long'')
      else if r_ProjectID r \<notin> p_ID ` set (projects d) then Inl (Violation ''refs_project_id_fkey'')
      else if r_CommitID r \<notin> c_ID ` set (commits d) then Inl (Violation ''refs_commit_id_fkey'')
      else if r_key r \<notin> r_key ` set (refs d) \<and> r_ID r \<in> r_ID ` set (refs d)
        then Inl (Violation ''refs_pkey'')
      else Inr ((), d\<lparr>refs := upsert_row r_key r_overwrite r (refs d)\<rparr>))"

definition CommitStore_UpsertRef :: "Ref \<Rightarrow> unit result io" where
  "CommitStore_UpsertRef r = db_exec (sql_upsert_ref r)"

definition CommitStore_ListRefs :: "string \<Rightarrow> Ref list result io" where
  "CommitStore_ListRefs projectID = db_query (\<lambda>d.
     Inr (sort_key r_Name (filter (\<lambda>r. r_ProjectID r = projectID) (refs d))))"

lemmas commit_store_calls [wp_simps] = CommitStore_Create_def CommitStore_GetByID_def
  CommitStore_ListByProject_def CommitStore_GetCommitSnapshot_def
  CommitStore_GetCommitSnapshotWithPaths_def CommitStore_IsAncestor_def
  CommitStore_FindMergeBase_def CommitStore_GetRef_def CommitStore_UpsertRef_def
  CommitStore_ListRefs_def

section \<open>Reachability\<close>

text \<open>The edges of the commit graph: from a commit to a parent that is in the table.\<close>

definition parent_of :: "Commit list \<Rightarrow> (string \<times> string) set" where
  "parent_of rows = {(x, y). \<exists>c \<in> set rows. c_ID c = x \<and> y \<in> set (c_ParentIDs c) \<and> y \<in> c_ID ` set rows}"

lemma cte_walk_extends: "set res \<subseteq> set (cte_walk rows work res)"
proof (induction rows work res rule: cte_walk.induct)
  case (1 rows work res)
  then show ?case
    by (subst cte_walk.simps) (auto simp: Let_def)
qed

lemma cte_walk_closed:
  assumes "set work \<subseteq> set res"
    and "\<And>a c. a \<in> set res \<Longrightarrow> a \<notin> set work \<Longrightarrow> c \<in> set rows \<Longrightarrow> c_ID c \<in> set (c_ParentIDs a) \<Longrightarrow> c \<in> set res"
    and "a \<in> set (cte_walk rows work res)" "c \<in> set rows" "c_ID c \<in> set (c_ParentIDs a)"
  shows "c \<in> set (cte_walk rows work res)"
  using assms
proof (induction rows work res rule: cte_walk.induct)
  case (1 rows work res)
  let ?new = "cte_round rows work res"
  have covered: "c' \<in> set (res @ ?new)"
    if "a' \<in> set res" "c' \<in> set rows" "c_ID c' \<in> set (c_ParentIDs a')" for a' c'
    using that 1(3) by (cases "a' \<in> set work") (auto simp: set_cte_round)
  show ?case
  proof (cases "?new = []")
    case True
    then show ?thesis
      using covered 1(4-6) by (auto simp: cte_walk.simps [of rows work res])
  next
    case False
    then have walk: "cte_walk rows work res = cte_walk rows ?new (res @ ?new)"
      by (simp add: cte_walk.simps [of rows work res] Let_def)
    show ?thesis
      unfolding walk
      by (rule "1.IH" [OF refl False]) (use covered 1(4-6) walk in auto)
  qed
qed

lemma cte_walk_induct:
  assumes "set work \<subseteq> set res" "\<And>c. c \<in> set res \<Longrightarrow> Q c"
    and "\<And>a c. Q a \<Longrightarrow> c \<in> set rows \<Longrightarrow> c_ID c \<in> set (c_ParentIDs a) \<Longrightarrow> Q c"
    and "c \<in> set (cte_walk rows work res)"
  shows "Q c"
  using assms
proof (induction rows work res rule: cte_walk.induct)
  case (1 rows work res)
  let ?new = "cte_round rows work res"
  have new: "Q c'" if "c' \<in> set ?new" for c'
    using that 1(2-4) by (auto simp: set_cte_round)
  show ?case
  proof (cases "?new = []")
    case True
    then show ?thesis using 1(3,5) by (auto simp: cte_walk.simps [of rows work res])
  next
    case False
    then have "c \<in> set (cte_walk rows ?new (res @ ?new))"
      using 1(5) by (simp add: cte_walk.simps [of rows work res] Let_def)
    then show ?thesis
      using 1(3,4) new by (intro "1.IH" [OF refl False]) auto
  qed
qed

lemma ancestors_cte_rows: "set (ancestors_cte rows x) \<subseteq> set rows"
proof
  fix c
  assume "c \<in> set (ancestors_cte rows x)"
  then have "c \<in> set (cte_walk rows (remdups (filter (\<lambda>c. c_ID c = x) rows))
      (remdups (filter (\<lambda>c. c_ID c = x) rows)))"
    by (simp add: ancestors_cte_def Let_def)
  then show "c \<in> set rows"
    by (rule cte_walk_induct [where Q = "\<lambda>c. c \<in> set rows", rotated 3]) auto
qed

lemma ancestors_cte_sound:
  assumes "c \<in> set (ancestors_cte rows x)"
  shows "(x, c_ID c) \<in> (parent_of rows)\<^sup>*"
proof -
  let ?Q = "\<lambda>c. c \<in> set rows \<and> (x, c_ID c) \<in> (parent_of rows)\<^sup>*"
  let ?seed = "remdups (filter (\<lambda>c. c_ID c = x) rows)"
  have "c \<in> set (cte_walk rows ?seed ?seed)"
    using assms by (simp add: ancestors_cte_def Let_def)
  then have "?Q c"
  proof (rule cte_walk_induct [where Q = ?Q, rotated 3])
    fix a c
    assume a: "?Q a" and c: "c \<in> set rows" "c_ID c \<in> set (c_ParentIDs a)"
    then have "(c_ID a, c_ID c) \<in> parent_of rows" by (auto simp: parent_of_def)
    with a c show "?Q c" by (auto intro: rtrancl_into_rtrancl)
  qed auto
  then show ?thesis by simp
qed

lemma ancestors_cte_complete:
  assumes "distinct (map c_ID rows)" "x \<in> c_ID ` set rows" "(x, y) \<in> (parent_of rows)\<^sup>*"
  shows "y \<in> c_ID ` set (ancestors_cte rows x)"
  using assms(3)
proof (induction rule: rtrancl_induct)
  case base
  let ?seed = "remdups (filter (\<lambda>c. c_ID c = x) rows)"
  from assms(2) obtain c where "c \<in> set ?seed" "c_ID c = x" by auto
  then show ?case
    using cte_walk_extends [of ?seed rows ?seed] by (auto simp: ancestors_cte_def Let_def)
next
  case (step y z)
  let ?seed = "remdups (filter (\<lambda>c. c_ID c = x) rows)"
  from step.IH obtain a where a: "a \<in> set (cte_walk rows ?seed ?seed)" "c_ID a = y"
    by (auto simp: ancestors_cte_def Let_def)
  from step.hyps obtain a' c where c: "a' \<in> set rows" "c_ID a' = y" "c \<in> set rows" "c_ID c = z"
      "z \<in> set (c_ParentIDs a')"
    by (auto simp: parent_of_def)
  have "a \<in> set rows"
    using a ancestors_cte_rows [of rows x] by (auto simp: ancestors_cte_def Let_def)
  with a c assms(1) have "a = a'"
    by (auto simp: distinct_map inj_on_def)
  have "c \<in> set (cte_walk rows ?seed ?seed)"
    by (rule cte_walk_closed [where a = a]) (use a c \<open>a = a'\<close> in auto)
  with c show ?case by (auto simp: ancestors_cte_def Let_def)
qed

lemma ids_ancestors_cte:
  assumes "distinct (map c_ID rows)"
  shows "c_ID ` set (ancestors_cte rows x) =
    {y. x \<in> c_ID ` set rows \<and> (x, y) \<in> (parent_of rows)\<^sup>*}" (is "?L = ?R")
proof
  show "?R \<subseteq> ?L" using assms ancestors_cte_complete by blast
  show "?L \<subseteq> ?R"
  proof
    fix y
    assume "y \<in> ?L"
    then obtain c where c: "c \<in> set (ancestors_cte rows x)" "c_ID c = y" by auto
    have "filter (\<lambda>c. c_ID c = x) rows \<noteq> []"
    proof
      assume "filter (\<lambda>c. c_ID c = x) rows = []"
      moreover have "cte_walk rows [] [] = []"
        by (subst cte_walk.simps) (simp add: cte_round_def)
      ultimately show False using c by (simp add: ancestors_cte_def)
    qed
    then have "x \<in> c_ID ` set rows" by (auto simp: filter_empty_conv)
    with c show "y \<in> ?R" using ancestors_cte_sound by auto
  qed
qed

lemma sql_is_ancestor_iff:
  assumes "distinct (map c_ID (commits d))"
  shows "sql_is_ancestor a x d \<longleftrightarrow>
    x \<in> c_ID ` set (commits d) \<and> (x, a) \<in> (parent_of (commits d))\<^sup>*"
proof -
  have "sql_is_ancestor a x d \<longleftrightarrow> a \<in> c_ID ` set (ancestors_cte (commits d) x)"
    by (auto simp: sql_is_ancestor_def list_ex_iff)
  then show ?thesis using ids_ancestors_cte [OF assms] by simp
qed


section \<open>Effects of the statements\<close>

lemma sql_insert_commit_Inr:
  "sql_insert_commit c d = Inr (x, d') \<longleftrightarrow>
    d' = d\<lparr>commits := commits d @ [c]\<rparr> \<and> c_ID c \<notin> c_ID ` set (commits d)
    \<and> c_ProjectID c \<in> p_ID ` set (projects d) \<and> c_AuthorID c \<in> u_ID ` set (users d)
    \<and> (\<forall>p. c_ParentID c = Some p \<longrightarrow> p \<in> insert (c_ID c) (c_ID ` set (commits d)))"
  by (auto simp: sql_insert_commit_def Let_def split: if_splits option.splits)

lemma cf_key_overwrite [simp]: "cf_key (cf_overwrite old r) = cf_key old"
  by (simp add: cf_key_def cf_overwrite_def)

lemma cf_overwrite_eq: "cf_key old = cf_key r \<Longrightarrow> cf_overwrite old r = r"
  by (cases old; cases r) (simp add: cf_key_def cf_overwrite_def)

lemma sql_upsert_commit_files_Inr:
  "sql_upsert_commit_files rows d = Inr (x, d') \<longleftrightarrow>
    d' = d\<lparr>commit_files := fold (upsert_row cf_key cf_overwrite) rows (commit_files d)\<rparr>
    \<and> distinct (map cf_key rows)
    \<and> (\<forall>cf \<in> set rows. cf_CommitID cf \<in> c_ID ` set (commits d) \<and> cf_FileID cf \<in> f_ID ` set (files d)
        \<and> cf_FileVersionID cf \<in> fv_ID ` set (file_versions d))"
  by (auto simp: sql_upsert_commit_files_def list_all_iff split: if_splits)

lemma r_key_overwrite [simp]: "r_key (r_overwrite old r) = r_key old"
  by (simp add: r_key_def r_overwrite_def)

lemma sql_upsert_ref_Inr:
  "sql_upsert_ref r d = Inr (x, d') \<longleftrightarrow>
    d' = d\<lparr>refs := upsert_row r_key r_overwrite r (refs d)\<rparr>
    \<and> r_ProjectID r \<in> p_ID ` set (projects d) \<and> r_CommitID r \<in> c_ID ` set (commits d)
    \<and> char_count (r_Name r) \<le> 256 \<and> char_count (r_Type r) \<le> 32
    \<and> (r_key r \<in> r_key ` set (refs d) \<or> r_ID r \<notin> r_ID ` set (refs d))"
  by (auto simp: sql_upsert_ref_def split: if_splits)

section \<open>The tables as upserted tables\<close>

definition ref_combine :: "Ref option \<Rightarrow> Ref \<Rightarrow> Ref" where
  "ref_combine old r = (case old of None \<Rightarrow> r | Some row \<Rightarrow> r_overwrite row r)"

interpretation ref_table: overwrite_table
  "\<lambda>k d. row_at r_key k (refs d)" sql_upsert_ref r_key ref_combine r_CommitID
proof (unfold_locales, goal_cases)
  case (1 v d d' k)
  then show ?case
    by (auto simp: sql_upsert_ref_Inr row_at_upsert ref_combine_def)
next
  case (2 old v)
  show ?case by (simp add: ref_combine_def r_overwrite_def split: option.splits)
qed

definition cf_combine :: "CommitFile option \<Rightarrow> CommitFile \<Rightarrow> CommitFile" where
  "cf_combine old r = (case old of None \<Rightarrow> r | Some row \<Rightarrow> cf_overwrite row r)"

interpretation snapshot_table: overwrite_table
  "\<lambda>k d. row_at cf_key k (commit_files d)" "\<lambda>cf. sql_upsert_commit_files [cf]" cf_key cf_combine
  cf_FileVersionID
proof (unfold_locales, goal_cases)
  case (1 v d d' k)
  then show ?case
    by (auto simp: sql_upsert_commit_files_Inr row_at_upsert cf_combine_def)
next
  case (2 old v)
  show ?case by (simp add: cf_combine_def cf_overwrite_def split: option.splits)
qed

section \<open>Invariants\<close>

lemma insert_commit_ok:
  assumes "db_ok d" "sql_insert_commit c d = Inr (x, d')" "parent_compat c"
    and "set (c_ParentIDs c) \<subseteq> insert (c_ID c) (c_ID ` set (commits d))"
  shows "db_ok d'"
proof -
  have d': "d' = d\<lparr>commits := commits d @ [c]\<rparr>"
    and c: "c_ID c \<notin> c_ID ` set (commits d)" "c_ProjectID c \<in> p_ID ` set (projects d)"
      "c_AuthorID c \<in> u_ID ` set (users d)"
      "\<forall>p. c_ParentID c = Some p \<longrightarrow> p \<in> insert (c_ID c) (c_ID ` set (commits d))"
    using assms(2) [unfolded sql_insert_commit_Inr] by blast+
  have ok: "schema_ok d" "history_ok d" using assms(1) by (simp_all add: db_ok_def)
  then have parts: "commits_ok d" "refs_ok d" "versions_ok d" "snapshots_ok d"
    by (simp_all add: schema_ok_def)
  have "commits_ok d'" using parts(1) c unfolding d' commits_ok_def by auto
  moreover have "refs_ok d'" using parts(2) unfolding d' refs_ok_def by auto
  moreover have "versions_ok d'" using parts(3) unfolding d' versions_ok_def by auto
  moreover have "snapshots_ok d'" using parts(4) unfolding d' snapshots_ok_def by auto
  ultimately have "schema_ok d'"
    using ok(1) unfolding schema_ok_def by (simp add: d' table_ok_defs)
  moreover have "history_ok d'"
    using ok(2) assms(3,4) unfolding d' history_defs by (auto simp: parents_before_snoc)
  ultimately show ?thesis by (simp add: db_ok_def)
qed

lemma upsert_ref_ok:
  assumes "db_ok d" "sql_upsert_ref r d = Inr (x, d')"
    and "\<exists>c \<in> set (commits d). c_ID c = r_CommitID r \<and> c_ProjectID c = r_ProjectID r"
  shows "db_ok d'"
proof -
  let ?rows = "upsert_row r_key r_overwrite r (refs d)"
  have d': "d' = d\<lparr>refs := ?rows\<rparr>" and keys: "r_key r \<in> r_key ` set (refs d) \<or> r_ID r \<notin> r_ID ` set (refs d)"
    and proj: "r_ProjectID r \<in> p_ID ` set (projects d)"
    using assms(2) by (auto simp: sql_upsert_ref_Inr)
  have ok: "refs_ok d" "refs_local d"
    using assms(1) by (simp_all add: db_ok_def schema_ok_def history_ok_def)
  have "distinct (map r_key ?rows)"
    using ok(1) by (intro distinct_upsert) (simp_all add: refs_ok_def)
  moreover have "map r_ID ?rows =
      (if r_key r \<in> r_key ` set (refs d) then map r_ID (refs d) else map r_ID (refs d) @ [r_ID r])"
    by (auto simp: upsert_row_def r_overwrite_def)
  then have "distinct (map r_ID ?rows)"
    using ok(1) keys by (auto simp: refs_ok_def)
  moreover have local: "\<exists>c \<in> set (commits d). c_ID c = r_CommitID x \<and> c_ProjectID c = r_ProjectID x"
    if x: "x \<in> set ?rows" for x
  proof -
    from set_upsert [OF x] consider "x = r" | "x \<in> set (refs d)"
      | old where "old \<in> set (refs d)" "r_key old = r_key r" "x = r_overwrite old r"
      by blast
    then show ?thesis
    proof cases
      case 3
      then have "r_CommitID x = r_CommitID r" "r_ProjectID x = r_ProjectID r"
        by (simp_all add: r_overwrite_def r_key_def)
      then show ?thesis using assms(3) by simp
    qed (use assms(3) ok(2) in \<open>auto simp: refs_local_def\<close>)
  qed
  moreover have "r_ProjectID x \<in> p_ID ` set (projects d)" if x: "x \<in> set ?rows" for x
  proof -
    from set_upsert [OF x] have "x = r \<or> x \<in> set (refs d) \<or> r_ProjectID x = r_ProjectID r"
      by (auto simp: r_overwrite_def r_key_def)
    then show ?thesis using proj ok(1) by (auto simp: refs_ok_def)
  qed
  moreover have "char_count (r_Name x) \<le> 256 \<and> char_count (r_Type x) \<le> 32" if x: "x \<in> set ?rows" for x
  proof -
    from set_upsert [OF x] have "x = r \<or> x \<in> set (refs d) \<or> r_Name x = r_Name r \<and> r_Type x = r_Type r"
      by (auto simp: r_overwrite_def r_key_def)
    then show ?thesis using assms(2) ok(1) by (auto simp: refs_ok_def sql_upsert_ref_Inr)
  qed
  ultimately have "refs_ok d'" "refs_local d'"
    unfolding d' refs_ok_def refs_local_def by force+
  then show ?thesis
    using assms(1) unfolding d' db_ok_def schema_ok_def table_ok_defs history_defs by simp
qed

lemma upsert_commit_files_ok:
  assumes "db_ok d" "sql_upsert_commit_files rows d = Inr (x, d')"
    and "\<forall>cf \<in> set rows. \<exists>fv \<in> set (file_versions d). fv_ID fv = cf_FileVersionID cf \<and> fv_FileID fv = cf_FileID cf"
  shows "db_ok d'"
proof -
  let ?rows = "fold (upsert_row cf_key cf_overwrite) rows (commit_files d)"
  have d': "d' = d\<lparr>commit_files := ?rows\<rparr>" and fk: "\<forall>cf \<in> set rows. cf_CommitID cf \<in> c_ID ` set (commits d)
      \<and> cf_FileID cf \<in> f_ID ` set (files d) \<and> cf_FileVersionID cf \<in> fv_ID ` set (file_versions d)"
    using assms(2) by (auto simp: sql_upsert_commit_files_Inr)
  have ok: "snapshots_ok d" "snapshot_typed d"
    using assms(1) by (simp_all add: db_ok_def schema_ok_def history_ok_def)
  have mem: "cf \<in> set (commit_files d) \<or> cf \<in> set rows" if "cf \<in> set ?rows" for cf
    using that by (rule set_fold_upsert [rotated]) (rule cf_overwrite_eq)
  have "distinct (map cf_key ?rows)"
    using ok(1) by (intro distinct_fold_upsert) (simp_all add: snapshots_ok_def)
  then have "snapshots_ok d'" "snapshot_typed d'"
    using ok mem fk assms(3) unfolding d' snapshots_ok_def snapshot_typed_def
    by (auto simp: image_subset_iff) blast+
  then show ?thesis
    using assms(1) unfolding d' db_ok_def schema_ok_def table_ok_defs history_defs by simp
qed

text \<open>What a snapshot write does to the snapshots.\<close>

lemma snap_upsert_commit_files:
  assumes "sql_upsert_commit_files rows d = Inr (x, d')"
  shows "snap d' cid f =
    (case row_at cf_key (cid, f) rows of None \<Rightarrow> snap d cid f | Some cf \<Rightarrow> Some (cf_FileVersionID cf))"
proof -
  have "row_at cf_key (cid, f) (fold (upsert_row cf_key cf_overwrite) rows (commit_files d)) =
    (case row_at cf_key (cid, f) rows of None \<Rightarrow> row_at cf_key (cid, f) (commit_files d)
     | Some r \<Rightarrow> Some (case row_at cf_key (cid, f) (commit_files d) of None \<Rightarrow> r | Some old \<Rightarrow> cf_overwrite old r))"
    using assms by (intro row_at_fold_upsert) (simp_all add: sql_upsert_commit_files_Inr)
  then show ?thesis
    using assms by (auto simp: sql_upsert_commit_files_Inr snap_def cf_overwrite_def split: option.splits)
qed

section \<open>The merge base\<close>

definition common_ancestor :: "Commit list \<Rightarrow> string \<Rightarrow> string \<Rightarrow> string \<Rightarrow> bool" where
  "common_ancestor rows a b y \<longleftrightarrow> a \<in> c_ID ` set rows \<and> b \<in> c_ID ` set rows
     \<and> (a, y) \<in> (parent_of rows)\<^sup>* \<and> (b, y) \<in> (parent_of rows)\<^sup>*"

lemma merge_base_candidates:
  assumes "distinct (map c_ID (commits d))"
  shows "c_ID ` set (filter (\<lambda>c. list_ex (\<lambda>c'. c_ID c' = c_ID c) (ancestors_cte (commits d) b))
      (ancestors_cte (commits d) a)) = {y. common_ancestor (commits d) a b y}"
proof -
  have "c_ID ` set (filter (\<lambda>c. list_ex (\<lambda>c'. c_ID c' = c_ID c) (ancestors_cte (commits d) b))
      (ancestors_cte (commits d) a)) =
    c_ID ` set (ancestors_cte (commits d) a) \<inter> c_ID ` set (ancestors_cte (commits d) b)"
  proof -
    have "list_ex (\<lambda>c'. c_ID c' = c_ID c) cs \<longleftrightarrow> c_ID c \<in> c_ID ` set cs" for c cs
      by (induction cs) auto
    then show ?thesis by auto
  qed
  then show ?thesis
    using ids_ancestors_cte [OF assms] by (auto simp: common_ancestor_def)
qed

lemma sql_merge_base_None:
  assumes "distinct (map c_ID (commits d))"
  shows "sql_merge_base a b d = None \<longleftrightarrow> (\<forall>y. \<not> common_ancestor (commits d) a b y)"
proof -
  let ?xs = "filter (\<lambda>c. list_ex (\<lambda>c'. c_ID c' = c_ID c) (ancestors_cte (commits d) b))
      (ancestors_cte (commits d) a)"
  have "sql_merge_base a b d = None \<longleftrightarrow> sort_key (\<lambda>c. - c_CreatedAt c) ?xs = []"
    by (simp add: sql_merge_base_def Let_def split: list.splits)
  also have "\<dots> \<longleftrightarrow> c_ID ` set ?xs = {}"
    by (metis (no_types, lifting) image_is_empty set_empty set_sort)
  finally show ?thesis using merge_base_candidates [OF assms] by auto
qed

lemma sql_merge_base_Some:
  assumes "distinct (map c_ID (commits d))" "sql_merge_base a b d = Some m"
  shows "\<exists>c \<in> set (commits d). c_ID c = m \<and> common_ancestor (commits d) a b m \<and>
    (\<forall>c' \<in> set (commits d). common_ancestor (commits d) a b (c_ID c') \<longrightarrow> c_CreatedAt c' \<le> c_CreatedAt c)"
proof -
  let ?xs = "filter (\<lambda>c. list_ex (\<lambda>c'. c_ID c' = c_ID c) (ancestors_cte (commits d) b))
      (ancestors_cte (commits d) a)"
  from assms(2) obtain c cs where sorted: "sort_key (\<lambda>c. - c_CreatedAt c) ?xs = c # cs" "c_ID c = m"
    by (auto simp: sql_merge_base_def Let_def split: list.splits)
  have set_xs: "set (c # cs) = set ?xs" by (metis set_sort sorted(1))
  have "sorted (map (\<lambda>c. - c_CreatedAt c) (c # cs))"
    using sorted(1) by (metis sorted_sort_key)
  then have latest: "\<forall>c' \<in> set (c # cs). c_CreatedAt c' \<le> c_CreatedAt c" by auto
  have rows: "set ?xs \<subseteq> set (commits d)" using ancestors_cte_rows [of "commits d" a] by auto
  have "c \<in> set ?xs" using set_xs by auto
  then have c: "c \<in> set (commits d)" "common_ancestor (commits d) a b m"
    using rows merge_base_candidates [OF assms(1), of b a] sorted(2) by blast+
  have "c_CreatedAt c' \<le> c_CreatedAt c"
    if c': "c' \<in> set (commits d)" "common_ancestor (commits d) a b (c_ID c')" for c'
  proof -
    from c'(2) obtain x where x: "x \<in> set ?xs" "c_ID x = c_ID c'"
      using merge_base_candidates [OF assms(1), of b a] by (metis (mono_tags, lifting) imageE mem_Collect_eq)
    with rows c'(1) assms(1) have "x = c'" by (auto simp: distinct_map inj_on_def)
    with x set_xs latest show ?thesis by auto
  qed
  with c sorted(2) show ?thesis by blast
qed

end
