(* ===== verification/File_Store.thy ===== *)
theory File_Store
  imports Schema
begin

text \<open>
  \<^verbatim>\<open>internal/store/postgres/file.go\<close>: the file rows of a project and the versions of a
  file that a commit wrote.
\<close>

section \<open>Statements and methods\<close>

text \<open>\<open>ON CONFLICT (project_id, path) DO UPDATE SET id = files.id\<close>: the old row is kept.\<close>

definition sql_upsert_file :: "File \<Rightarrow> db \<Rightarrow> error + unit \<times> db" where
  "sql_upsert_file f d =
     (if f_ProjectID f \<notin> p_ID ` set (projects d) then Inl (Violation ''files_project_id_fkey'')
      else if f_key f \<notin> f_key ` set (files d) \<and> f_ID f \<in> f_ID ` set (files d)
        then Inl (Violation ''files_pkey'')
      else Inr ((), d\<lparr>files := upsert_row f_key keep_row f (files d)\<rparr>))"

definition FileStore_Upsert :: "File \<Rightarrow> unit result io" where
  "FileStore_Upsert f = db_exec (sql_upsert_file f)"

definition FileStore_GetByPath :: "string \<Rightarrow> string \<Rightarrow> File result io" where
  "FileStore_GetByPath projectID path = db_query (\<lambda>d.
     case row_at f_key (projectID, path) (files d) of None \<Rightarrow> Inl ErrNoRows | Some f \<Rightarrow> Inr f)"

definition sql_insert_version :: "FileVersion \<Rightarrow> db \<Rightarrow> error + unit \<times> db" where
  "sql_insert_version fv d =
     (if fv_ChunkHashes fv = None then Inl (Violation ''null value in column chunk_hashes'')
      else if fv_ID fv \<in> fv_ID ` set (file_versions d) then Inl (Violation ''file_versions_pkey'')
      else if fv_FileID fv \<notin> f_ID ` set (files d) then Inl (Violation ''file_versions_file_id_fkey'')
      else if fv_CommitID fv \<notin> c_ID ` set (commits d)
        then Inl (Violation ''file_versions_commit_id_fkey'')
      else Inr ((), d\<lparr>file_versions := file_versions d @ [fv]\<rparr>))"

definition FileStore_CreateVersion :: "FileVersion \<Rightarrow> unit result io" where
  "FileStore_CreateVersion fv = db_exec (sql_insert_version fv)"

definition sql_versions_by_commit :: "string \<Rightarrow> db \<Rightarrow> FileVersion list" where
  "sql_versions_by_commit commitID d = filter (\<lambda>fv. fv_CommitID fv = commitID) (file_versions d)"

definition FileStore_GetVersionsByCommit :: "string \<Rightarrow> FileVersion list result io" where
  "FileStore_GetVersionsByCommit commitID = db_query (\<lambda>d. Inr (sql_versions_by_commit commitID d))"

definition sql_list_file_tree :: "string \<Rightarrow> string \<Rightarrow> db \<Rightarrow> File list" where
  "sql_list_file_tree projectID commitID d = sort_key f_Path (remdups
     (filter (\<lambda>f. f_ProjectID f = projectID
        \<and> list_ex (\<lambda>fv. fv_FileID fv = f_ID f \<and> fv_CommitID fv = commitID) (file_versions d))
      (files d)))"

definition FileStore_ListFileTree :: "string \<Rightarrow> string \<Rightarrow> File list result io" where
  "FileStore_ListFileTree projectID commitID =
     db_query (\<lambda>d. Inr (sql_list_file_tree projectID commitID d))"

lemmas file_store_calls [wp_simps] = FileStore_Upsert_def FileStore_GetByPath_def
  FileStore_CreateVersion_def FileStore_GetVersionsByCommit_def FileStore_ListFileTree_def

section \<open>Effects of the statements\<close>

lemma sql_upsert_file_Inr:
  "sql_upsert_file f d = Inr (x, d') \<longleftrightarrow>
    d' = d\<lparr>files := upsert_row f_key keep_row f (files d)\<rparr> \<and> f_ProjectID f \<in> p_ID ` set (projects d)
    \<and> (f_key f \<in> f_key ` set (files d) \<or> f_ID f \<notin> f_ID ` set (files d))"
  by (auto simp: sql_upsert_file_def split: if_splits)

lemma sql_insert_version_Inr:
  "sql_insert_version fv d = Inr (x, d') \<longleftrightarrow>
    d' = d\<lparr>file_versions := file_versions d @ [fv]\<rparr> \<and> fv_ChunkHashes fv \<noteq> None
    \<and> fv_ID fv \<notin> fv_ID ` set (file_versions d) \<and> fv_FileID fv \<in> f_ID ` set (files d)
    \<and> fv_CommitID fv \<in> c_ID ` set (commits d)"
  by (auto simp: sql_insert_version_def split: if_splits)

definition file_combine :: "File option \<Rightarrow> File \<Rightarrow> File" where
  "file_combine old f = (case old of None \<Rightarrow> f | Some row \<Rightarrow> row)"

interpretation file_table: insert_ignore_table
  "\<lambda>k d. row_at f_key k (files d)" sql_upsert_file f_key file_combine
proof (unfold_locales, goal_cases)
  case (1 v d d' k)
  then show ?case
    by (auto simp: sql_upsert_file_Inr row_at_upsert file_combine_def split: option.splits)
next
  case (2 old v)
  show ?case by (simp add: file_combine_def)
qed

section \<open>Invariants\<close>

lemma upsert_file_ok:
  assumes "db_ok d" "sql_upsert_file f d = Inr (x, d')"
  shows "db_ok d'"
proof -
  have d': "d' = d\<lparr>files := upsert_row f_key keep_row f (files d)\<rparr>"
    and f: "f_ProjectID f \<in> p_ID ` set (projects d)"
      "f_key f \<in> f_key ` set (files d) \<or> f_ID f \<notin> f_ID ` set (files d)"
    using assms(2) [unfolded sql_upsert_file_Inr] by blast+
  have ok: "schema_ok d" "history_ok d" using assms(1) by (simp_all add: db_ok_def)
  then have parts: "files_ok d" "versions_ok d" "snapshots_ok d"
    by (simp_all add: schema_ok_def)
  have "files_ok d'" using parts(1) f unfolding d' files_ok_def by (auto simp: upsert_keep_row)
  moreover have "versions_ok d'"
    using parts(2) unfolding d' versions_ok_def by (auto simp: upsert_keep_row)
  moreover have "snapshots_ok d'"
    using parts(3) unfolding d' snapshots_ok_def by (auto simp: upsert_keep_row)
  ultimately have "schema_ok d'"
    using ok(1) unfolding schema_ok_def by (simp add: d' table_ok_defs)
  moreover have "history_ok d'"
    using ok(2) unfolding d' history_defs by simp
  ultimately show ?thesis by (simp add: db_ok_def)
qed

lemma insert_version_ok:
  assumes "db_ok d" "sql_insert_version fv d = Inr (x, d')" "fv_ID fv \<noteq> ''''"
  shows "db_ok d'"
proof -
  have d': "d' = d\<lparr>file_versions := file_versions d @ [fv]\<rparr>"
    and fv: "fv_ChunkHashes fv \<noteq> None" "fv_ID fv \<notin> fv_ID ` set (file_versions d)"
      "fv_FileID fv \<in> f_ID ` set (files d)" "fv_CommitID fv \<in> c_ID ` set (commits d)"
    using assms(2) [unfolded sql_insert_version_Inr] by blast+
  have ok: "schema_ok d" "history_ok d" using assms(1) by (simp_all add: db_ok_def)
  then have parts: "versions_ok d" "snapshots_ok d"
    by (simp_all add: schema_ok_def)
  have "versions_ok d'" using parts(1) fv unfolding d' versions_ok_def by auto
  moreover have "snapshots_ok d'" using parts(2) unfolding d' snapshots_ok_def by auto
  ultimately have "schema_ok d'"
    using ok(1) unfolding schema_ok_def by (simp add: d' table_ok_defs)
  moreover have "history_ok d'"
    using ok(2) assms(3) unfolding d' history_defs by auto
  ultimately show ?thesis by (simp add: db_ok_def)
qed

end
