(* ===== verification/Version_Service.thy ===== *)
theory Version_Service
  imports Commit_Store File_Store Chunk_Store
begin

text \<open>
  \<^verbatim>\<open>internal/service/version.go\<close>: creating a commit, comparing two commits, and reading
  commits, refs and file trees.
\<close>

section \<open>Creating a commit\<close>

record CommitFileEntry =
  ce_Path :: string
  ce_TotalSize :: int
  ce_ChunkHashes :: "string list option"

record CommitRequest =
  cr_ProjectID :: string
  cr_ParentCommitID :: "string option"
  cr_AuthorID :: string
  cr_Message :: string
  cr_Ref :: string
  cr_Files :: "CommitFileEntry list"

record CommitResult =
  cres_CommitID :: string
  cres_Ref :: string
  cres_FilesUpdated :: nat
  cres_TotalNewChunks :: int

text \<open>The optimistic check that the parent is the head of the ref.\<close>

definition verify_parent :: "CommitRequest \<Rightarrow> unit result io" where
  "verify_parent req =
     (if cr_Ref req \<noteq> '''' then do {
        r \<leftarrow> CommitStore_GetRef (cr_ProjectID req) (cr_Ref req) ''branch'';
        case r of
          Inr ref \<Rightarrow>
            if cr_ParentCommitID req = None \<or> cr_ParentCommitID req \<noteq> Some (r_CommitID ref)
            then ret (Inl ErrCommitConflict) else ret (Inr ())
        | Inl _ \<Rightarrow>
            if cr_ParentCommitID req \<noteq> None then ret (Inl ErrCommitConflict) else ret (Inr ())
      } else ret (Inr ()))"

text \<open>
  The snapshot the commit starts from: file to snapshot row. A read error is ignored, as
  the code does (\<open>if err == nil\<close>).
\<close>

definition parent_snapshot :: "CommitRequest \<Rightarrow> (string, CommitFile) gomap io" where
  "parent_snapshot req = (case cr_ParentCommitID req of
     None \<Rightarrow> ret []
   | Some p \<Rightarrow> do {
       r \<leftarrow> CommitStore_GetCommitSnapshot p;
       case r of
         Inr rows \<Rightarrow> ret (gomap_of cf_FileID (\<lambda>cf. cf) rows [])
       | Inl _ \<Rightarrow> ret []
     })"

text \<open>The loop over \<open>req.Files\<close>: the snapshot map and the chunk hashes so far.\<close>

primrec commit_files_loop ::
    "string \<Rightarrow> string \<Rightarrow> int \<Rightarrow> CommitFileEntry list \<Rightarrow> (string, CommitFile) gomap \<Rightarrow> string list
      \<Rightarrow> ((string, CommitFile) gomap \<times> string list) result io" where
  "commit_files_loop projectID commitID now [] snapshotMap allChunkHashes =
     ret (Inr (snapshotMap, allChunkHashes))"
| "commit_files_loop projectID commitID now (f # fs) snapshotMap allChunkHashes = do {
     fileID \<leftarrow> generateUUID;
     go_try (FileStore_Upsert \<lparr>f_ID = fileID, f_ProjectID = projectID, f_Path = ce_Path f, f_CreatedAt = now\<rparr>)
       (Wrap (''upsert file '' @ go_quote (ce_Path f))) (\<lambda>_.
     go_try (FileStore_GetByPath projectID (ce_Path f)) (Wrap (''get file '' @ go_quote (ce_Path f))) (\<lambda>existing. do {
       versionID \<leftarrow> generateUUID;
       go_try (FileStore_CreateVersion \<lparr>fv_ID = versionID, fv_FileID = f_ID existing,
           fv_CommitID = commitID, fv_TotalSize = ce_TotalSize f,
           fv_ChunkCount = int (length (slice (ce_ChunkHashes f))),
           fv_ChunkHashes = ce_ChunkHashes f, fv_CreatedAt = now\<rparr>)
         (Wrap (''create file version for '' @ go_quote (ce_Path f))) (\<lambda>_.
       commit_files_loop projectID commitID now fs
         (AList.update (f_ID existing) \<lparr>cf_CommitID = commitID, cf_FileID = f_ID existing,
            cf_FileVersionID = versionID\<rparr> snapshotMap)
         (allChunkHashes @ slice (ce_ChunkHashes f)))
     }))
   }"

text \<open>The rows of the map in the order \<open>range\<close> visits them, each moved to the new commit.\<close>

definition snapshot_rows :: "string \<Rightarrow> (string, CommitFile) gomap \<Rightarrow> string list \<Rightarrow> CommitFile list" where
  "snapshot_rows commitID m ks =
     map (\<lambda>k. (the (map_of m k))\<lparr>cf_CommitID := commitID\<rparr>) ks"

text \<open>The reference counts of all chunks that were listed.\<close>

definition count_chunks :: "string list \<Rightarrow> unit result io" where
  "count_chunks allChunkHashes =
     (if 0 < length allChunkHashes then ChunkStore_IncrementRefCount allChunkHashes else ret (Inr ()))"

definition advance_ref :: "CommitRequest \<Rightarrow> string \<Rightarrow> int \<Rightarrow> unit result io" where
  "advance_ref req commitID now =
     (if cr_Ref req \<noteq> '''' then do {
        refID \<leftarrow> generateUUID;
        CommitStore_UpsertRef \<lparr>r_ID = refID, r_ProjectID = cr_ProjectID req, r_Name = cr_Ref req,
          r_Type = ''branch'', r_CommitID = commitID, r_UpdatedAt = now\<rparr>
      } else ret (Inr ()))"

text \<open>Snapshot, reference counts and the ref, once all versions are in.\<close>

definition commit_finish ::
    "CommitRequest \<Rightarrow> string \<Rightarrow> int \<Rightarrow> (string, CommitFile) gomap \<Rightarrow> string list \<Rightarrow> CommitResult result io" where
  "commit_finish req commitID now snapshotMap allChunkHashes = do {
     ks \<leftarrow> go_range (map fst snapshotMap);
     go_try (CommitStore_SetCommitFiles commitID (snapshot_rows commitID snapshotMap ks))
       (Wrap ''write commit snapshot'') (\<lambda>_.
     go_try (count_chunks allChunkHashes) (Wrap ''increment chunk ref counts'') (\<lambda>_.
     go_try (advance_ref req commitID now) (Wrap (''update ref '' @ go_quote (cr_Ref req))) (\<lambda>_.
     ret (Inr \<lparr>cres_CommitID = commitID, cres_Ref = cr_Ref req,
       cres_FilesUpdated = length (cr_Files req), cres_TotalNewChunks = 0\<rparr>))))
   }"

text \<open>Everything after the parent check.\<close>

definition commit_write :: "CommitRequest \<Rightarrow> CommitResult result io" where
  "commit_write req = do {
     now \<leftarrow> time_Now;
     commitID \<leftarrow> generateUUID;
     let parentIDs = (case cr_ParentCommitID req of None \<Rightarrow> [] | Some p \<Rightarrow> [p]);
     go_try (CommitStore_Create \<lparr>c_ID = commitID, c_ProjectID = cr_ProjectID req,
         c_ParentID = cr_ParentCommitID req, c_ParentIDs = parentIDs,
         c_AuthorID = cr_AuthorID req, c_Message = cr_Message req, c_CreatedAt = now\<rparr>)
       (Wrap ''create commit'') (\<lambda>_. do {
     snapshotMap \<leftarrow> parent_snapshot req;
     go_try (commit_files_loop (cr_ProjectID req) commitID now (cr_Files req) snapshotMap [])
       (\<lambda>e. e) (\<lambda>(m, hashes). commit_finish req commitID now m hashes)
     })
   }"

definition CreateCommit :: "CommitRequest \<Rightarrow> CommitResult result io" where
  "CreateCommit req = go_try (verify_parent req) (\<lambda>e. e) (\<lambda>_. commit_write req)"

section \<open>Comparing two commits\<close>

datatype DiffAction = Added | Modified

record DiffFileEntry =
  df_Path :: string
  df_Action :: DiffAction
  df_NeededChunks :: "string list"
  df_FullManifest :: "string list"

record DiffResult =
  dr_ChangedFiles :: "DiffFileEntry list"
  dr_TotalDownloadSize :: int

definition have_chunks :: "FileVersion list \<Rightarrow> string list" where
  "have_chunks fromVersions = concat (map (\<lambda>fv. slice (fv_ChunkHashes fv)) fromVersions)"

text \<open>One file of the loop over the versions of the target commit; \<open>None\<close> is \<open>continue\<close>.\<close>

definition diff_entry :: "bool \<Rightarrow> string list \<Rightarrow> FileVersion \<Rightarrow> DiffFileEntry option" where
  "diff_entry fresh haveChunks fv =
     (let manifest = slice (fv_ChunkHashes fv);
          needed = filter (\<lambda>h. h \<notin> set haveChunks) manifest;
          entry = \<lambda>act. \<lparr>df_Path = fv_FileID fv, df_Action = act, df_NeededChunks = needed,
            df_FullManifest = manifest\<rparr>
      in if fresh then Some (entry Added)
         else if 0 < length needed then Some (entry Modified)
         else None)"

definition diff_of :: "bool \<Rightarrow> FileVersion list \<Rightarrow> FileVersion list \<Rightarrow> DiffResult" where
  "diff_of fresh fromVersions toVersions =
     \<lparr>dr_ChangedFiles = List.map_filter (diff_entry fresh (have_chunks fromVersions)) toVersions,
      dr_TotalDownloadSize = 0\<rparr>"

definition ComputeDiff :: "string option \<Rightarrow> string \<Rightarrow> DiffResult result io" where
  "ComputeDiff fromCommitID toCommitID =
     go_try (FileStore_GetVersionsByCommit toCommitID) (Wrap ''get target versions'') (\<lambda>toVersions.
     case fromCommitID of
       None \<Rightarrow> ret (Inr (diff_of True [] toVersions))
     | Some c \<Rightarrow>
         go_try (FileStore_GetVersionsByCommit c) (Wrap ''get source versions'') (\<lambda>fromVersions.
         ret (Inr (diff_of False fromVersions toVersions))))"

section \<open>Reading\<close>

definition VersionService_GetCommit :: "string \<Rightarrow> Commit result io" where
  "VersionService_GetCommit cid =
     go_try (CommitStore_GetByID cid) (\<lambda>_. ErrCommitNotFound) (\<lambda>c. ret (Inr c))"

definition clamp_limit :: "int \<Rightarrow> int" where
  "clamp_limit limit =
     (let limit1 = (if limit \<le> 0 then 50 else limit) in if 200 < limit1 then 200 else limit1)"

definition VersionService_ListCommits :: "string \<Rightarrow> int \<Rightarrow> int \<Rightarrow> Commit list result io" where
  "VersionService_ListCommits projectID limit offset =
     CommitStore_ListByProject projectID (clamp_limit limit) offset"

definition VersionService_ListRefs :: "string \<Rightarrow> Ref list result io" where
  "VersionService_ListRefs projectID = CommitStore_ListRefs projectID"

definition VersionService_GetFileTree :: "string \<Rightarrow> string \<Rightarrow> File list result io" where
  "VersionService_GetFileTree projectID commitID = FileStore_ListFileTree projectID commitID"

definition VersionService_GetCommitFiles :: "string \<Rightarrow> FileVersion list result io" where
  "VersionService_GetCommitFiles commitID = FileStore_GetVersionsByCommit commitID"

definition ResolveRef :: "string \<Rightarrow> string \<Rightarrow> Ref result io" where
  "ResolveRef projectID refName = do {
     r \<leftarrow> CommitStore_GetRef projectID refName ''branch'';
     case r of
       Inr ref \<Rightarrow> ret (Inr ref)
     | Inl _ \<Rightarrow>
         go_try (CommitStore_GetRef projectID refName ''tag'') (\<lambda>_. ErrRefNotFound) (\<lambda>ref. ret (Inr ref))
   }"

end
