(* ===== verification/Lock_Store.thy ===== *)
theory Lock_Store
  imports Schema
begin

text \<open>\<^verbatim>\<open>internal/store/postgres/lock.go\<close>: the lock rows of a project.\<close>

section \<open>Statements and methods\<close>

text \<open>\<open>INNER JOIN users u ON u.id = l.locked_by\<close> fills in the username.\<close>

definition lock_join :: "db \<Rightarrow> Lock list \<Rightarrow> Lock list" where
  "lock_join d ls = concat (map (\<lambda>l. map (\<lambda>u. l\<lparr>l_LockedByUsername := u_Username u\<rparr>)
     (filter (\<lambda>u. u_ID u = l_LockedBy l) (users d))) ls)"

definition sql_lock_by_path :: "string \<Rightarrow> string \<Rightarrow> db \<Rightarrow> Lock option" where
  "sql_lock_by_path projectID filePath d =
     (case lock_join d (filter (\<lambda>l. l_ProjectID l = projectID \<and> l_FilePath l = filePath) (locks d)) of
        [] \<Rightarrow> None | l # _ \<Rightarrow> Some l)"

text \<open>No row is not an error here: the method returns nil for both.\<close>

definition LockStore_GetByPath :: "string \<Rightarrow> string \<Rightarrow> Lock option result io" where
  "LockStore_GetByPath projectID filePath = db_query (\<lambda>d. Inr (sql_lock_by_path projectID filePath d))"

text \<open>\<open>ON CONFLICT (project_id, file_path) DO NOTHING\<close>\<close>

definition sql_insert_lock :: "Lock \<Rightarrow> db \<Rightarrow> error + unit \<times> db" where
  "sql_insert_lock l d =
     (if 256 < char_count (l_Branch l) then Inl (Violation ''value too long'')
      else if l_key l \<in> l_key ` set (locks d) then Inr ((), d)
      else if l_ID l \<in> l_ID ` set (locks d) then Inl (Violation ''locks_pkey'')
      else if l_ProjectID l \<notin> p_ID ` set (projects d) then Inl (Violation ''locks_project_id_fkey'')
      else if l_LockedBy l \<notin> u_ID ` set (users d) then Inl (Violation ''locks_locked_by_fkey'')
      else Inr ((), d\<lparr>locks := locks d @ [l\<lparr>l_LockedByUsername := ''''\<rparr>]\<rparr>))"

definition LockStore_Acquire_insert :: "Lock \<Rightarrow> unit result io" where
  "LockStore_Acquire_insert l = db_exec (sql_insert_lock l)"

definition LockStore_Acquire :: "Lock \<Rightarrow> unit result io" where
  "LockStore_Acquire l = do {
     existing \<leftarrow> LockStore_GetByPath (l_ProjectID l) (l_FilePath l);
     case existing of
       Inl _ \<Rightarrow> LockStore_Acquire_insert l
     | Inr None \<Rightarrow> LockStore_Acquire_insert l
     | Inr (Some e) \<Rightarrow>
         if l_LockedBy e = l_LockedBy l then ret (Inr ())
         else ret (Inl (NewError ''file is locked by another user''))
   }"

text \<open>A delete returns the number of affected rows.\<close>

definition sql_delete_locks :: "(Lock \<Rightarrow> bool) \<Rightarrow> db \<Rightarrow> error + nat \<times> db" where
  "sql_delete_locks P d =
     Inr (length (filter P (locks d)), d\<lparr>locks := filter (\<lambda>l. \<not> P l) (locks d)\<rparr>)"

definition LockStore_Release :: "string \<Rightarrow> string \<Rightarrow> string \<Rightarrow> bool \<Rightarrow> unit result io" where
  "LockStore_Release projectID filePath userID force =
     (if force
      then go_try (db_exec (sql_delete_locks (\<lambda>l. l_ProjectID l = projectID \<and> l_FilePath l = filePath)))
        (\<lambda>e. e) (\<lambda>_. ret (Inr ()))
      else go_try (db_exec (sql_delete_locks (\<lambda>l. l_ProjectID l = projectID \<and> l_FilePath l = filePath
            \<and> l_LockedBy l = userID)))
        (\<lambda>e. e)
        (\<lambda>affected. if affected = 0
           then ret (Inl (NewError ''lock not found or owned by another user''))
           else ret (Inr ())))"

definition LockStore_ListByProject :: "string \<Rightarrow> Lock list result io" where
  "LockStore_ListByProject projectID = db_query (\<lambda>d.
     Inr (sort_key l_FilePath (lock_join d (filter (\<lambda>l. l_ProjectID l = projectID) (locks d)))))"

definition sql_check_paths :: "string \<Rightarrow> string list \<Rightarrow> string \<Rightarrow> db \<Rightarrow> Lock list" where
  "sql_check_paths projectID paths userID d =
     lock_join d (filter (\<lambda>l. l_ProjectID l = projectID \<and> l_FilePath l \<in> set paths
       \<and> l_LockedBy l \<noteq> userID) (locks d))"

definition LockStore_CheckPaths :: "string \<Rightarrow> string list \<Rightarrow> string \<Rightarrow> Lock list result io" where
  "LockStore_CheckPaths projectID paths userID =
     db_query (\<lambda>d. Inr (sql_check_paths projectID paths userID d))"

lemmas lock_store_calls [wp_simps] = LockStore_GetByPath_def LockStore_Acquire_insert_def
  LockStore_ListByProject_def LockStore_CheckPaths_def

section \<open>Effects of the statements\<close>

definition holder :: "db \<Rightarrow> string \<Rightarrow> string \<Rightarrow> string option" where
  "holder d projectID filePath =
     map_option l_LockedBy (row_at l_key (projectID, filePath) (locks d))"

text \<open>A lock row as the queries return it, with the name of its holder.\<close>

definition lock_row :: "db \<Rightarrow> Lock \<Rightarrow> Lock" where
  "lock_row d l = l\<lparr>l_LockedByUsername :=
     (case row_at u_ID (l_LockedBy l) (users d) of None \<Rightarrow> '''' | Some u \<Rightarrow> u_Username u)\<rparr>"

lemma lock_row_simps [simp]:
  "l_ID (lock_row d l) = l_ID l" "l_ProjectID (lock_row d l) = l_ProjectID l"
  "l_FilePath (lock_row d l) = l_FilePath l" "l_LockedBy (lock_row d l) = l_LockedBy l"
  "l_Branch (lock_row d l) = l_Branch l" "l_LockedAt (lock_row d l) = l_LockedAt l"
  by (simp_all add: lock_row_def)

lemma lock_join_map:
  assumes "schema_ok d" "set ls \<subseteq> set (locks d)"
  shows "lock_join d ls = map (lock_row d) ls"
  using assms(2)
proof (induction ls)
  case Nil
  then show ?case by (simp add: lock_join_def)
next
  case (Cons l ls)
  have "l_LockedBy l \<in> u_ID ` set (users d)"
    using Cons.prems assms(1) by (auto simp: schema_ok_def locks_ok_def)
  then obtain u where u: "row_at u_ID (l_LockedBy l) (users d) = Some u"
    by (metis not_Some_eq row_at_None)
  have "filter (\<lambda>u. u_ID u = l_LockedBy l) (users d) = [u]"
    using filter_key [OF schema_okD(10) [OF assms(1)]] u by simp
  with u Cons show ?case by (simp add: lock_join_def lock_row_def)
qed

lemma sql_lock_by_path_row:
  assumes "schema_ok d"
  shows "sql_lock_by_path p f d = map_option (lock_row d) (row_at l_key (p, f) (locks d))"
proof -
  have "filter (\<lambda>l. l_ProjectID l = p \<and> l_FilePath l = f) (locks d) = filter (\<lambda>l. l_key l = (p, f)) (locks d)"
    by (simp add: l_key_def)
  also have "\<dots> = (case row_at l_key (p, f) (locks d) of None \<Rightarrow> [] | Some l \<Rightarrow> [l])"
    by (rule filter_key) (rule schema_okD(7) [OF assms])
  finally have "filter (\<lambda>l. l_ProjectID l = p \<and> l_FilePath l = f) (locks d) =
      (case row_at l_key (p, f) (locks d) of None \<Rightarrow> [] | Some l \<Rightarrow> [l])" .
  moreover have "lock_join d (filter (\<lambda>l. l_ProjectID l = p \<and> l_FilePath l = f) (locks d)) =
      map (lock_row d) (filter (\<lambda>l. l_ProjectID l = p \<and> l_FilePath l = f) (locks d))"
    by (rule lock_join_map [OF assms]) auto
  ultimately show ?thesis by (simp add: sql_lock_by_path_def split: option.splits)
qed

lemma sql_check_paths_rows:
  assumes "schema_ok d"
  shows "sql_check_paths p paths u d = map (lock_row d)
    (filter (\<lambda>l. l_ProjectID l = p \<and> l_FilePath l \<in> set paths \<and> l_LockedBy l \<noteq> u) (locks d))"
  unfolding sql_check_paths_def by (rule lock_join_map [OF assms]) auto

lemma sql_insert_lock_Inr:
  "sql_insert_lock l d = Inr (x, d') \<longleftrightarrow>
    char_count (l_Branch l) \<le> 256 \<and>
    (if l_key l \<in> l_key ` set (locks d) then d' = d
     else d' = d\<lparr>locks := locks d @ [l\<lparr>l_LockedByUsername := ''''\<rparr>]\<rparr>
       \<and> l_ID l \<notin> l_ID ` set (locks d) \<and> l_ProjectID l \<in> p_ID ` set (projects d)
       \<and> l_LockedBy l \<in> u_ID ` set (users d))"
  by (auto simp: sql_insert_lock_def)

lemma sql_delete_locks_Inr:
  "sql_delete_locks P d = Inr (x, d') \<longleftrightarrow>
    x = length (filter P (locks d)) \<and> d' = d\<lparr>locks := filter (\<lambda>l. \<not> P l) (locks d)\<rparr>"
  by (auto simp: sql_delete_locks_def)

definition lock_combine :: "Lock option \<Rightarrow> Lock \<Rightarrow> Lock" where
  "lock_combine old l = (case old of None \<Rightarrow> l\<lparr>l_LockedByUsername := ''''\<rparr> | Some row \<Rightarrow> row)"

lemma l_key_username [simp]: "l_key (l\<lparr>l_LockedByUsername := n\<rparr>) = l_key l"
  by (simp add: l_key_def)

interpretation lock_table: insert_ignore_table
  "\<lambda>k d. row_at l_key k (locks d)" sql_insert_lock l_key lock_combine
proof (unfold_locales, goal_cases)
  case (1 v d d' k)
  show ?case
  proof (cases "row_at l_key (l_key v) (locks d)")
    case None
    with 1 show ?thesis
      by (auto simp: sql_insert_lock_Inr lock_combine_def row_at_append row_at_None [symmetric]
        split: option.splits)
  next
    case (Some l)
    then have "l_key v \<in> l_key ` set (locks d)" by (metis option.discI row_at_None)
    with 1 Some show ?thesis by (auto simp: sql_insert_lock_Inr lock_combine_def)
  qed
next
  case (2 old v)
  show ?case by (simp add: lock_combine_def)
qed

section \<open>Invariants\<close>

lemma locks_change_ok:
  "db_ok d \<Longrightarrow> locks_ok (d\<lparr>locks := ls\<rparr>) \<Longrightarrow> db_ok (d\<lparr>locks := ls\<rparr>)"
  by (simp add: db_ok_def schema_ok_def table_ok_defs history_defs)

lemma insert_lock_ok:
  assumes "db_ok d" "sql_insert_lock l d = Inr (x, d')"
  shows "db_ok d'"
proof (cases "l_key l \<in> l_key ` set (locks d)")
  case True
  then show ?thesis using assms by (simp add: sql_insert_lock_Inr)
next
  case False
  then have d': "d' = d\<lparr>locks := locks d @ [l\<lparr>l_LockedByUsername := ''''\<rparr>]\<rparr>"
    and l: "l_ID l \<notin> l_ID ` set (locks d)" "l_ProjectID l \<in> p_ID ` set (projects d)"
      "l_LockedBy l \<in> u_ID ` set (users d)"
    using assms(2) by (simp_all add: sql_insert_lock_Inr)
  have "locks_ok d" using assms(1) by (simp add: db_ok_def schema_ok_def)
  then have "locks_ok d'" using False l unfolding d' locks_ok_def by auto
  with assms(1) show ?thesis unfolding d' by (rule locks_change_ok)
qed

lemma delete_locks_ok:
  assumes "db_ok d" "sql_delete_locks P d = Inr (x, d')"
  shows "db_ok d'"
proof -
  have d': "d' = d\<lparr>locks := filter (\<lambda>l. \<not> P l) (locks d)\<rparr>"
    using assms(2) by (simp add: sql_delete_locks_def)
  have "locks_ok d" using assms(1) by (simp add: db_ok_def schema_ok_def)
  then have "locks_ok d'" unfolding d' locks_ok_def by (auto simp: distinct_map_filter)
  with assms(1) show ?thesis unfolding d' by (rule locks_change_ok)
qed

lemma keeps_LockStore [keeps_intros]:
  "keeps db_ok (LockStore_GetByPath p f)"
  "keeps db_ok (LockStore_Acquire_insert l)"
  "keeps db_ok (LockStore_ListByProject p)"
  "keeps db_ok (LockStore_CheckPaths p paths u)"
  unfolding lock_store_calls
  by (auto intro: keeps_db_query keeps_db_exec insert_lock_ok)

lemma keeps_LockStore_Acquire [keeps_intros]: "keeps db_ok (LockStore_Acquire l)"
  unfolding LockStore_Acquire_def by (auto intro!: keeps_intros split: sum.splits option.splits)

lemma keeps_LockStore_Release [keeps_intros]: "keeps db_ok (LockStore_Release p f u force)"
  unfolding LockStore_Release_def
  by (auto intro!: keeps_intros keeps_db_exec intro: delete_locks_ok)

end
