(* ===== verification/Lock_Service.thy ===== *)
theory Lock_Service
  imports Lock_Store Http
begin

text \<open>
  \<^verbatim>\<open>internal/service/lock.go\<close> and \<^verbatim>\<open>internal/handler/lock.go\<close>: acquiring, releasing and
  listing advisory file locks, and the check that the push handler makes.
\<close>

section \<open>Service\<close>

definition LockService_Acquire :: "string \<Rightarrow> string \<Rightarrow> string \<Rightarrow> string \<Rightarrow> Lock result io" where
  "LockService_Acquire projectID filePath branch userID =
     go_try (LockStore_GetByPath projectID filePath) (Wrap ''check existing lock'') (\<lambda>existing.
       case existing of
         Some e \<Rightarrow>
           if l_LockedBy e \<noteq> userID
           then do {
             since \<leftarrow> format_RFC3339 (l_LockedAt e);
             ret (Inl (Note ErrFileLocked (''locked by '' @ l_LockedByUsername e @ '' since '' @ since)))
           }
           else ret (Inr e)
       | None \<Rightarrow> do {
           lockID \<leftarrow> generateUUID;
           now \<leftarrow> time_Now;
           let lock = \<lparr>l_ID = lockID, l_ProjectID = projectID, l_FilePath = filePath,
             l_Branch = branch, l_LockedBy = userID, l_LockedAt = now, l_LockedByUsername = ''''\<rparr>;
           go_try (LockStore_Acquire lock) (Wrap ''acquire lock'') (\<lambda>_. ret (Inr lock))
         })"

definition LockService_Release :: "string \<Rightarrow> string \<Rightarrow> string \<Rightarrow> bool \<Rightarrow> unit result io" where
  "LockService_Release projectID filePath userID force =
     LockStore_Release projectID filePath userID force"

definition LockService_List :: "string \<Rightarrow> Lock list result io" where
  "LockService_List projectID = LockStore_ListByProject projectID"

definition LockService_CheckPushPaths :: "string \<Rightarrow> string list \<Rightarrow> string \<Rightarrow> Lock list result io" where
  "LockService_CheckPushPaths projectID paths userID = LockStore_CheckPaths projectID paths userID"

section \<open>Handlers\<close>

record AcquireRequest =
  aq_FilePath :: string
  aq_Branch :: string

definition LockHandler_Acquire :: "string \<Rightarrow> string \<Rightarrow> AcquireRequest option \<Rightarrow> Lock reply io" where
  "LockHandler_Acquire projectID userID body = (case body of
     None \<Rightarrow> writeErrorJSON StatusBadRequest ''INVALID_REQUEST'' ''Invalid JSON body''
   | Some req \<Rightarrow>
       if aq_FilePath req = ''''
       then writeErrorJSON StatusBadRequest ''MISSING_FIELDS'' ''file_path is required''
       else do {
         let branch = (if aq_Branch req = '''' then ''main'' else aq_Branch req);
         r \<leftarrow> LockService_Acquire projectID (aq_FilePath req) branch userID;
         case r of
           Inl err \<Rightarrow>
             if errors_Is err ErrFileLocked
             then writeErrorJSON StatusConflict ''FILE_LOCKED'' (error_Error err)
             else writeErrorJSON StatusInternalServerError ''INTERNAL_ERROR'' ''Failed to acquire lock''
         | Inr lock \<Rightarrow> writeJSON StatusCreated lock
       })"

record ReleaseRequest =
  rl_FilePath :: string
  rl_Force :: bool

definition LockHandler_Release :: "string \<Rightarrow> string \<Rightarrow> ReleaseRequest option \<Rightarrow> string reply io" where
  "LockHandler_Release projectID userID body = (case body of
     None \<Rightarrow> writeErrorJSON StatusBadRequest ''INVALID_REQUEST'' ''Invalid JSON body''
   | Some req \<Rightarrow>
       if rl_FilePath req = ''''
       then writeErrorJSON StatusBadRequest ''MISSING_FIELDS'' ''file_path is required''
       else do {
         r \<leftarrow> LockService_Release projectID (rl_FilePath req) userID (rl_Force req);
         case r of
           Inl err \<Rightarrow>
             if errors_Is err ErrNotLockOwner
             then writeErrorJSON StatusForbidden ''NOT_LOCK_OWNER''
               ''You do not own this lock (use force to override)''
             else writeErrorJSON StatusInternalServerError ''INTERNAL_ERROR'' ''Failed to release lock''
         | Inr _ \<Rightarrow> writeJSON StatusOK ''unlocked''
       })"

definition LockHandler_List :: "string \<Rightarrow> Lock list reply io" where
  "LockHandler_List projectID = do {
     r \<leftarrow> LockService_List projectID;
     case r of
       Inl _ \<Rightarrow> writeErrorJSON StatusInternalServerError ''INTERNAL_ERROR'' ''Failed to list locks''
     | Inr ls \<Rightarrow> writeJSON StatusOK ls
   }"

section \<open>Invariants\<close>

lemma keeps_LockService [keeps_intros]:
  "keeps db_ok (LockService_Acquire p f b u)"
  "keeps db_ok (LockService_Release p f u force)"
  "keeps db_ok (LockService_List p)"
  "keeps db_ok (LockService_CheckPushPaths p paths u)"
  unfolding LockService_Acquire_def LockService_Release_def LockService_List_def
    LockService_CheckPushPaths_def
  by (auto intro!: keeps_intros split: option.splits simp: Let_def)

lemma keeps_LockHandler [keeps_intros]:
  "keeps db_ok (LockHandler_Acquire p u req)"
  "keeps db_ok (LockHandler_Release p u req')"
  "keeps db_ok (LockHandler_List p)"
  unfolding LockHandler_Acquire_def LockHandler_Release_def LockHandler_List_def
  by (auto intro!: keeps_intros split: option.splits sum.splits simp: Let_def)

section \<open>Acquiring\<close>

text \<open>
  The store method with a working store: a lock held by another user is refused, a lock of
  the same user is left alone, a free path is locked.
\<close>

lemma wp_LockStore_Acquire:
  assumes "schema_ok (w_db w)" "no_faults w"
  shows "wp (LockStore_Acquire l) Q w =
    (case holder (w_db w) (l_ProjectID l) (l_FilePath l) of
       None \<Rightarrow> wp (LockStore_Acquire_insert l) Q (next_tick w)
     | Some u \<Rightarrow> if u = l_LockedBy l then Q (Inr ()) (next_tick w)
         else Q (Inl (NewError ''file is locked by another user'')) (next_tick w))"
  using assms
  by (auto simp: LockStore_Acquire_def wp_simps sql_lock_by_path_row holder_def split: option.splits)

lemma wp_LockService_Acquire:
  assumes "schema_ok (w_db w)" "no_faults w"
    and held: "\<And>e. row_at l_key (p, f) (locks (w_db w)) = Some e \<Longrightarrow> l_LockedBy e = u \<Longrightarrow>
      Q (Inr (lock_row (w_db w) e)) (next_tick w)"
    and other: "\<And>e. row_at l_key (p, f) (locks (w_db w)) = Some e \<Longrightarrow> l_LockedBy e \<noteq> u \<Longrightarrow>
      Q (Inl (Note ErrFileLocked (''locked by '' @ l_LockedByUsername (lock_row (w_db w) e) @ '' since '' @
        w_rfc3339 w (l_LockedAt e)))) (next_tick w)"
    and free: "\<And>l w' r. row_at l_key (p, f) (locks (w_db w)) = None \<Longrightarrow>
      l_ProjectID l = p \<Longrightarrow> l_FilePath l = f \<Longrightarrow> l_LockedBy l = u \<Longrightarrow> l_Branch l = b \<Longrightarrow>
      (case sql_insert_lock l (w_db w) of
         Inl e \<Rightarrow> r = Inl (Wrap ''acquire lock'' e) \<and> w_db w' = w_db w
       | Inr (_, d) \<Rightarrow> r = Inr l \<and> w_db w' = d) \<Longrightarrow> Q r w'"
  shows "wp (LockService_Acquire p f b u) Q w"
proof (cases "row_at l_key (p, f) (locks (w_db w))")
  case (Some e)
  then show ?thesis
    using assms(1,2) held other by (simp add: LockService_Acquire_def wp_simps sql_lock_by_path_row)
next
  case None
  let ?l = "\<lparr>l_ID = uuid_at w (Suc (w_tick w)), l_ProjectID = p, l_FilePath = f, l_Branch = b,
    l_LockedBy = u, l_LockedAt = w_clock w (Suc (Suc (w_tick w))), l_LockedByUsername = []\<rparr>"
  from None have "holder (w_db w) p f = None" by (simp add: holder_def)
  with None show ?thesis
    using assms(1,2) free [OF None, of ?l]
    by (auto simp: LockService_Acquire_def Let_def wp_simps sql_lock_by_path_row wp_LockStore_Acquire
      split: sum.splits)
qed

end
