(* ===== verification/Push_Handler.thy ===== *)
theory Push_Handler
  imports Chunk_Service Version_Service Lock_Service
begin

text \<open>
  \<^verbatim>\<open>internal/handler/push.go\<close>: the three requests of a push, asking which chunks are
  missing, uploading a chunk, and committing the manifests. The chunk size limit
  \<open>maxSize\<close> is the one of the configuration.
\<close>

definition PushHandler_CheckChunks :: "string list option \<Rightarrow> (string list \<times> string list) reply io" where
  "PushHandler_CheckChunks body = (case body of
     None \<Rightarrow> writeErrorJSON StatusBadRequest ''INVALID_REQUEST'' ''Invalid JSON body''
   | Some hashes \<Rightarrow>
       if length hashes = 0
       then writeErrorJSON StatusBadRequest ''MISSING_FIELDS'' ''hashes array is required''
       else reply_outcome (ChunkService_CheckExisting hashes)
         (\<lambda>_. writeErrorJSON StatusInternalServerError ''INTERNAL_ERROR'' ''Failed to check chunks'')
         (\<lambda>(existing, needed). writeJSON StatusOK (existing, needed)))"

text \<open>
  The body behind \<open>http.MaxBytesReader\<close>: reading it fails when it is longer than five
  mebibytes.
\<close>

definition PushHandler_UploadChunk :: "int \<Rightarrow> string \<Rightarrow> bytes \<Rightarrow> unit reply io" where
  "PushHandler_UploadChunk maxSize expectedHash body =
     (if expectedHash = ''''
      then writeErrorJSON StatusBadRequest ''MISSING_HEADER'' ''X-Chunk-Hash header is required''
      else if 5 * 1024 * 1024 < length body
      then writeErrorJSON StatusRequestEntityTooLarge ''CHUNK_TOO_LARGE'' ''Chunk exceeds maximum size''
      else reply_outcome (ChunkService_Upload maxSize expectedHash body)
        (\<lambda>err.
          if errors_Is err ErrChunkHashMismatch
          then writeErrorJSON StatusBadRequest ''CHUNK_HASH_MISMATCH''
            ''Uploaded chunk hash does not match expected hash''
          else if errors_Is err ErrChunkTooLarge
          then writeErrorJSON StatusRequestEntityTooLarge ''CHUNK_TOO_LARGE'' ''Chunk exceeds maximum size''
          else writeErrorJSON StatusInternalServerError ''INTERNAL_ERROR'' ''Failed to store chunk'')
        (\<lambda>_. ret (Reply StatusCreated ())))"

record PushRequest =
  pr_ParentCommitID :: "string option"
  pr_Message :: string
  pr_Ref :: string
  pr_Files :: "CommitFileEntry list"

text \<open>The reply is the commit, or the list of path, holder and branch of the locks in the way.\<close>

datatype push_reply = Committed CommitResult | FilesLocked "(string \<times> string \<times> string) list"

definition PushHandler_Commit :: "string \<Rightarrow> string \<Rightarrow> PushRequest option \<Rightarrow> push_reply reply io" where
  "PushHandler_Commit projectID userID body = (case body of
     None \<Rightarrow> writeErrorJSON StatusBadRequest ''INVALID_REQUEST'' ''Invalid JSON body''
   | Some req \<Rightarrow>
       if pr_Message req = ''''
       then writeErrorJSON StatusBadRequest ''MISSING_FIELDS'' ''message is required''
       else if length (pr_Files req) = 0
       then writeErrorJSON StatusBadRequest ''MISSING_FIELDS'' ''at least one file is required''
       else do {
         checked \<leftarrow> LockService_CheckPushPaths projectID (map ce_Path (pr_Files req)) userID;
         let conflicting = (case checked of Inl _ \<Rightarrow> [] | Inr ls \<Rightarrow> ls);
         if 0 < length conflicting
         then writeJSON StatusConflict (FilesLocked
           (map (\<lambda>l. (l_FilePath l, l_LockedByUsername l, l_Branch l)) conflicting))
         else reply_result (CreateCommit \<lparr>cr_ProjectID = projectID, cr_ParentCommitID = pr_ParentCommitID req,
             cr_AuthorID = userID, cr_Message = pr_Message req, cr_Ref = pr_Ref req,
             cr_Files = pr_Files req\<rparr>)
           (\<lambda>err.
             if errors_Is err ErrCommitConflict
             then writeErrorJSON StatusConflict ''COMMIT_CONFLICT''
               (''Parent commit does not match current ref head '' @ em_dash @ '' pull and retry'')
             else writeErrorJSON StatusInternalServerError ''INTERNAL_ERROR'' ''Failed to create commit'')
           (\<lambda>result. writeJSON StatusCreated (Committed result))
       })"

end
