(* ===== verification/Pull_Handler.thy ===== *)
theory Pull_Handler
  imports Chunk_Service Version_Service
begin

text \<open>\<^verbatim>\<open>internal/handler/pull.go\<close>: what a client has to download, and the chunks.\<close>

record PullRequest =
  pl_FromCommitID :: "string option"
  pl_ToCommitID :: string
  pl_Ref :: string

definition PullHandler_DiffTo :: "string option \<Rightarrow> string \<Rightarrow> DiffResult reply io" where
  "PullHandler_DiffTo fromCommitID toCommitID =
     (if toCommitID = ''''
      then writeErrorJSON StatusBadRequest ''MISSING_FIELDS'' ''to_commit_id or ref is required''
      else reply_result (ComputeDiff fromCommitID toCommitID)
        (\<lambda>_. writeErrorJSON StatusInternalServerError ''INTERNAL_ERROR'' ''Failed to compute diff'')
        (\<lambda>result. writeJSON StatusOK result))"

definition PullHandler_Diff :: "string \<Rightarrow> PullRequest option \<Rightarrow> DiffResult reply io" where
  "PullHandler_Diff projectID body = (case body of
     None \<Rightarrow> writeErrorJSON StatusBadRequest ''INVALID_REQUEST'' ''Invalid JSON body''
   | Some req \<Rightarrow>
       if pl_ToCommitID req = '''' \<and> pl_Ref req \<noteq> ''''
       then reply_result (ResolveRef projectID (pl_Ref req))
         (\<lambda>_. writeErrorJSON StatusNotFound ''REF_NOT_FOUND''
           (''Ref '' @ go_quote (pl_Ref req) @ '' not found''))
         (\<lambda>ref. PullHandler_DiffTo (pl_FromCommitID req) (r_CommitID ref))
       else PullHandler_DiffTo (pl_FromCommitID req) (pl_ToCommitID req))"

text \<open>The body is the stored object; \<open>X-Chunk-Hash\<close> and \<open>Content-Length\<close> are its headers.\<close>

record ChunkReply =
  cp_Hash :: string
  cp_Length :: int
  cp_Body :: bytes

definition PullHandler_DownloadChunk :: "string \<Rightarrow> ChunkReply reply io" where
  "PullHandler_DownloadChunk hash =
     (if length hash \<noteq> 64
      then writeErrorJSON StatusBadRequest ''INVALID_HASH'' ''Hash must be 64 hex characters''
      else reply_outcome (ChunkService_Download hash)
        (\<lambda>err.
          if errors_Is err ErrChunkNotFound
          then writeErrorJSON StatusNotFound ''CHUNK_NOT_FOUND'' ''Chunk not found''
          else writeErrorJSON StatusInternalServerError ''INTERNAL_ERROR'' ''Failed to retrieve chunk'')
        (\<lambda>(data, size). writeJSON StatusOK \<lparr>cp_Hash = hash, cp_Length = size, cp_Body = data\<rparr>))"

end
