(* ===== verification/Strconv.thy ===== *)
theory Strconv
  imports Model
begin

text \<open>
  What the server uses of Go's \<^verbatim>\<open>strconv\<close>, of \<open>time.ParseDuration\<close> and of \<open>%d\<close>: reading and
  printing decimal numbers with the 64 bit range of \<open>int\<close>, booleans, and durations in
  nanoseconds.
\<close>

section \<open>Decimal numbers\<close>

definition decimal_digit :: "char \<Rightarrow> bool" where
  "decimal_digit c \<longleftrightarrow> 48 \<le> (of_char c :: nat) \<and> (of_char c :: nat) \<le> 57"

definition decimal :: "string \<Rightarrow> int" where
  "decimal ds = fold (\<lambda>c n. 10 * n + (of_char c - 48)) ds 0"

definition clamp_int64 :: "int \<Rightarrow> int" where
  "clamp_int64 n = (if 2 ^ 63 \<le> n then 2 ^ 63 - 1 else if n < - (2 ^ 63) then - (2 ^ 63) else n)"

text \<open>A sign and the rest.\<close>

definition split_sign :: "string \<Rightarrow> bool \<times> string" where
  "split_sign s = (case s of [] \<Rightarrow> (False, [])
     | c # cs \<Rightarrow> if c = CHR ''-'' then (True, cs) else if c = CHR ''+'' then (False, cs) else (False, s))"

text \<open>
  \<open>strconv.Atoi\<close>, which is \<open>ParseInt(s, 10, 64)\<close>: the value and whether the error is nil. Text that
  is no decimal number has the value 0, a number that does not fit the nearest 64 bit integer.
\<close>

definition strconv_Atoi :: "string \<Rightarrow> int \<times> bool" where
  "strconv_Atoi s =
     (let (neg, ds) = split_sign s in
      if ds = [] \<or> \<not> list_all decimal_digit ds then (0, False)
      else let n = (if neg then - decimal ds else decimal ds) in (clamp_int64 n, clamp_int64 n = n))"

fun show_nat :: "nat \<Rightarrow> string" where
  "show_nat n = (if n < 10 then [hex_digit n] else show_nat (n div 10) @ [hex_digit (n mod 10)])"

declare show_nat.simps [simp del]

text \<open>\<open>%d\<close> of an integer.\<close>

definition show_int :: "int \<Rightarrow> string" where
  "show_int n = (if n < 0 then CHR ''-'' # show_nat (nat (- n)) else show_nat (nat n))"

lemma clamp_int64_range: "- (2 ^ 63) \<le> clamp_int64 n \<and> clamp_int64 n < 2 ^ 63"
  by (simp add: clamp_int64_def)

lemma strconv_Atoi_range: "- (2 ^ 63) \<le> fst (strconv_Atoi s) \<and> fst (strconv_Atoi s) < 2 ^ 63"
  using clamp_int64_range by (simp add: strconv_Atoi_def Let_def split: prod.splits)

lemma digit_value: "n < 10 \<Longrightarrow> decimal_digit (hex_digit n) \<and> (of_char (hex_digit n) :: int) = int n + 48"
proof -
  assume "n < 10"
  moreover have "list_all (\<lambda>n. decimal_digit (hex_digit n) \<and> (of_char (hex_digit n) :: int) = int n + 48) [0..<10]"
    by code_simp
  ultimately show ?thesis by (simp add: list_all_iff)
qed

lemma decimal_snoc: "decimal (ds @ [c]) = 10 * decimal ds + (of_char c - 48)"
  by (simp add: decimal_def)

lemma show_nat_correct: "list_all decimal_digit (show_nat n) \<and> decimal (show_nat n) = int n \<and> show_nat n \<noteq> []"
proof (induction n rule: show_nat.induct)
  case (1 n)
  show ?case
  proof (cases "n < 10")
    case True
    then show ?thesis
      using digit_value [OF True] by (subst (1 2 3) show_nat.simps) (simp add: decimal_def)
  next
    case False
    have "int n = 10 * int (n div 10) + int (n mod 10)" by presburger
    with 1 False digit_value [of "n mod 10"] show ?thesis
      by (subst (1 2 3) show_nat.simps) (simp add: decimal_snoc)
  qed
qed

lemma show_nat_hd: "split_sign (show_nat n) = (False, show_nat n)"
proof (cases "show_nat n")
  case Nil
  then show ?thesis by (simp add: split_sign_def)
next
  case (Cons c cs)
  with show_nat_correct [of n] have "decimal_digit c" by simp
  then have "c \<noteq> CHR ''-''" "c \<noteq> CHR ''+''" by (auto simp: decimal_digit_def)
  with Cons show ?thesis by (simp add: split_sign_def)
qed

text \<open>Reading back what was printed.\<close>

lemma Atoi_show_int:
  assumes "- (2 ^ 63) \<le> n" "n < 2 ^ 63"
  shows "strconv_Atoi (show_int n) = (n, True)"
proof (cases "n < 0")
  case True
  then have "split_sign (show_int n) = (True, show_nat (nat (- n)))" by (simp add: show_int_def split_sign_def)
  with True assms show ?thesis
    using show_nat_correct [of "nat (- n)"] by (simp add: strconv_Atoi_def clamp_int64_def Let_def)
next
  case False
  then have "split_sign (show_int n) = (False, show_nat (nat n))" by (simp add: show_int_def show_nat_hd)
  with False assms show ?thesis
    using show_nat_correct [of "nat n"] by (simp add: strconv_Atoi_def clamp_int64_def Let_def)
qed

section \<open>Booleans\<close>

definition ParseBool :: "string \<Rightarrow> bool option" where
  "ParseBool s =
     (if s \<in> {''1'', ''t'', ''T'', ''TRUE'', ''true'', ''True''} then Some True
      else if s \<in> {''0'', ''f'', ''F'', ''FALSE'', ''false'', ''False''} then Some False else None)"

section \<open>Durations\<close>

text \<open>
  A duration is a sequence of decimal numbers with a unit. The fraction of a number is scaled in
  floating point, \<open>uint64(float64(f) * (float64(unit) / scale))\<close>: \<open>fscale f unit k\<close> is that value for
  \<open>scale\<close> ten to the power \<open>k\<close>, a parameter because it is the arithmetic of the processor.
\<close>

type_synonym fscale = "int \<Rightarrow> int \<Rightarrow> nat \<Rightarrow> int"

definition duration_unit :: "string \<Rightarrow> int option" where
  "duration_unit u = map_of [(''ns'', 1), (''us'', 10 ^ 3), ([CHR 0xC2, CHR 0xB5, CHR ''s''], 10 ^ 3),
     ([CHR 0xCE, CHR 0xBC, CHR ''s''], 10 ^ 3), (''ms'', 10 ^ 6), (''s'', 10 ^ 9),
     (''m'', 60 * 10 ^ 9), (''h'', 3600 * 10 ^ 9)] u"

text \<open>The digits of a fraction that still fit, their number, and what follows all digits.\<close>

definition fraction_digit :: "char \<Rightarrow> int \<times> nat \<times> bool \<Rightarrow> int \<times> nat \<times> bool" where
  "fraction_digit c = (\<lambda>(x, k, overflow).
     if overflow \<or> (2 ^ 63 - 1) div 10 < x then (x, k, True)
     else let y = 10 * x + (of_char c - 48) in if 2 ^ 63 < y then (x, k, True) else (y, Suc k, False))"

definition leadingFraction :: "string \<Rightarrow> int \<times> nat \<times> string" where
  "leadingFraction s =
     (let (x, k, _) = fold fraction_digit (takeWhile decimal_digit s) (0, 0, False)
      in (x, k, dropWhile decimal_digit s))"

definition leadingInt :: "string \<Rightarrow> (int \<times> string) option" where
  "leadingInt s = (let x = decimal (takeWhile decimal_digit s) in
     if 2 ^ 63 < x then None else Some (x, dropWhile decimal_digit s))"

text \<open>One number with its unit: its length in nanoseconds and the rest of the text.\<close>

definition duration_part :: "fscale \<Rightarrow> string \<Rightarrow> (int \<times> string) option" where
  "duration_part fscale s =
     (case leadingInt s of None \<Rightarrow> None
      | Some (v, s1) \<Rightarrow>
          let pre = (s1 \<noteq> s);
              (f, k, s2) = (case s1 of [] \<Rightarrow> (0, 0, [])
                 | c # cs \<Rightarrow> if c = CHR ''.'' then leadingFraction cs else (0, 0, s1));
              post = (case s1 of [] \<Rightarrow> False | c # cs \<Rightarrow> c = CHR ''.'' \<and> s2 \<noteq> cs);
              u = takeWhile (\<lambda>c. c \<noteq> CHR ''.'' \<and> \<not> decimal_digit c) s2;
              rest = dropWhile (\<lambda>c. c \<noteq> CHR ''.'' \<and> \<not> decimal_digit c) s2
          in if \<not> pre \<and> \<not> post \<or> u = [] then None
             else case duration_unit u of None \<Rightarrow> None
               | Some unit \<Rightarrow>
                   if 2 ^ 63 div unit < v then None
                   else let n = v * unit + (if 0 < f then fscale f unit k else 0) in
                     if 0 < f \<and> 2 ^ 63 < n then None else Some (n, rest))"

lemma length_dropWhile_Cons: "takeWhile P s \<noteq> [] \<Longrightarrow> length (dropWhile P s) < length s"
  by (cases s) (auto simp: length_dropWhile_le le_imp_less_Suc split: if_splits)

lemma duration_part_shorter: "duration_part fscale s = Some (n, rest) \<Longrightarrow> length rest < length s"
proof -
  assume part: "duration_part fscale s = Some (n, rest)"
  let ?P = "\<lambda>c. c \<noteq> CHR ''.'' \<and> \<not> decimal_digit c"
  have "length (dropWhile ?P s2) < length s" if "takeWhile ?P s2 \<noteq> []" "length s2 \<le> length s" for s2
    using length_dropWhile_Cons [OF that(1)] that(2) by simp
  moreover have "length (dropWhile decimal_digit s) \<le> length s" by (rule length_dropWhile_le)
  moreover have "length (dropWhile decimal_digit cs) \<le> length s" if "dropWhile decimal_digit s = c # cs" for c cs
    using length_dropWhile_le [of decimal_digit s] length_dropWhile_le [of decimal_digit cs] that by simp
  moreover have "length (dropWhile ?P cs) < length s" if "Suc (length cs) \<le> length s" for cs
    using length_dropWhile_le [of ?P cs] that by simp
  ultimately show ?thesis
    using part
    by (auto simp: duration_part_def leadingInt_def leadingFraction_def Let_def
      split: option.splits prod.splits list.splits if_splits)
qed

function duration_sum :: "fscale \<Rightarrow> int \<Rightarrow> string \<Rightarrow> int option" where
  "duration_sum fscale d s =
     (if s = [] then Some d
      else case duration_part fscale s of None \<Rightarrow> None
        | Some (n, rest) \<Rightarrow>
            let d' = (d + n) mod 2 ^ 64 in if 2 ^ 63 < d' then None else duration_sum fscale d' rest)"
  by pat_completeness auto
termination
  by (relation "measure (\<lambda>(_, _, s). length s)") (auto dest: duration_part_shorter)

declare duration_sum.simps [simp del]

definition ParseDuration :: "fscale \<Rightarrow> string \<Rightarrow> int option" where
  "ParseDuration fscale s =
     (let (neg, s1) = split_sign s in
      if s1 = ''0'' then Some 0
      else if s1 = [] then None
      else case duration_sum fscale 0 s1 of None \<Rightarrow> None
        | Some d \<Rightarrow> if neg then Some (- d) else if 2 ^ 63 - 1 < d then None else Some d)"

lemma duration_sum_bound: "duration_sum fscale d s = Some n \<Longrightarrow> 0 \<le> d \<Longrightarrow> d \<le> 2 ^ 63 \<Longrightarrow> 0 \<le> n \<and> n \<le> 2 ^ 63"
proof (induction fscale d s rule: duration_sum.induct)
  case (1 fscale d s)
  then show ?case
    by (subst (asm) duration_sum.simps) (auto simp: Let_def split: if_splits option.splits prod.splits)
qed

lemma ParseDuration_range: "ParseDuration fscale s = Some n \<Longrightarrow> - (2 ^ 63) \<le> n \<and> n < 2 ^ 63"
  using duration_sum_bound [of fscale 0 "snd (split_sign s)"]
  by (auto simp: ParseDuration_def Let_def split: prod.splits if_splits option.splits)

end
