(* ===== verification/Version_Handler.thy ===== *)
theory Version_Handler
  imports Version_Service Http Strconv
begin

text \<open>\<^verbatim>\<open>internal/handler/version.go\<close>: browsing commits, refs and the tree of a ref.\<close>

text \<open>
  \<open>n, _ := strconv.Atoi(s)\<close>: text that is no decimal number is 0, a number that does not fit is
  the nearest 64 bit integer.
\<close>

definition Atoi :: "string \<Rightarrow> int" where
  "Atoi s = fst (strconv_Atoi s)"

definition VersionHandler_ListCommits :: "string \<Rightarrow> string \<Rightarrow> string \<Rightarrow> Commit list reply io" where
  "VersionHandler_ListCommits projectID limit offset =
     reply_result (VersionService_ListCommits projectID (Atoi limit) (Atoi offset))
       (\<lambda>_. writeErrorJSON StatusInternalServerError ''INTERNAL_ERROR'' ''Failed to list commits'')
       (\<lambda>cs. writeJSON StatusOK cs)"

definition VersionHandler_GetCommit :: "string \<Rightarrow> Commit reply io" where
  "VersionHandler_GetCommit commitID =
     reply_result (VersionService_GetCommit commitID)
       (\<lambda>err. if errors_Is err ErrCommitNotFound
         then writeErrorJSON StatusNotFound ''COMMIT_NOT_FOUND'' ''Commit not found''
         else writeErrorJSON StatusInternalServerError ''INTERNAL_ERROR'' ''Failed to get commit'')
       (\<lambda>c. writeJSON StatusOK c)"

definition VersionHandler_ListCommitFiles :: "string \<Rightarrow> FileVersion list reply io" where
  "VersionHandler_ListCommitFiles commitID =
     reply_result (VersionService_GetCommitFiles commitID)
       (\<lambda>_. writeErrorJSON StatusInternalServerError ''INTERNAL_ERROR'' ''Failed to list commit files'')
       (\<lambda>fs. writeJSON StatusOK fs)"

definition VersionHandler_ListRefs :: "string \<Rightarrow> Ref list reply io" where
  "VersionHandler_ListRefs projectID =
     reply_result (VersionService_ListRefs projectID)
       (\<lambda>_. writeErrorJSON StatusInternalServerError ''INTERNAL_ERROR'' ''Failed to list refs'')
       (\<lambda>rs. writeJSON StatusOK rs)"

record TreeReply =
  tr_Ref :: string
  tr_CommitID :: string
  tr_Files :: "File list"

definition VersionHandler_GetTree :: "string \<Rightarrow> string \<Rightarrow> TreeReply reply io" where
  "VersionHandler_GetTree projectID ref =
     (let refName = (if ref = '''' then ''main'' else ref) in
      reply_result (ResolveRef projectID refName)
        (\<lambda>err. if errors_Is err ErrRefNotFound
          then writeErrorJSON StatusNotFound ''REF_NOT_FOUND'' (''Ref '' @ go_quote refName @ '' not found'')
          else writeErrorJSON StatusInternalServerError ''INTERNAL_ERROR'' ''Failed to resolve ref'')
        (\<lambda>r. reply_result (VersionService_GetFileTree projectID (r_CommitID r))
          (\<lambda>_. writeErrorJSON StatusInternalServerError ''INTERNAL_ERROR'' ''Failed to get file tree'')
          (\<lambda>fs. writeJSON StatusOK \<lparr>tr_Ref = refName, tr_CommitID = r_CommitID r, tr_Files = fs\<rparr>)))"

section \<open>Bounds\<close>

lemma clamp_limit_bounds: "1 \<le> clamp_limit n \<and> clamp_limit n \<le> 200"
  by (simp add: clamp_limit_def Let_def)

lemma clamp_limit_id: "1 \<le> n \<Longrightarrow> n \<le> 200 \<Longrightarrow> clamp_limit n = n"
  by (simp add: clamp_limit_def Let_def)

lemma Atoi_range: "- (2 ^ 63) \<le> Atoi s \<and> Atoi s < 2 ^ 63"
  using strconv_Atoi_range by (simp add: Atoi_def)

end
