(* ===== verification/Merge_Service.thy ===== *)
theory Merge_Service
  imports Commit_Store Version_Service
begin

text \<open>
  \<^verbatim>\<open>internal/service/merge.go\<close>: what a merge of two branches would do, and doing it.
\<close>

section \<open>Classification of the files\<close>

definition snapshotMap :: "MergeFileEntry list \<Rightarrow> (string, MergeFileEntry) gomap" where
  "snapshotMap entries = gomap_of me_FileID (\<lambda>e. e) entries []"

text \<open>The version of a file in a snapshot, the empty string when it is not there.\<close>

definition version_in :: "(string, MergeFileEntry) gomap \<Rightarrow> string \<Rightarrow> string" where
  "version_in m fileID = (case map_of m fileID of None \<Rightarrow> '''' | Some e \<Rightarrow> me_FileVersionID e)"

definition conflict_path ::
    "(string, MergeFileEntry) gomap \<Rightarrow> (string, MergeFileEntry) gomap \<Rightarrow> (string, MergeFileEntry) gomap
      \<Rightarrow> string \<Rightarrow> string" where
  "conflict_path baseMap sourceMap targetMap fileID =
     (case map_of sourceMap fileID of
        Some e \<Rightarrow> me_FilePath e
      | None \<Rightarrow> (case map_of targetMap fileID of
          Some e \<Rightarrow> me_FilePath e
        | None \<Rightarrow> (case map_of baseMap fileID of Some e \<Rightarrow> me_FilePath e | None \<Rightarrow> '''')))"

text \<open>The body of the loop over all files.\<close>

definition analyze_file ::
    "(string, MergeFileEntry) gomap \<Rightarrow> (string, MergeFileEntry) gomap \<Rightarrow> (string, MergeFileEntry) gomap
      \<Rightarrow> string \<Rightarrow> MergeAnalysis \<Rightarrow> MergeAnalysis" where
  "analyze_file baseMap sourceMap targetMap fileID analysis =
     (let baseVersion = version_in baseMap fileID;
          sourceVersion = version_in sourceMap fileID;
          targetVersion = version_in targetMap fileID;
          sourceChanged = (sourceVersion \<noteq> baseVersion);
          targetChanged = (targetVersion \<noteq> baseVersion)
      in if \<not> sourceChanged \<and> \<not> targetChanged
         then analysis\<lparr>ma_Unchanged := ma_Unchanged analysis + 1\<rparr>
         else if sourceChanged \<and> \<not> targetChanged
         then (case map_of sourceMap fileID of
             Some e \<Rightarrow> analysis\<lparr>ma_SourceOnly := ma_SourceOnly analysis @ [e]\<rparr>
           | None \<Rightarrow> analysis)
         else if \<not> sourceChanged \<and> targetChanged
         then (case map_of targetMap fileID of
             Some e \<Rightarrow> analysis\<lparr>ma_TargetOnly := ma_TargetOnly analysis @ [e]\<rparr>
           | None \<Rightarrow> analysis)
         else if sourceVersion = targetVersion
         then analysis\<lparr>ma_Unchanged := ma_Unchanged analysis + 1\<rparr>
         else analysis\<lparr>ma_Type := MergeTypeConflict,
           ma_Conflicts := ma_Conflicts analysis @ [\<lparr>mc_FileID = fileID,
             mc_FilePath = conflict_path baseMap sourceMap targetMap fileID,
             mc_BaseFileVersionID = baseVersion, mc_SourceFileVersionID = sourceVersion,
             mc_TargetFileVersionID = targetVersion\<rparr>]\<rparr>)"

definition new_analysis :: "MergeType \<Rightarrow> string \<Rightarrow> string \<Rightarrow> string \<Rightarrow> MergeAnalysis" where
  "new_analysis t baseID sourceBranch targetBranch = \<lparr>ma_Type = t, ma_MergeBaseID = baseID,
     ma_SourceBranch = sourceBranch, ma_TargetBranch = targetBranch, ma_SourceOnly = [],
     ma_TargetOnly = [], ma_Conflicts = [], ma_Unchanged = 0\<rparr>"

text \<open>The keys of \<open>allFileIDs\<close>: a set, whatever the order of the three loops that fill it.\<close>

definition all_file_ids ::
    "(string, MergeFileEntry) gomap \<Rightarrow> (string, MergeFileEntry) gomap \<Rightarrow> (string, MergeFileEntry) gomap
      \<Rightarrow> string list" where
  "all_file_ids baseMap sourceMap targetMap =
     remdups (map fst baseMap @ map fst sourceMap @ map fst targetMap)"

text \<open>The three snapshots of a base and two heads, compared.\<close>

definition analyze_snapshots :: "string \<Rightarrow> string \<Rightarrow> string \<Rightarrow> string \<Rightarrow> string \<Rightarrow> MergeAnalysis result io" where
  "analyze_snapshots sourceBranch targetBranch sourceID targetID baseID =
     go_try (CommitStore_GetCommitSnapshotWithPaths baseID) (Wrap ''get base snapshot'') (\<lambda>baseSnapshot.
     go_try (CommitStore_GetCommitSnapshotWithPaths sourceID) (Wrap ''get source snapshot'') (\<lambda>sourceSnapshot.
     go_try (CommitStore_GetCommitSnapshotWithPaths targetID) (Wrap ''get target snapshot'') (\<lambda>targetSnapshot. do {
       let baseMap = snapshotMap baseSnapshot;
       let sourceMap = snapshotMap sourceSnapshot;
       let targetMap = snapshotMap targetSnapshot;
       ks \<leftarrow> go_range (all_file_ids baseMap sourceMap targetMap);
       ret (Inr (fold (analyze_file baseMap sourceMap targetMap) ks
         (new_analysis MergeTypeClean baseID sourceBranch targetBranch)))
     })))"

definition Analyze :: "string \<Rightarrow> string \<Rightarrow> string \<Rightarrow> MergeAnalysis result io" where
  "Analyze projectID sourceBranch targetBranch =
     (if sourceBranch = targetBranch then ret (Inl ErrSameBranch)
      else go_try (CommitStore_GetRef projectID sourceBranch ''branch'')
        (\<lambda>_. Wrap ''source branch'' ErrBranchNotFound) (\<lambda>sourceRef.
      go_try (CommitStore_GetRef projectID targetBranch ''branch'')
        (\<lambda>_. Wrap ''target branch'' ErrBranchNotFound) (\<lambda>targetRef.
      go_try (CommitStore_IsAncestor (r_CommitID targetRef) (r_CommitID sourceRef))
        (Wrap ''check ancestry'') (\<lambda>isAncestor.
      if isAncestor
      then ret (Inr (new_analysis MergeTypeFastForward (r_CommitID targetRef) sourceBranch targetBranch))
      else go_try (CommitStore_FindMergeBase (r_CommitID sourceRef) (r_CommitID targetRef))
        (\<lambda>_. ErrNoMergeBase)
        (analyze_snapshots sourceBranch targetBranch (r_CommitID sourceRef) (r_CommitID targetRef))))))"

section \<open>Resolutions\<close>

primrec check_conflicts :: "(string, string) gomap \<Rightarrow> MergeConflict list \<Rightarrow> error option" where
  "check_conflicts resolutionMap [] = None"
| "check_conflicts resolutionMap (c # cs) =
     (case map_of resolutionMap (mc_FileID c) of
        None \<Rightarrow> Some (Note ErrUnresolvedConflicts (''missing resolution for file '' @ mc_FilePath c))
      | Some versionID \<Rightarrow>
          if versionID \<noteq> mc_SourceFileVersionID c \<and> versionID \<noteq> mc_TargetFileVersionID c
            \<and> versionID \<noteq> mc_BaseFileVersionID c
          then Some (Note ErrInvalidResolution (''file '' @ mc_FilePath c))
          else check_conflicts resolutionMap cs)"

text \<open>The error of the validation, if there is one.\<close>

definition validate_resolutions :: "MergeAnalysis \<Rightarrow> MergeResolution list \<Rightarrow> error option" where
  "validate_resolutions analysis resolutions =
     (if ma_Type analysis = MergeTypeConflict
      then if length resolutions \<noteq> length (ma_Conflicts analysis) then Some ErrUnresolvedConflicts
        else check_conflicts (gomap_of mr_FileID mr_FileVersionID resolutions []) (ma_Conflicts analysis)
      else None)"

section \<open>The merged snapshot\<close>

definition entry_row :: "MergeFileEntry \<Rightarrow> CommitFile" where
  "entry_row e = \<lparr>cf_CommitID = '''', cf_FileID = me_FileID e, cf_FileVersionID = me_FileVersionID e\<rparr>"

definition resolution_row :: "MergeResolution \<Rightarrow> CommitFile" where
  "resolution_row r = \<lparr>cf_CommitID = '''', cf_FileID = mr_FileID r, cf_FileVersionID = mr_FileVersionID r\<rparr>"

definition merged_map ::
    "MergeFileEntry list \<Rightarrow> MergeAnalysis \<Rightarrow> MergeResolution list \<Rightarrow> (string, CommitFile) gomap" where
  "merged_map targetSnapshot analysis resolutions =
     (let m = gomap_of me_FileID entry_row targetSnapshot [];
          m = gomap_of me_FileID entry_row (ma_SourceOnly analysis) m
      in if ma_Type analysis = MergeTypeConflict
         then gomap_of mr_FileID resolution_row resolutions m else m)"

section \<open>Executing a merge\<close>

definition fast_forward :: "Ref option \<Rightarrow> Ref option \<Rightarrow> Commit outcome io" where
  "fast_forward sourceRef targetRef = do {
     now \<leftarrow> time_Now;
     case (sourceRef, targetRef) of
       (Some s, Some t) \<Rightarrow>
         go_must (CommitStore_UpsertRef (t\<lparr>r_CommitID := r_CommitID s, r_UpdatedAt := now\<rparr>))
           (Wrap ''fast-forward ref'') (\<lambda>_. do {
             r \<leftarrow> CommitStore_GetByID (r_CommitID s);
             ret (Some r)
           })
     | _ \<Rightarrow> panic
   }"

definition merge_row ::
    "string \<Rightarrow> string \<Rightarrow> string \<Rightarrow> string \<Rightarrow> string \<Rightarrow> Ref \<Rightarrow> Ref \<Rightarrow> int \<Rightarrow> string \<Rightarrow> Commit" where
  "merge_row projectID sourceBranch targetBranch authorID message s t now commitID =
     \<lparr>c_ID = commitID, c_ProjectID = projectID, c_ParentID = Some (r_CommitID t),
      c_ParentIDs = [r_CommitID t, r_CommitID s], c_AuthorID = authorID,
      c_Message = (if message = '''' then ''Merge '' @ sourceBranch @ '' into '' @ targetBranch else message),
      c_CreatedAt = now\<rparr>"

text \<open>
  The commit row is written before the target ref is changed. The commit that is returned
  holds the address of \<open>targetRef.CommitID\<close> as its parent, so it shows the new head there.
\<close>

definition merge_write :: "Commit \<Rightarrow> Ref \<Rightarrow> (string, CommitFile) gomap \<Rightarrow> Commit result io" where
  "merge_write commit t mergedMap =
     go_try (CommitStore_Create commit) (Wrap ''create merge commit'') (\<lambda>_. do {
       ks \<leftarrow> go_range (map fst mergedMap);
       go_try (CommitStore_SetCommitFiles (c_ID commit) (snapshot_rows (c_ID commit) mergedMap ks))
         (Wrap ''write merge snapshot'') (\<lambda>_.
       go_try (CommitStore_UpsertRef (t\<lparr>r_CommitID := c_ID commit, r_UpdatedAt := c_CreatedAt commit\<rparr>))
         (Wrap ''advance target ref'') (\<lambda>_.
       ret (Inr (commit\<lparr>c_ParentID := Some (c_ID commit)\<rparr>))))
     })"

definition merge_commit ::
    "string \<Rightarrow> string \<Rightarrow> string \<Rightarrow> string \<Rightarrow> string \<Rightarrow> MergeResolution list \<Rightarrow> MergeAnalysis
      \<Rightarrow> Ref option \<Rightarrow> Ref option \<Rightarrow> Commit outcome io" where
  "merge_commit projectID sourceBranch targetBranch authorID message resolutions analysis sourceRef targetRef =
     (case validate_resolutions analysis resolutions of
        Some e \<Rightarrow> ret (Some (Inl e))
      | None \<Rightarrow> (case targetRef of
          None \<Rightarrow> panic
        | Some t \<Rightarrow>
            go_must (CommitStore_GetCommitSnapshotWithPaths (r_CommitID t)) (Wrap ''get target snapshot'')
              (\<lambda>targetSnapshot. do {
                let mergedMap = merged_map targetSnapshot analysis resolutions;
                now \<leftarrow> time_Now;
                commitID \<leftarrow> generateUUID;
                case sourceRef of
                  None \<Rightarrow> panic
                | Some s \<Rightarrow> do {
                    r \<leftarrow> merge_write (merge_row projectID sourceBranch targetBranch authorID message s t
                      now commitID) t mergedMap;
                    ret (Some r)
                  }
              })))"

text \<open>\<open>sourceRef, _ := GetRef(...)\<close>: the error is dropped and the pointer is nil.\<close>

definition ref_or_nil :: "Ref result \<Rightarrow> Ref option" where
  "ref_or_nil r = (case r of Inl _ \<Rightarrow> None | Inr x \<Rightarrow> Some x)"

definition Execute ::
    "string \<Rightarrow> string \<Rightarrow> string \<Rightarrow> string \<Rightarrow> string \<Rightarrow> MergeResolution list \<Rightarrow> Commit outcome io" where
  "Execute projectID sourceBranch targetBranch authorID message resolutions =
     go_must (Analyze projectID sourceBranch targetBranch) (\<lambda>e. e) (\<lambda>analysis. do {
       sr \<leftarrow> CommitStore_GetRef projectID sourceBranch ''branch'';
       tr \<leftarrow> CommitStore_GetRef projectID targetBranch ''branch'';
       if ma_Type analysis = MergeTypeFastForward
       then fast_forward (ref_or_nil sr) (ref_or_nil tr)
       else merge_commit projectID sourceBranch targetBranch authorID message resolutions analysis
         (ref_or_nil sr) (ref_or_nil tr)
     })"

end
