(* ===== verification/Merge_Handler.thy ===== *)
theory Merge_Handler
  imports Merge_Service Http
begin

text \<open>\<^verbatim>\<open>internal/handler/merge.go\<close>: creating a branch, analyzing and executing a merge.\<close>

record BranchRequest =
  br_Name :: string
  br_FromRef :: string

definition MergeHandler_CreateBranch :: "string \<Rightarrow> BranchRequest option \<Rightarrow> Ref reply io" where
  "MergeHandler_CreateBranch projectID body = (case body of
     None \<Rightarrow> writeErrorJSON StatusBadRequest ''INVALID_REQUEST'' ''Invalid JSON body''
   | Some req \<Rightarrow>
       if br_Name req = ''''
       then writeErrorJSON StatusBadRequest ''MISSING_FIELDS'' ''name is required''
       else let fromRef = (if br_FromRef req = '''' then ''main'' else br_FromRef req) in
         reply_result (CommitStore_GetRef projectID fromRef ''branch'')
           (\<lambda>_. writeErrorJSON StatusNotFound ''REF_NOT_FOUND'' ''Source branch not found'')
           (\<lambda>sourceRef. reply_result (CommitStore_GetRef projectID (br_Name req) ''branch'')
             (\<lambda>_. do {
               now \<leftarrow> time_Now;
               refID \<leftarrow> GenerateUUID;
               let ref = \<lparr>r_ID = refID, r_ProjectID = projectID, r_Name = br_Name req,
                 r_Type = ''branch'', r_CommitID = r_CommitID sourceRef, r_UpdatedAt = now\<rparr>;
               reply_result (CommitStore_UpsertRef ref)
                 (\<lambda>_. writeErrorJSON StatusInternalServerError ''INTERNAL_ERROR'' ''Failed to create branch'')
                 (\<lambda>_. writeJSON StatusCreated ref)
             })
             (\<lambda>_. writeErrorJSON StatusConflict ''BRANCH_EXISTS'' ''Branch already exists'')))"

record AnalyzeRequest =
  an_SourceBranch :: string
  an_TargetBranch :: string

definition MergeHandler_AnalyzeMerge :: "string \<Rightarrow> AnalyzeRequest option \<Rightarrow> MergeAnalysis reply io" where
  "MergeHandler_AnalyzeMerge projectID body = (case body of
     None \<Rightarrow> writeErrorJSON StatusBadRequest ''INVALID_REQUEST'' ''Invalid JSON body''
   | Some req \<Rightarrow>
       if an_SourceBranch req = '''' \<or> an_TargetBranch req = ''''
       then writeErrorJSON StatusBadRequest ''MISSING_FIELDS'' ''source_branch and target_branch are required''
       else reply_result (Analyze projectID (an_SourceBranch req) (an_TargetBranch req))
         (\<lambda>err.
           if errors_Is err ErrSameBranch
           then writeErrorJSON StatusBadRequest ''SAME_BRANCH'' ''Cannot merge a branch into itself''
           else if errors_Is err ErrNoMergeBase
           then writeErrorJSON StatusConflict ''NO_MERGE_BASE'' ''Branches have no common ancestor''
           else writeErrorJSON StatusInternalServerError ''INTERNAL_ERROR'' ''Failed to analyze merge'')
         (\<lambda>analysis. writeJSON StatusOK analysis))"

record ExecuteRequest =
  ex_SourceBranch :: string
  ex_TargetBranch :: string
  ex_Message :: string
  ex_Resolutions :: "MergeResolution list"

definition MergeHandler_ExecuteMerge :: "string \<Rightarrow> string \<Rightarrow> ExecuteRequest option \<Rightarrow> Commit reply io" where
  "MergeHandler_ExecuteMerge projectID userID body = (case body of
     None \<Rightarrow> writeErrorJSON StatusBadRequest ''INVALID_REQUEST'' ''Invalid JSON body''
   | Some req \<Rightarrow>
       if ex_SourceBranch req = '''' \<or> ex_TargetBranch req = ''''
       then writeErrorJSON StatusBadRequest ''MISSING_FIELDS'' ''source_branch and target_branch are required''
       else reply_outcome (Execute projectID (ex_SourceBranch req) (ex_TargetBranch req) userID
           (ex_Message req) (ex_Resolutions req))
         (\<lambda>err.
           if errors_Is err ErrUnresolvedConflicts
           then writeErrorJSON StatusConflict ''UNRESOLVED_CONFLICTS''
             (''Merge has unresolved conflicts '' @ em_dash @ '' analyze first and provide resolutions'')
           else if errors_Is err ErrInvalidResolution
           then writeErrorJSON StatusBadRequest ''INVALID_RESOLUTION'' (error_Error err)
           else if errors_Is err ErrSameBranch
           then writeErrorJSON StatusBadRequest ''SAME_BRANCH'' ''Cannot merge a branch into itself''
           else writeErrorJSON StatusInternalServerError ''INTERNAL_ERROR'' ''Failed to execute merge'')
         (\<lambda>commit. writeJSON StatusOK commit))"

end
