(* ===== verification/Version_Proofs.thy ===== *)
theory Version_Proofs
  imports Version_Service
begin

text \<open>
  What \<open>CreateCommit\<close> does to the tables: the loop over the pushed files, the snapshot and
  the ref, each with the invariants it keeps, for every behaviour of the store.
\<close>

section \<open>Manifests\<close>

text \<open>
  The chunk list of a path: the file row of the path, the version that the snapshot names for
  it, and the chunk hashes of that version.
\<close>

definition version_manifest :: "db \<Rightarrow> string \<Rightarrow> string list option" where
  "version_manifest d v = Option.bind (row_at fv_ID v (file_versions d)) fv_ChunkHashes"

definition manifest_by :: "db \<Rightarrow> string \<Rightarrow> (string \<rightharpoonup> string) \<Rightarrow> string \<Rightarrow> string list option" where
  "manifest_by d project versions path =
     Option.bind (row_at f_key (project, path) (files d)) (\<lambda>f.
       Option.bind (versions (f_ID f)) (version_manifest d))"

definition manifest :: "db \<Rightarrow> string \<Rightarrow> string \<Rightarrow> string \<Rightarrow> string list option" where
  "manifest d project cid path = manifest_by d project (snap d cid) path"

text \<open>The last entry a request has for a path.\<close>

definition pushed :: "CommitFileEntry list \<Rightarrow> string \<Rightarrow> CommitFileEntry option" where
  "pushed fs path = row_at ce_Path path (rev fs)"

lemma pushed_Nil [simp]: "pushed [] path = None"
  by (simp add: pushed_def)

lemma pushed_Cons:
  "pushed (f # fs) path =
    (case pushed fs path of Some e \<Rightarrow> Some e | None \<Rightarrow> if ce_Path f = path then Some f else None)"
  by (simp add: pushed_def row_at_append split: option.splits)

section \<open>The snapshot map of a commit in progress\<close>

definition map_versions :: "(string, CommitFile) gomap \<Rightarrow> string \<rightharpoonup> string" where
  "map_versions m k = map_option cf_FileVersionID (map_of m k)"

definition map_typed :: "db \<Rightarrow> (string, CommitFile) gomap \<Rightarrow> bool" where
  "map_typed d m \<longleftrightarrow> distinct (map fst m) \<and> (\<forall>k cf. map_of m k = Some cf \<longrightarrow>
     cf_FileID cf = k \<and> (\<exists>fv \<in> set (file_versions d). fv_ID fv = cf_FileVersionID cf \<and> fv_FileID fv = k))"

lemma map_typed_Nil [simp]: "map_typed d []"
  by (simp add: map_typed_def)

lemma map_versions_update:
  "map_versions (AList.update k cf m) = (map_versions m)(k \<mapsto> cf_FileVersionID cf)"
  by (auto simp: map_versions_def update_conv' fun_eq_iff)

lemma map_typedD:
  assumes "map_typed d m" "map_versions m k = Some v"
  shows "\<exists>fv \<in> set (file_versions d). fv_ID fv = v \<and> fv_FileID fv = k"
proof -
  from assms(2) obtain cf where cf: "map_of m k = Some cf" "v = cf_FileVersionID cf"
    by (auto simp: map_versions_def)
  with assms(1) show ?thesis unfolding map_typed_def by blast
qed

lemma map_typed_mono:
  "map_typed d m \<Longrightarrow> set (file_versions d) \<subseteq> set (file_versions d') \<Longrightarrow> map_typed d' m"
  unfolding map_typed_def by blast

lemma map_typed_update:
  assumes "map_typed d m" "fv \<in> set (file_versions d)" "fv_ID fv = cf_FileVersionID cf"
    "fv_FileID fv = cf_FileID cf"
  shows "map_typed d (AList.update (cf_FileID cf) cf m)"
  using assms by (auto simp: map_typed_def distinct_update update_conv')

text \<open>The map built from the rows of a commit.\<close>

definition snapshot_map :: "db \<Rightarrow> string \<Rightarrow> (string, CommitFile) gomap" where
  "snapshot_map d p = gomap_of cf_FileID (\<lambda>cf. cf) (filter (\<lambda>cf. cf_CommitID cf = p) (commit_files d)) []"

lemma map_of_snapshot_map:
  assumes "distinct (map cf_key (commit_files d))"
  shows "map_of (snapshot_map d p) k = row_at cf_key (p, k) (commit_files d)"
proof -
  let ?rows = "filter (\<lambda>cf. cf_CommitID cf = p) (commit_files d)"
  have dist: "distinct (map cf_FileID ?rows)"
    using assms by (auto simp: distinct_map cf_key_def inj_on_def distinct_map_filter)
  have "row_at cf_FileID k (filter (\<lambda>cf. cf_CommitID cf = p) rows) = row_at cf_key (p, k) rows" for rows
    by (induction rows) (auto simp: cf_key_def)
  then show ?thesis
    using map_of_gomap_of_distinct [OF dist, of "\<lambda>cf. cf" "[]" k]
    by (simp add: snapshot_map_def split: option.splits)
qed

lemma map_typed_snapshot_map:
  assumes "db_ok d"
  shows "map_typed d (snapshot_map d p)"
proof -
  have dist: "distinct (map cf_key (commit_files d))" and typed: "snapshot_typed d"
    using assms by (simp_all add: db_ok_def schema_okD history_ok_def)
  have "distinct (map fst (snapshot_map d p))"
    unfolding snapshot_map_def by (rule distinct_gomap_of) simp
  moreover have "cf_FileID cf = k \<and> cf \<in> set (commit_files d)"
    if "map_of (snapshot_map d p) k = Some cf" for k cf
    using that by (auto simp: map_of_snapshot_map [OF dist] cf_key_def dest: row_at_SomeD)
  ultimately show ?thesis
    using typed unfolding map_typed_def snapshot_typed_def by blast
qed

lemma map_versions_snapshot_map:
  assumes "db_ok d"
  shows "map_versions (snapshot_map d p) = snap d p"
  using assms by (simp add: fun_eq_iff map_versions_def snap_def map_of_snapshot_map db_ok_def schema_okD)

section \<open>One file\<close>

text \<open>Only files and versions grow, and the new versions belong to the commit.\<close>

definition versions_frame :: "string \<Rightarrow> db \<Rightarrow> db \<Rightarrow> bool" where
  "versions_frame cid d d' \<longleftrightarrow> (\<exists>fs vs.
     d' = d\<lparr>files := files d @ fs, file_versions := file_versions d @ vs\<rparr> \<and> (\<forall>v \<in> set vs. fv_CommitID v = cid))"

lemma versions_frame_refl [simp]: "versions_frame cid d d"
  unfolding versions_frame_def by (intro exI [of _ "[]"]) simp

lemma versions_frame_trans:
  assumes "versions_frame cid d1 d2" "versions_frame cid d2 d3"
  shows "versions_frame cid d1 d3"
proof -
  from assms(1) obtain fs vs where
    2: "d2 = d1\<lparr>files := files d1 @ fs, file_versions := file_versions d1 @ vs\<rparr>" "\<forall>v \<in> set vs. fv_CommitID v = cid"
    by (auto simp: versions_frame_def)
  from assms(2) obtain fs' vs' where
    3: "d3 = d2\<lparr>files := files d2 @ fs', file_versions := file_versions d2 @ vs'\<rparr>" "\<forall>v \<in> set vs'. fv_CommitID v = cid"
    by (auto simp: versions_frame_def)
  show ?thesis
    unfolding versions_frame_def
    by (rule exI [of _ "fs @ fs'"], rule exI [of _ "vs @ vs'"]) (use 2 3 in auto)
qed

lemma versions_frameD:
  assumes "versions_frame cid d d'"
  shows "commits d' = commits d" "commit_files d' = commit_files d" "refs d' = refs d"
    "projects d' = projects d" "users d' = users d" "chunks d' = chunks d" "locks d' = locks d"
    "set (files d) \<subseteq> set (files d')" "set (file_versions d) \<subseteq> set (file_versions d')"
  using assms by (auto simp: versions_frame_def)

lemma upsert_file_frame:
  assumes "sql_upsert_file f d = Inr (x, d')"
  shows "versions_frame cid d d'"
proof -
  have "d' = d\<lparr>files := upsert_row f_key keep_row f (files d)\<rparr>"
    using assms by (simp add: sql_upsert_file_Inr)
  then show ?thesis
    unfolding versions_frame_def upsert_keep_row
    by (intro exI [of _ "if f_key f \<in> f_key ` set (files d) then [] else [f]"] exI [of _ "[]"]) simp
qed

lemma insert_version_frame:
  assumes "sql_insert_version fv d = Inr (x, d')"
  shows "versions_frame (fv_CommitID fv) d d'"
  using assms unfolding sql_insert_version_Inr versions_frame_def
  by (intro exI [of _ "[]"] exI [of _ "[fv]"]) simp

text \<open>
  The manifests after one file: the path has the chunks of the entry, every other path is as
  before.
\<close>

lemma manifest_step:
  assumes ok: "db_ok d" and typed: "map_typed d m"
    and up: "sql_upsert_file f d = Inr (x, d1)"
    and row: "row_at f_key (f_key f) (files d1) = Some e"
    and ins: "sql_insert_version fv d1 = Inr (y, d2)" and fid: "fv_FileID fv = f_ID e"
    and cf: "cf_FileVersionID cf = fv_ID fv" "cf_FileID cf = f_ID e"
  shows "manifest_by d2 (f_ProjectID f) (map_versions (AList.update (f_ID e) cf m)) path =
    (if path = f_Path f then fv_ChunkHashes fv else manifest_by d (f_ProjectID f) (map_versions m) path)"
proof -
  let ?p = "f_ProjectID f"
  have d2: "files d2 = files d1" "file_versions d2 = file_versions d1 @ [fv]"
    and d1: "file_versions d1 = file_versions d"
      "files d1 = upsert_row f_key keep_row f (files d)"
    and new: "fv_ID fv \<notin> fv_ID ` set (file_versions d)"
    using up ins by (auto simp: sql_upsert_file_Inr sql_insert_version_Inr)
  have "distinct (map f_ID (files d1))"
    using upsert_file_ok [OF ok up] by (simp add: db_ok_def schema_okD)
  then have inj: "inj_on f_ID (set (files d1))" by (simp add: distinct_map)
  have manifest_new: "version_manifest d2 (fv_ID fv) = fv_ChunkHashes fv"
  proof -
    from new have "row_at fv_ID (fv_ID fv) (file_versions d) = None" by (simp add: row_at_None)
    then show ?thesis by (simp add: version_manifest_def d2 d1 row_at_append)
  qed
  show ?thesis
  proof (cases "path = f_Path f")
    case True
    then have "(?p, path) = f_key f" by (simp add: f_key_def)
    then show ?thesis
      using row True cf manifest_new by (simp add: manifest_by_def d2 map_versions_update)
  next
    case False
    then have "(?p, path) \<noteq> f_key f" by (simp add: f_key_def)
    then have same: "row_at f_key (?p, path) (files d2) = row_at f_key (?p, path) (files d)"
      by (simp add: d2 d1 row_at_upsert)
    show ?thesis
    proof (cases "row_at f_key (?p, path) (files d)")
      case None
      with same False show ?thesis by (simp add: manifest_by_def)
    next
      case (Some g)
      from Some same d2(1) have "row_at f_key (?p, path) (files d1) = Some g" by simp
      from row_at_SomeD [OF this] row_at_SomeD [OF row]
      have "g \<in> set (files d1)" "f_key g = (?p, path)" "e \<in> set (files d1)" "f_key e = f_key f"
        by blast+
      with \<open>(?p, path) \<noteq> f_key f\<close> have neq: "f_ID g \<noteq> f_ID e"
        using inj_onD [OF inj, of g e] by metis
      have old: "version_manifest d2 v = version_manifest d v" if "map_versions m (f_ID g) = Some v" for v
      proof -
        from map_typedD [OF typed that] obtain u where "u \<in> set (file_versions d)" "fv_ID u = v"
          by blast
        then have "row_at fv_ID v (file_versions d) \<noteq> None" by (auto simp: row_at_None)
        then show ?thesis
          by (auto simp: version_manifest_def d2 d1 row_at_append split: option.splits)
      qed
      then show ?thesis
        using Some same False neq
        by (cases "map_versions m (f_ID g)") (simp_all add: manifest_by_def map_versions_update)
    qed
  qed
qed


section \<open>The loop over the pushed files\<close>

text \<open>
  What the loop guarantees when it stops with result \<open>r\<close> in \<open>w'\<close>, however the store behaved:
  invariants and frame always; the typed snapshot map, the collected hashes and the
  manifests on success.
\<close>

definition loop_post ::
    "string \<Rightarrow> string \<Rightarrow> CommitFileEntry list \<Rightarrow> (string, CommitFile) gomap \<Rightarrow> string list \<Rightarrow> world
      \<Rightarrow> ((string, CommitFile) gomap \<times> string list) result \<Rightarrow> world \<Rightarrow> bool" where
  "loop_post p cid fs m hs w r w' \<longleftrightarrow> db_ok (w_db w') \<and> versions_frame cid (w_db w) (w_db w') \<and> same_env w w'
     \<and> (case r of Inl _ \<Rightarrow> True | Inr (m', hs') \<Rightarrow>
          map_typed (w_db w') m' \<and> hs' = hs @ concat (map (\<lambda>e. slice (ce_ChunkHashes e)) fs)
          \<and> None \<notin> ce_ChunkHashes ` set fs
          \<and> (\<forall>path. manifest_by (w_db w') p (map_versions m') path =
               (case pushed fs path of Some e \<Rightarrow> ce_ChunkHashes e
                | None \<Rightarrow> manifest_by (w_db w) p (map_versions m) path)))"

lemma loop_post_Inl:
  "db_ok (w_db w') \<Longrightarrow> versions_frame cid (w_db w) (w_db w') \<Longrightarrow> same_env w w' \<Longrightarrow>
    loop_post p cid fs m hs w (Inl e) w'"
  by (simp add: loop_post_def)

text \<open>One iteration, then the rest.\<close>

lemma loop_post_step:
  assumes rest: "loop_post p cid fs m2 (hs @ slice (ce_ChunkHashes f)) w2 r w'"
    and frame: "versions_frame cid (w_db w) (w_db w2)" and env: "same_env w w2"
    and hashes: "ce_ChunkHashes f \<noteq> None"
    and step: "\<And>path. manifest_by (w_db w2) p (map_versions m2) path =
      (if path = ce_Path f then ce_ChunkHashes f else manifest_by (w_db w) p (map_versions m) path)"
  shows "loop_post p cid (f # fs) m hs w r w'"
proof -
  have "versions_frame cid (w_db w) (w_db w')" "same_env w w'"
    using rest frame env by (auto simp: loop_post_def intro: versions_frame_trans same_env_trans)
  then show ?thesis
  proof (cases r)
    case (Inr q)
    then obtain m' hs' where q: "r = Inr (m', hs')" by (cases q) simp
    have "manifest_by (w_db w') p (map_versions m') path =
        (case pushed (f # fs) path of Some e \<Rightarrow> ce_ChunkHashes e
         | None \<Rightarrow> manifest_by (w_db w) p (map_versions m) path)" for path
      using rest q step [of path] by (cases "pushed fs path") (auto simp: loop_post_def pushed_Cons)
    then show ?thesis
      using \<open>versions_frame cid (w_db w) (w_db w')\<close> \<open>same_env w w'\<close> rest hashes q
      by (auto simp: loop_post_def)
  qed (use rest in \<open>simp add: loop_post_def\<close>)
qed

lemma commit_files_loop_spec:
  assumes "db_ok (w_db w)" "map_typed (w_db w) m"
  shows "wp (commit_files_loop p cid now fs m hs) (loop_post p cid fs m hs w) w"
  using assms
proof (induction fs arbitrary: m hs w)
  case Nil
  then show ?case by (simp add: wp_simps loop_post_def)
next
  case (Cons f fs)
  show ?case
    unfolding commit_files_loop.simps FileStore_Upsert_def FileStore_GetByPath_def FileStore_CreateVersion_def
  proof (intro wp_bindI wp_generateUUIDI wp_go_tryI wp_db_execI, goal_cases)
    case (1 fid w0 e w1)
    with Cons.prems show ?case
      by (auto intro!: loop_post_Inl intro: same_env_trans)
  next
    case (2 fid w0 u w1)
    let ?f = "\<lparr>f_ID = fid, f_ProjectID = p, f_Path = ce_Path f, f_CreatedAt = now\<rparr>"
    have up: "sql_upsert_file ?f (w_db w) = Inr (u, w_db w1)" using 2 by simp
    have ok1: "db_ok (w_db w1)" using Cons.prems(1) up by (rule upsert_file_ok)
    have frame1: "versions_frame cid (w_db w) (w_db w1)" using up by (rule upsert_file_frame)
    have env1: "same_env w w1" using 2 by (auto intro: same_env_trans)
    show ?case
      unfolding sum.case
    proof (intro wp_go_tryI wp_db_queryI, goal_cases)
      case (1 e w2)
      with ok1 frame1 env1 show ?case by (auto intro!: loop_post_Inl intro: same_env_trans)
    next
      case (2 row w2)
      have row: "row_at f_key (f_key ?f) (files (w_db w1)) = Some row"
        using 2(1) by (auto simp: f_key_def split: option.splits)
      show ?case
        unfolding sum.case
      proof (intro wp_bindI wp_generateUUIDI wp_go_tryI wp_db_execI, goal_cases)
        case (1 vid w3 e w4)
        with 2 ok1 frame1 env1 show ?case by (auto intro!: loop_post_Inl intro: same_env_trans)
      next
        case (2 vid w3 y w4)
        let ?fv = "\<lparr>fv_ID = vid, fv_FileID = f_ID row, fv_CommitID = cid, fv_TotalSize = ce_TotalSize f,
          fv_ChunkCount = int (length (slice (ce_ChunkHashes f))), fv_ChunkHashes = ce_ChunkHashes f,
          fv_CreatedAt = now\<rparr>"
        let ?cf = "\<lparr>cf_CommitID = cid, cf_FileID = f_ID row, cf_FileVersionID = vid\<rparr>"
        let ?m = "AList.update (f_ID row) ?cf m"
        have ins: "sql_insert_version ?fv (w_db w1) = Inr (y, w_db w4)" 
          using 2 \<open>w_db w2 = w_db w1\<close> by simp
        have ok: "db_ok (w_db w4)" using insert_version_ok [OF ok1 ins] 2(3) by simp
        have frame: "versions_frame cid (w_db w) (w_db w4)"
          using frame1 insert_version_frame [OF ins] by (auto intro: versions_frame_trans)
        have env: "same_env w w4"
          using env1 2 \<open>same_env w1 w2\<close> by (blast intro: same_env_trans)
        have typed: "map_typed (w_db w4) ?m"
        proof -
          have "map_typed (w_db w4) m"
            using Cons.prems(2) versions_frameD(9) [OF frame] by (rule map_typed_mono)
          moreover have "?fv \<in> set (file_versions (w_db w4))"
            using ins by (simp add: sql_insert_version_Inr)
          ultimately show ?thesis using map_typed_update [of "w_db w4" m ?fv ?cf] by simp
        qed
        have step: "manifest_by (w_db w4) p (map_versions ?m) path =
            (if path = ce_Path f then ce_ChunkHashes f else manifest_by (w_db w) p (map_versions m) path)" for path
          using manifest_step [OF Cons.prems up row ins, of ?cf path] by simp
        have "wp (commit_files_loop p cid now fs ?m (hs @ slice (ce_ChunkHashes f)))
            (loop_post p cid fs ?m (hs @ slice (ce_ChunkHashes f)) w4) w4"
          using ok typed by (rule Cons.IH)
        then have "wp (commit_files_loop p cid now fs ?m (hs @ slice (ce_ChunkHashes f)))
            (loop_post p cid (f # fs) m hs w) w4"
          by (rule wp_mono)
            (erule loop_post_step, use frame env step ins in \<open>auto simp: sql_insert_version_Inr\<close>)
        then show ?case by simp
      qed
    qed
  qed
qed

end
