(* ===== verification/Commit_Proofs.thy ===== *)
theory Commit_Proofs
  imports Version_Proofs
begin

text \<open>
  \<open>CreateCommit\<close> as a whole: the snapshot, reference count and ref writes after the loop, the
  parent check, and one postcondition, \<open>commit_post\<close>, that holds for every behaviour of the
  store.
\<close>

section \<open>Refs and reference counts as maps\<close>

definition ref_target :: "db \<Rightarrow> string \<times> string \<times> string \<rightharpoonup> string" where
  "ref_target d k = map_option r_CommitID (row_at r_key k (refs d))"

lemma head_of_ref_target: "head_of d p n = ref_target d (p, n, ''branch'')"
  by (simp add: head_of_def ref_target_def)

lemma ref_target_cong: "refs d' = refs d \<Longrightarrow> ref_target d' = ref_target d"
  by (simp add: ref_target_def fun_eq_iff)

lemma ref_target_simps [simp]:
  "ref_target (d\<lparr>commits := x1\<rparr>) = ref_target d" "ref_target (d\<lparr>commit_files := x2\<rparr>) = ref_target d"
  "ref_target (d\<lparr>chunks := x3\<rparr>) = ref_target d" "ref_target (d\<lparr>files := x4\<rparr>) = ref_target d"
  "ref_target (d\<lparr>file_versions := x5\<rparr>) = ref_target d" "ref_target (d\<lparr>locks := x6\<rparr>) = ref_target d"
  by (simp_all add: ref_target_def fun_eq_iff)

lemma ref_target_upsert:
  assumes "sql_upsert_ref r d = Inr ((), d')"
  shows "ref_target d' = (ref_target d)(r_key r \<mapsto> r_CommitID r)"
proof
  fix k
  show "ref_target d' k = ((ref_target d)(r_key r \<mapsto> r_CommitID r)) k"
    using ref_table.last_writer_wins [OF assms] ref_table.lookup_other [OF assms, of k]
    by (simp add: ref_target_def)
qed

definition ref_count :: "db \<Rightarrow> string \<rightharpoonup> int" where
  "ref_count d h = map_option ch_RefCount (row_at ch_Hash h (chunks d))"

lemma ref_count_add:
  assumes "sql_add_ref_count n hashes d = Inr (x, d')"
  shows "ref_count d' h = map_option (\<lambda>k. if h \<in> set hashes then k + n else k) (ref_count d h)"
  by (simp add: ref_count_def row_at_add_ref_count [OF assms] option.map_comp comp_def if_distrib cong: if_cong)

section \<open>Writing the snapshot and the ref\<close>

lemma row_at_keys:
  "row_at cf_key (c, f) (map (\<lambda>k. \<lparr>cf_CommitID = cid, cf_FileID = k, cf_FileVersionID = v k\<rparr>) ks) =
    (if c = cid \<and> f \<in> set ks then Some \<lparr>cf_CommitID = cid, cf_FileID = f, cf_FileVersionID = v f\<rparr> else None)"
  by (induction ks) (auto simp: cf_key_def)

text \<open>
  A snapshot map whose keys are the files and that names, if it names an existing version at
  all, a version of the file: what a successful write needs. (A resolution of a merge may name
  no version; then the foreign key stops the write.)
\<close>

definition map_sound :: "db \<Rightarrow> (string, CommitFile) gomap \<Rightarrow> bool" where
  "map_sound d m \<longleftrightarrow> distinct (map fst m) \<and> (\<forall>k cf. map_of m k = Some cf \<longrightarrow>
     cf_FileID cf = k \<and> (\<forall>fv \<in> set (file_versions d). fv_ID fv = cf_FileVersionID cf \<longrightarrow> fv_FileID fv = k))"

lemma map_typed_sound:
  assumes "db_ok d" "map_typed d m"
  shows "map_sound d m"
proof -
  have "distinct (map fv_ID (file_versions d))" using assms(1) by (simp add: db_ok_def schema_okD)
  then have "fv = fv'" if "fv \<in> set (file_versions d)" "fv' \<in> set (file_versions d)" "fv_ID fv = fv_ID fv'" for fv fv'
    using that by (auto simp: distinct_map inj_on_def)
  with assms(2) show ?thesis unfolding map_typed_def map_sound_def by metis
qed

lemma map_soundD:
  assumes "map_sound d m" "map_versions m k = Some v" "fv \<in> set (file_versions d)" "fv_ID fv = v"
  shows "fv_FileID fv = k"
proof -
  from assms(2) obtain cf where "map_of m k = Some cf" "v = cf_FileVersionID cf"
    by (auto simp: map_versions_def)
  with assms show ?thesis unfolding map_sound_def by blast
qed

text \<open>The rows that \<open>SetCommitFiles\<close> inserts for a snapshot map.\<close>

lemma snapshot_insert_rows:
  assumes "map_sound d m" "mset ks = mset (map fst m)"
  shows "map (\<lambda>e. \<lparr>cf_CommitID = cid, cf_FileID = cf_FileID e, cf_FileVersionID = cf_FileVersionID e\<rparr>)
      (snapshot_rows cid m ks) =
    map (\<lambda>k. \<lparr>cf_CommitID = cid, cf_FileID = k, cf_FileVersionID = the (map_versions m k)\<rparr>) ks"
proof -
  have keys: "set ks = fst ` set m" using assms(2) by (metis set_map set_mset_mset)
  have "cf_FileID (the (map_of m k)) = k \<and> cf_FileVersionID (the (map_of m k)) = the (map_versions m k)"
    if "k \<in> set ks" for k
  proof -
    from that keys obtain cf where cf: "map_of m k = Some cf"
      by (metis domD dom_map_of_conv_image_fst)
    with assms(1) show ?thesis unfolding map_sound_def map_versions_def by fastforce
  qed
  then show ?thesis by (simp add: snapshot_rows_def)
qed

lemma set_commit_files_effect:
  assumes ok: "db_ok d" and sound: "map_sound d m" and ks: "mset ks = mset (map fst m)"
    and up: "sql_upsert_commit_files
      (map (\<lambda>k. \<lparr>cf_CommitID = cid, cf_FileID = k, cf_FileVersionID = the (map_versions m k)\<rparr>) ks) d = Inr (x, d')"
    and fresh: "snap d cid = Map.empty"
  shows "db_ok d'" and "snap d' = (snap d)(cid := map_versions m)"
proof -
  let ?rows = "map (\<lambda>k. \<lparr>cf_CommitID = cid, cf_FileID = k, cf_FileVersionID = the (map_versions m k)\<rparr>) ks"
  have "set ks = fst ` set m" using ks by (metis set_map set_mset_mset)
  then have keys: "map_versions m k \<noteq> None \<longleftrightarrow> k \<in> set ks" for k
    by (simp add: map_versions_def map_of_eq_None_iff)
  have typed: "\<exists>fv \<in> set (file_versions d). fv_ID fv = the (map_versions m k) \<and> fv_FileID fv = k"
    if "k \<in> set ks" for k
  proof -
    from that keys [of k] obtain v where v: "map_versions m k = Some v" by auto
    moreover from up that obtain fv where "fv \<in> set (file_versions d)" "fv_ID fv = the (map_versions m k)"
      by (auto simp: sql_upsert_commit_files_Inr)
    ultimately show ?thesis using map_soundD [OF sound v, of fv] by auto
  qed
  show "db_ok d'"
    using ok up by (rule upsert_commit_files_ok) (use typed in auto)
  have "snap d' c f = ((snap d)(cid := map_versions m)) c f" for c f
    using snap_upsert_commit_files [OF up, of c f] keys [of f] fresh
    by (cases "map_versions m f") (auto simp: row_at_keys)
  then show "snap d' = (snap d)(cid := map_versions m)" by (simp add: fun_eq_iff)
qed

text \<open>The state after the snapshot, before counts and ref.\<close>

definition snapshot_done :: "string \<Rightarrow> (string, CommitFile) gomap \<Rightarrow> world \<Rightarrow> world \<Rightarrow> bool" where
  "snapshot_done cid m w w' \<longleftrightarrow> db_ok (w_db w') \<and> same_env w w' \<and>
     (\<exists>rows. w_db w' = (w_db w)\<lparr>commit_files := rows\<rparr>) \<and> snap (w_db w') = (snap (w_db w))(cid := map_versions m)"

lemma wp_SetCommitFiles:
  assumes ok: "db_ok (w_db w)" and sound: "map_sound (w_db w) m" and ks: "mset ks = mset (map fst m)"
    and fresh: "snap (w_db w) cid = Map.empty"
    and err: "\<And>e w'. w_db w' = w_db w \<Longrightarrow> same_env w w' \<Longrightarrow> Q (Inl e) w'"
    and don: "\<And>w'. snapshot_done cid m w w' \<Longrightarrow> Q (Inr ()) w'"
  shows "wp (CommitStore_SetCommitFiles cid (snapshot_rows cid m ks)) Q w"
proof (cases "ks = []")
  case True
  then have "m = []" using ks by simp
  then have "map_versions m = Map.empty" by (simp add: map_versions_def fun_eq_iff)
  then have "snapshot_done cid m w w"
    using ok fresh unfolding snapshot_done_def
    by (auto simp: fun_eq_iff intro: exI [of _ "commit_files (w_db w)"])
  then show ?thesis
    using True don by (simp add: CommitStore_SetCommitFiles_def snapshot_rows_def wp_simps)
next
  case False
  then have ne: "snapshot_rows cid m ks \<noteq> []" by (simp add: snapshot_rows_def)
  show ?thesis
    unfolding CommitStore_SetCommitFiles_def snapshot_insert_rows [OF sound ks] if_not_P [OF ne]
  proof (intro wp_db_execI err, goal_cases)
    case (3 x w')
    have "snapshot_done cid m w w'"
      using set_commit_files_effect(1,2) [OF ok sound ks 3(1) fresh] 3
      by (auto simp: snapshot_done_def sql_upsert_commit_files_Inr)
    then show ?case using don by simp
  qed
qed

lemma wp_count_chunks:
  assumes "db_ok (w_db w)"
    and err: "\<And>e w'. w_db w' = w_db w \<Longrightarrow> same_env w w' \<Longrightarrow> Q (Inl e) w'"
    and don: "\<And>w' cs. db_ok (w_db w') \<Longrightarrow> same_env w w' \<Longrightarrow> w_db w' = (w_db w)\<lparr>chunks := cs\<rparr> \<Longrightarrow>
      (\<And>h. ref_count (w_db w') h = map_option (\<lambda>k. if h \<in> set hs then k + 1 else k) (ref_count (w_db w) h)) \<Longrightarrow>
      Q (Inr ()) w'"
  shows "wp (count_chunks hs) Q w"
proof (cases "hs = []")
  case True
  then show ?thesis
    using don [of w "chunks (w_db w)"] assms(1) by (simp add: count_chunks_def wp_simps option.map_ident)
next
  case False
  then have call: "count_chunks hs = db_exec (sql_add_ref_count 1 hs)"
    by (simp add: count_chunks_def ChunkStore_IncrementRefCount_def)
  show ?thesis
    unfolding call
  proof (intro wp_db_execI err, goal_cases)
    case (3 x w')
    show ?case
      using don [of w'] add_ref_count_ok [OF assms(1) 3(1)] ref_count_add [OF 3(1)] sql_add_ref_count_Inr [OF 3(1)] 3(2)
      by simp
  qed
qed

lemma wp_advance_ref:
  assumes "db_ok (w_db w)"
    and "\<exists>c \<in> set (commits (w_db w)). c_ID c = cid \<and> c_ProjectID c = cr_ProjectID req"
    and err: "\<And>e w'. w_db w' = w_db w \<Longrightarrow> same_env w w' \<Longrightarrow> Q (Inl e) w'"
    and don: "\<And>w' rs. db_ok (w_db w') \<Longrightarrow> same_env w w' \<Longrightarrow> w_db w' = (w_db w)\<lparr>refs := rs\<rparr> \<Longrightarrow>
      ref_target (w_db w') = (if cr_Ref req = '''' then ref_target (w_db w)
        else (ref_target (w_db w))((cr_ProjectID req, cr_Ref req, ''branch'') \<mapsto> cid)) \<Longrightarrow> Q (Inr ()) w'"
  shows "wp (advance_ref req cid now) Q w"
proof (cases "cr_Ref req = ''''")
  case True
  then show ?thesis
    using don [of w "refs (w_db w)"] assms(1) by (simp add: advance_ref_def wp_simps)
next
  case False
  show ?thesis
    unfolding advance_ref_def if_P [OF False] CommitStore_UpsertRef_def
  proof (intro wp_bindI wp_generateUUIDI wp_db_execI, goal_cases)
    case (1 i w0 e w')
    then show ?case by (auto intro!: err intro: same_env_trans)
  next
    case (2 i w0 x w')
    let ?r = "\<lparr>r_ID = i, r_ProjectID = cr_ProjectID req, r_Name = cr_Ref req, r_Type = ''branch'',
      r_CommitID = cid, r_UpdatedAt = now\<rparr>"
    have up: "sql_upsert_ref ?r (w_db w) = Inr ((), w_db w')" using 2 by simp
    have "db_ok (w_db w')" using upsert_ref_ok [OF assms(1) up] assms(2) by simp
    moreover have "ref_target (w_db w') = (ref_target (w_db w))((cr_ProjectID req, cr_Ref req, ''branch'') \<mapsto> cid)"
      using ref_target_upsert [OF up] by (simp add: r_key_def)
    moreover have "same_env w w'" using 2 by (blast intro: same_env_trans)
    moreover from up have "w_db w' = (w_db w)\<lparr>refs := upsert_row r_key r_overwrite ?r (refs (w_db w))\<rparr>"
      unfolding sql_upsert_ref_Inr by blast
    ultimately have "Q (Inr ()) w'" using don False by simp
    then show ?case by simp
  qed
qed

text \<open>What \<open>commit_finish\<close> guarantees, however the store behaved.\<close>

definition finish_post ::
    "CommitRequest \<Rightarrow> string \<Rightarrow> (string, CommitFile) gomap \<Rightarrow> string list \<Rightarrow> world
      \<Rightarrow> CommitResult result \<Rightarrow> world \<Rightarrow> bool" where
  "finish_post req cid m hs w r w' \<longleftrightarrow> db_ok (w_db w') \<and> same_env w w'
     \<and> (\<exists>rows cs rs. w_db w' = (w_db w)\<lparr>commit_files := rows, chunks := cs, refs := rs\<rparr>)
     \<and> (\<forall>c. c \<noteq> cid \<longrightarrow> snap (w_db w') c = snap (w_db w) c)
     \<and> (case r of Inl _ \<Rightarrow> ref_target (w_db w') = ref_target (w_db w)
        | Inr res \<Rightarrow> res = \<lparr>cres_CommitID = cid, cres_Ref = cr_Ref req,
             cres_FilesUpdated = length (cr_Files req), cres_TotalNewChunks = 0\<rparr>
           \<and> snap (w_db w') cid = map_versions m
           \<and> ref_target (w_db w') = (if cr_Ref req = '''' then ref_target (w_db w)
               else (ref_target (w_db w))((cr_ProjectID req, cr_Ref req, ''branch'') \<mapsto> cid))
           \<and> (\<forall>h. ref_count (w_db w') h =
               map_option (\<lambda>k. if h \<in> set hs then k + 1 else k) (ref_count (w_db w) h)))"

lemma commit_finish_spec:
  assumes ok: "db_ok (w_db w)" and typed: "map_typed (w_db w) m"
    and fresh: "snap (w_db w) cid = Map.empty"
    and commit: "\<exists>c \<in> set (commits (w_db w)). c_ID c = cid \<and> c_ProjectID c = cr_ProjectID req"
  shows "wp (commit_finish req cid now m hs) (finish_post req cid m hs w) w"
  unfolding commit_finish_def
proof (intro wp_bindI wp_go_rangeI wp_go_tryI, goal_cases)
  case (1 ks w0)
  show ?case
  proof (rule wp_SetCommitFiles, goal_cases)
    case (5 e w1)
    with 1 ok show ?case
      by (auto simp: finish_post_def intro: same_env_trans
        intro!: exI [of _ "commit_files (w_db w)"] exI [of _ "chunks (w_db w)"] exI [of _ "refs (w_db w)"])
  next
    case (6 w1)
    then obtain rows where d1: "w_db w1 = (w_db w)\<lparr>commit_files := rows\<rparr>" "db_ok (w_db w1)" "same_env w w1"
        "snap (w_db w1) = (snap (w_db w))(cid := map_versions m)"
      using 1 unfolding snapshot_done_def by (metis same_env_trans)
    show ?case
      unfolding sum.case
    proof (intro wp_go_tryI, rule wp_count_chunks [OF d1(2)], goal_cases)
      case (1 e w2)
      with d1 show ?case
        by (auto simp: finish_post_def ref_target_def intro: same_env_trans
          intro!: exI [of _ "rows"] exI [of _ "chunks (w_db w)"] exI [of _ "refs (w_db w)"])
    next
      case (2 w2 cs)
      then have d2: "w_db w2 = (w_db w)\<lparr>commit_files := rows, chunks := cs\<rparr>" "db_ok (w_db w2)" "same_env w w2"
          "snap (w_db w2) = (snap (w_db w))(cid := map_versions m)" 
          "ref_target (w_db w2) = ref_target (w_db w)"
        and counts: "\<And>h. ref_count (w_db w2) h = map_option (\<lambda>k. if h \<in> set hs then k + 1 else k) (ref_count (w_db w) h)"
        using d1 by (auto simp: ref_target_def ref_count_def fun_eq_iff snap_def intro: same_env_trans)
      have commit2: "\<exists>c \<in> set (commits (w_db w2)). c_ID c = cid \<and> c_ProjectID c = cr_ProjectID req"
        using commit d2(1) by simp
      show ?case
        unfolding sum.case
      proof (intro wp_go_tryI, rule wp_advance_ref [OF d2(2) commit2], goal_cases)
        case (1 e w3)
        with d2 show ?case
          by (auto simp: finish_post_def intro: same_env_trans
            intro!: exI [of _ "rows"] exI [of _ "cs"] exI [of _ "refs (w_db w)"])
      next
        case (2 w3 rs)
        have "snap (w_db w3) = snap (w_db w2)" "ref_count (w_db w3) = ref_count (w_db w2)"
          using 2(3) by (simp_all add: snap_def ref_count_def fun_eq_iff)
        with 2 d2 counts show ?case
          by (auto simp: wp_simps finish_post_def intro: same_env_trans
            intro!: exI [of _ "rows"] exI [of _ "cs"] exI [of _ "rs"])
      qed
    qed
  qed (use 1 ok map_typed_sound [OF ok typed] fresh in auto)
qed

section \<open>The whole commit\<close>

text \<open>
  The history that is there stays as it is: commits, files and versions are only appended
  and the snapshot of an old commit does not change.
\<close>

definition history_frame :: "db \<Rightarrow> db \<Rightarrow> bool" where
  "history_frame d d' \<longleftrightarrow> (\<exists>cs. commits d' = commits d @ cs) \<and> (\<exists>fs. files d' = files d @ fs)
     \<and> (\<exists>vs. file_versions d' = file_versions d @ vs)
     \<and> (\<forall>c \<in> set (commits d). snap d' (c_ID c) = snap d (c_ID c))
     \<and> projects d' = projects d \<and> users d' = users d"

lemma history_frame_refl [simp]: "history_frame d d"
  by (simp add: history_frame_def)

lemma history_frame_trans:
  assumes "history_frame d1 d2" "history_frame d2 d3"
  shows "history_frame d1 d3"
proof -
  have "set (commits d1) \<subseteq> set (commits d2)" using assms(1) by (auto simp: history_frame_def)
  then have "\<forall>c \<in> set (commits d1). snap d3 (c_ID c) = snap d1 (c_ID c)"
    using assms by (auto simp: history_frame_def)
  then show ?thesis using assms by (auto simp: history_frame_def)
qed

lemma snap_fresh: "db_ok d \<Longrightarrow> cid \<notin> c_ID ` set (commits d) \<Longrightarrow> snap d cid = Map.empty"
  by (auto simp: fun_eq_iff snap_None db_ok_def schema_ok_def snapshots_ok_def)

definition new_commit :: "CommitRequest \<Rightarrow> string \<Rightarrow> int \<Rightarrow> Commit" where
  "new_commit req cid now = \<lparr>c_ID = cid, c_ProjectID = cr_ProjectID req, c_ParentID = cr_ParentCommitID req,
     c_ParentIDs = (case cr_ParentCommitID req of None \<Rightarrow> [] | Some p \<Rightarrow> [p]),
     c_AuthorID = cr_AuthorID req, c_Message = cr_Message req, c_CreatedAt = now\<rparr>"

definition pushed_hashes :: "CommitRequest \<Rightarrow> string list" where
  "pushed_hashes req = concat (map (\<lambda>e. slice (ce_ChunkHashes e)) (cr_Files req))"

text \<open>The manifests a commit inherits.\<close>

definition inherited :: "db \<Rightarrow> CommitRequest \<Rightarrow> string \<Rightarrow> string list option" where
  "inherited d req path = (case cr_ParentCommitID req of
     None \<Rightarrow> None | Some q \<Rightarrow> manifest d (cr_ProjectID req) q path)"

definition commit_post :: "CommitRequest \<Rightarrow> world \<Rightarrow> CommitResult result \<Rightarrow> world \<Rightarrow> bool" where
  "commit_post req w r w' \<longleftrightarrow> db_ok (w_db w') \<and> same_env w w' \<and> history_frame (w_db w) (w_db w')
     \<and> (case r of Inl _ \<Rightarrow> ref_target (w_db w') = ref_target (w_db w)
        | Inr res \<Rightarrow> (\<exists>now. commits (w_db w') = commits (w_db w) @ [new_commit req (cres_CommitID res) now])
           \<and> cres_CommitID res \<notin> c_ID ` set (commits (w_db w))
           \<and> cres_Ref res = cr_Ref req \<and> cres_FilesUpdated res = length (cr_Files req)
           \<and> None \<notin> ce_ChunkHashes ` set (cr_Files req)
           \<and> (no_faults w \<longrightarrow> (\<forall>path. manifest (w_db w') (cr_ProjectID req) (cres_CommitID res) path =
               (case pushed (cr_Files req) path of Some e \<Rightarrow> ce_ChunkHashes e
                | None \<Rightarrow> inherited (w_db w) req path)))
           \<and> ref_target (w_db w') = (if cr_Ref req = '''' then ref_target (w_db w)
               else (ref_target (w_db w))((cr_ProjectID req, cr_Ref req, ''branch'') \<mapsto> cres_CommitID res))
           \<and> (\<forall>h. ref_count (w_db w') h = map_option
               (\<lambda>k. if h \<in> set (pushed_hashes req) then k + 1 else k) (ref_count (w_db w) h)))"

text \<open>The parent snapshot, or nothing when the read failed.\<close>

lemma wp_parent_snapshot:
  assumes "db_ok (w_db w)"
    and post: "\<And>m w'. w_db w' = w_db w \<Longrightarrow> same_env w w' \<Longrightarrow> map_typed (w_db w) m \<Longrightarrow>
      (no_faults w \<Longrightarrow> map_versions m = (case cr_ParentCommitID req of None \<Rightarrow> Map.empty | Some q \<Rightarrow> snap (w_db w) q)) \<Longrightarrow>
      Q m w'"
  shows "wp (parent_snapshot req) Q w"
proof (cases "cr_ParentCommitID req")
  case None
  have "map_versions [] = Map.empty" by (simp add: map_versions_def fun_eq_iff)
  then show ?thesis
    using None post [of w "[]"] by (simp add: parent_snapshot_def wp_simps)
next
  case (Some q)
  have "Q (snapshot_map (w_db w) q) (next_tick w)"
    using post [of "next_tick w"] Some assms(1)
    by (simp add: map_typed_snapshot_map map_versions_snapshot_map)
  moreover have "Q [] (next_tick w)" if "w_fault w (w_tick w)"
    using that post [of "next_tick w" "[]"] by (auto simp: no_faults_def)
  ultimately show ?thesis
    using Some by (simp add: parent_snapshot_def wp_simps snapshot_map_def)
qed

lemma manifest_by_cong:
  "files d' = files d \<Longrightarrow> file_versions d' = file_versions d \<Longrightarrow> manifest_by d' = manifest_by d"
proof -
  assume same: "files d' = files d" "file_versions d' = file_versions d"
  then have "version_manifest d' = version_manifest d" by (intro ext) (simp add: version_manifest_def)
  with same show ?thesis by (intro ext) (simp only: manifest_by_def)
qed

lemma commit_write_spec:
  assumes ok: "db_ok (w_db w)"
  shows "wp (commit_write req) (commit_post req w) w"
  unfolding commit_write_def Let_def CommitStore_Create_def
proof (intro wp_bindI wp_time_NowI wp_generateUUIDI wp_go_tryI wp_db_execI, goal_cases)
  case (1 now w1 cid w2 e w3)
  then have "w_db w3 = w_db w" "same_env w w3" by (auto intro: same_env_trans)
  then show ?case using ok by (simp add: commit_post_def)
next
  case (2 now w1 cid w2 x w3)
  let ?c = "new_commit req cid now"
  have ins: "sql_insert_commit ?c (w_db w) = Inr (x, w_db w3)" using 2 by (simp add: new_commit_def)
  then have d3: "w_db w3 = (w_db w)\<lparr>commits := commits (w_db w) @ [?c]\<rparr>"
      and new: "cid \<notin> c_ID ` set (commits (w_db w))"
    by (simp_all add: sql_insert_commit_Inr new_commit_def)
  have ok3: "db_ok (w_db w3)"
    using ok ins
    by (rule insert_commit_ok)
      (use ins in \<open>auto simp: sql_insert_commit_Inr new_commit_def parent_compat_def split: option.splits\<close>)
  have env3: "same_env w w3" using 2 by (auto intro: same_env_trans)
  have fresh3: "snap (w_db w3) cid = Map.empty"
    using snap_fresh [OF ok new] d3 by (simp add: snap_def fun_eq_iff)
  have frame3: "history_frame (w_db w) (w_db w3)" unfolding history_frame_def d3 by (simp add: snap_def fun_eq_iff)
  show ?case
    unfolding sum.case
  proof (intro wp_bindI, rule wp_parent_snapshot [OF ok3], intro wp_go_tryI, goal_cases)
    case (1 m w4)
    have "wp (commit_files_loop (cr_ProjectID req) cid now (cr_Files req) m [])
        (loop_post (cr_ProjectID req) cid (cr_Files req) m [] w4) w4"
      using 1 ok3 by (intro commit_files_loop_spec) simp_all
    then show ?case
    proof (rule wp_mono, goal_cases)
      case (1 r w5)
      have frame: "versions_frame cid (w_db w3) (w_db w5)" and env5: "same_env w w5" and ok5: "db_ok (w_db w5)"
        using 1 \<open>w_db w4 = w_db w3\<close> \<open>same_env w3 w4\<close> env3 unfolding loop_post_def
        by (metis same_env_trans)+
      note v = versions_frameD [OF frame]
      have frame5: "history_frame (w_db w) (w_db w5)"
        using frame by (auto simp: history_frame_def versions_frame_def d3 snap_def fun_eq_iff)
      show ?case
      proof (cases r)
        case (Inl e)
        then show ?thesis
          using ok5 env5 frame5 v d3 by (simp add: commit_post_def ref_target_def fun_eq_iff)
      next
        case (Inr q)
        then obtain m' hs where q: "q = (m', hs)" by (cases q)
        have loop: "map_typed (w_db w5) m'" "hs = pushed_hashes req" "None \<notin> ce_ChunkHashes ` set (cr_Files req)"
          and manifests: "\<And>path. manifest_by (w_db w5) (cr_ProjectID req) (map_versions m') path =
               (case pushed (cr_Files req) path of Some e \<Rightarrow> ce_ChunkHashes e
                | None \<Rightarrow> manifest_by (w_db w3) (cr_ProjectID req) (map_versions m) path)"
          using 1 [unfolded loop_post_def \<open>w_db w4 = w_db w3\<close> Inr q]
          by (simp_all add: pushed_hashes_def)
        have "wp (commit_finish req cid now m' hs) (finish_post req cid m' hs w5) w5"
        proof (rule commit_finish_spec [OF ok5 loop(1)])
          show "snap (w_db w5) cid = Map.empty" using fresh3 v by (simp add: snap_def fun_eq_iff)
          show "\<exists>c \<in> set (commits (w_db w5)). c_ID c = cid \<and> c_ProjectID c = cr_ProjectID req"
            using v d3 by (simp add: new_commit_def)
        qed
        have "commit_post req w r' w'" if f: "finish_post req cid m' hs w5 r' w'" for r' w'
        proof -
          from f obtain rows cs rs where d': "w_db w' = (w_db w5)\<lparr>commit_files := rows, chunks := cs, refs := rs\<rparr>"
            unfolding finish_post_def by blast
          have snaps: "\<forall>c. c \<noteq> cid \<longrightarrow> snap (w_db w') c = snap (w_db w5) c"
            using f by (simp add: finish_post_def)
          have frame': "history_frame (w_db w) (w_db w')"
            using frame5 snaps new d' by (auto simp: history_frame_def)
          have base: "db_ok (w_db w')" "same_env w w'"
            using f env5 unfolding finish_post_def by (blast intro: same_env_trans)+
          have targets: "ref_target (w_db w5) = ref_target (w_db w)" "ref_count (w_db w5) = ref_count (w_db w)"
            using v d3 by (simp_all add: ref_target_def ref_count_def fun_eq_iff)
          have by_eq: "manifest_by (w_db w') = manifest_by (w_db w5)" "manifest_by (w_db w3) = manifest_by (w_db w)"
            using d' d3 by (auto intro: manifest_by_cong)
          show ?thesis
          proof (cases r')
            case (Inl e)
            then show ?thesis
              using f base frame' targets by (simp add: commit_post_def finish_post_def)
          next
            case (Inr res)
            have res: "cres_CommitID res = cid" "cres_Ref res = cr_Ref req"
                "cres_FilesUpdated res = length (cr_Files req)" "snap (w_db w') cid = map_versions m'"
              using f Inr by (simp_all add: finish_post_def)
            have "manifest (w_db w') (cr_ProjectID req) cid path =
                (case pushed (cr_Files req) path of Some e \<Rightarrow> ce_ChunkHashes e | None \<Rightarrow> inherited (w_db w) req path)"
              if "no_faults w" for path
            proof -
              have "no_faults w3" using that env3 by (simp add: same_env_no_faults)
              then have "map_versions m = (case cr_ParentCommitID req of None \<Rightarrow> Map.empty | Some q \<Rightarrow> snap (w_db w) q)"
                using \<open>no_faults w3 \<Longrightarrow> _\<close> d3 by (simp add: snap_def fun_eq_iff split: option.splits)
              then have "manifest_by (w_db w) (cr_ProjectID req) (map_versions m) path = inherited (w_db w) req path"
                by (simp add: inherited_def manifest_def manifest_by_def split: option.splits)
              then show ?thesis
                using manifests [of path] by (simp add: manifest_def by_eq res split: option.split)
            qed
            moreover have "commits (w_db w') = commits (w_db w) @ [new_commit req cid now]"
              using d' v d3 by simp
            ultimately show ?thesis
              using f Inr base frame' targets res new loop
              by (auto simp: commit_post_def finish_post_def)
          qed
        qed
        with \<open>wp (commit_finish req cid now m' hs) _ w5\<close> show ?thesis
          unfolding Inr q sum.case prod.case by (rule wp_mono)
      qed
    qed
  qed
qed

section \<open>The parent check\<close>

lemma wp_verify_parent:
  assumes "\<And>w' e. w_db w' = w_db w \<Longrightarrow> same_env w w' \<Longrightarrow> e = ErrCommitConflict \<Longrightarrow>
      (no_faults w \<Longrightarrow> cr_Ref req \<noteq> '''' \<and> head_of (w_db w) (cr_ProjectID req) (cr_Ref req) \<noteq> cr_ParentCommitID req) \<Longrightarrow>
      Q (Inl e) w'"
    and "\<And>w'. w_db w' = w_db w \<Longrightarrow> same_env w w' \<Longrightarrow>
      (no_faults w \<Longrightarrow> cr_Ref req = '''' \<or> head_of (w_db w) (cr_ProjectID req) (cr_Ref req) = cr_ParentCommitID req) \<Longrightarrow>
      Q (Inr ()) w'"
  shows "wp (verify_parent req) Q w"
proof (cases "row_at r_key (cr_ProjectID req, cr_Ref req, ''branch'') (refs (w_db w))")
  case None
  then show ?thesis
    by (auto simp: verify_parent_def wp_simps head_of_def no_faults_def intro!: assms)
next
  case (Some r)
  then show ?thesis
    by (auto simp: verify_parent_def wp_simps head_of_def no_faults_def intro!: assms)
qed

lemma commit_post_start:
  assumes "commit_post req w0 r w'" "w_db w0 = w_db w" "same_env w w0"
  shows "commit_post req w r w'"
proof -
  have "same_env w0 w'" using assms(1) by (simp add: commit_post_def)
  with assms(3) have "same_env w w'" by (rule same_env_trans)
  then show ?thesis
    using assms(1) unfolding commit_post_def assms(2) same_env_no_faults [OF assms(3)] by blast
qed

lemma CreateCommit_spec:
  assumes ok: "db_ok (w_db w)"
  shows "wp (CreateCommit req) (\<lambda>r w'. commit_post req w r w' \<and>
    (no_faults w \<longrightarrow> r \<noteq> Inl ErrCommitConflict \<longrightarrow>
      cr_Ref req = '''' \<or> head_of (w_db w) (cr_ProjectID req) (cr_Ref req) = cr_ParentCommitID req)) w"
  unfolding CreateCommit_def
proof (intro wp_go_tryI wp_verify_parent, goal_cases)
  case (1 w' e)
  with ok show ?case by (simp add: commit_post_def)
next
  case (2 w')
  have "wp (commit_write req) (commit_post req w') w'"
    by (rule commit_write_spec) (use ok 2 in simp)
  then have "wp (commit_write req) (\<lambda>r w''. commit_post req w r w'' \<and>
      (no_faults w \<longrightarrow> r \<noteq> Inl ErrCommitConflict \<longrightarrow>
        cr_Ref req = '''' \<or> head_of (w_db w) (cr_ProjectID req) (cr_Ref req) = cr_ParentCommitID req)) w'"
    by (rule wp_mono) (use 2 commit_post_start in auto)
  then show ?case by simp
qed

lemma keeps_CreateCommit [keeps_intros]: "keeps db_ok (CreateCommit req)"
proof (rule keepsI)
  fix w :: world
  assume "db_ok (w_db w)"
  from CreateCommit_spec [OF this, of req]
  show "wp (CreateCommit req) (\<lambda>_ w'. db_ok (w_db w')) w"
    by (rule wp_mono) (simp add: commit_post_def)
qed

text \<open>Only the parent check reports a conflict.\<close>

definition wrapped :: "error \<Rightarrow> bool" where
  "wrapped e \<longleftrightarrow> (\<exists>m e'. e = Wrap m e')"

lemma wp_triv: "wp m (\<lambda>_ _. True) w"
  by (simp add: wp_iff)

lemma wp_go_try_wrapped:
  assumes "\<And>e. wrapped (f e)" "\<And>x w'. wp (k x) (\<lambda>r _. \<forall>e. r = Inl e \<longrightarrow> wrapped e) w'"
  shows "wp (go_try m f k) (\<lambda>r _. \<forall>e. r = Inl e \<longrightarrow> wrapped e) w"
proof (rule wp_go_tryI)
  show "wp m (\<lambda>r w'. case r of Inl x \<Rightarrow> \<forall>e. Inl (f x) = Inl e \<longrightarrow> wrapped e
      | Inr x \<Rightarrow> wp (k x) (\<lambda>r _. \<forall>e. r = Inl e \<longrightarrow> wrapped e) w') w"
    by (rule wp_mono [OF wp_triv]) (auto simp: assms split: sum.splits)
qed

lemma commit_files_loop_wrapped:
  "wp (commit_files_loop p cid now fs m hs) (\<lambda>r _. \<forall>e. r = Inl e \<longrightarrow> wrapped e) w"
proof (induction fs arbitrary: m hs w)
  case Nil
  show ?case by (simp add: wp_simps)
next
  case (Cons f fs)
  then show ?case
    unfolding commit_files_loop.simps
    by (intro wp_bindI wp_generateUUIDI wp_go_try_wrapped) (simp_all add: wrapped_def)
qed

lemma commit_finish_wrapped:
  "wp (commit_finish req cid now m hs) (\<lambda>r _. \<forall>e. r = Inl e \<longrightarrow> wrapped e) w"
  unfolding commit_finish_def
  by (intro wp_bindI wp_go_rangeI wp_go_try_wrapped) (simp_all add: wrapped_def wp_simps)

lemma commit_write_wrapped: "wp (commit_write req) (\<lambda>r _. \<forall>e. r = Inl e \<longrightarrow> wrapped e) w"
proof -
  have loop: "wp (go_try (commit_files_loop p cid now fs m []) (\<lambda>e. e) (\<lambda>(m, hs). commit_finish req cid now m hs))
      (\<lambda>r _. \<forall>e. r = Inl e \<longrightarrow> wrapped e) w" for p cid now fs m w
    by (rule wp_go_tryI, rule wp_mono [OF commit_files_loop_wrapped])
      (auto split: sum.splits intro: commit_finish_wrapped)
  have parent: "wp (parent_snapshot req) Q w" if "\<And>m w'. Q m w'" for Q w
    by (rule wp_mono [OF wp_triv]) (rule that)
  show ?thesis
    unfolding commit_write_def Let_def
    by (intro wp_bindI wp_time_NowI wp_generateUUIDI wp_go_try_wrapped parent loop) (simp add: wrapped_def)
qed

lemma CreateCommit_conflict_iff:
  assumes "no_faults w" "run_state (CreateCommit req) w = (r, w')"
  shows "r = Inl ErrCommitConflict \<longleftrightarrow>
    cr_Ref req \<noteq> '''' \<and> head_of (w_db w) (cr_ProjectID req) (cr_Ref req) \<noteq> cr_ParentCommitID req"
    and "r = Inl ErrCommitConflict \<Longrightarrow> w_db w' = w_db w"
proof -
  let ?stale = "cr_Ref req \<noteq> '''' \<and> head_of (w_db w) (cr_ProjectID req) (cr_Ref req) \<noteq> cr_ParentCommitID req"
  have "wp (CreateCommit req) (\<lambda>r w'. (r = Inl ErrCommitConflict \<longleftrightarrow> ?stale)
      \<and> (r = Inl ErrCommitConflict \<longrightarrow> w_db w' = w_db w)) w"
    unfolding CreateCommit_def
  proof (intro wp_go_tryI wp_verify_parent, goal_cases)
    case (1 w' e)
    with assms(1) show ?case by simp
  next
    case (2 w')
    then have "\<not> ?stale" using assms(1) by blast
    have "wp (commit_write req) (\<lambda>r w''. (r = Inl ErrCommitConflict \<longleftrightarrow> ?stale)
      \<and> (r = Inl ErrCommitConflict \<longrightarrow> w_db w'' = w_db w)) w'"
      by (rule wp_mono [OF commit_write_wrapped]) (use \<open>\<not> ?stale\<close> in \<open>auto simp: wrapped_def\<close>)
    then show ?case by simp
  qed
  from wp_run [OF this assms(2)] show "r = Inl ErrCommitConflict \<longleftrightarrow> ?stale"
    and "r = Inl ErrCommitConflict \<Longrightarrow> w_db w' = w_db w"
    by blast+
qed

text \<open>What history keeps: the manifests of a commit.\<close>

lemma history_frame_manifest:
  assumes ok: "db_ok d" and ok': "db_ok d'" and frame: "history_frame d d'" and c: "c \<in> set (commits d)"
  shows "manifest d' p (c_ID c) path = manifest d p (c_ID c) path"
proof -
  obtain fs vs where ext: "files d' = files d @ fs" "file_versions d' = file_versions d @ vs"
    using frame by (auto simp: history_frame_def)
  have snap: "snap d' (c_ID c) = snap d (c_ID c)" using frame c by (simp add: history_frame_def)
  have known: "f \<in> f_ID ` set (files d) \<and> v \<in> fv_ID ` set (file_versions d)" if "snap d (c_ID c) f = Some v" for f v
  proof -
    from that obtain cf where cf: "row_at cf_key (c_ID c, f) (commit_files d) = Some cf" "v = cf_FileVersionID cf"
      by (auto simp: snap_def)
    have "cf \<in> set (commit_files d) \<and> cf_key cf = (c_ID c, f)" using row_at_SomeD [OF cf(1)] .
    then show ?thesis using ok cf(2) by (auto simp: db_ok_def schema_ok_def snapshots_ok_def cf_key_def)
  qed
  have same_version: "version_manifest d' v = version_manifest d v" if "v \<in> fv_ID ` set (file_versions d)" for v
  proof -
    from that obtain u where "row_at fv_ID v (file_versions d) = Some u" by (metis not_None_eq row_at_None)
    then show ?thesis by (simp add: version_manifest_def ext row_at_append)
  qed
  have dist: "distinct (map f_ID (files d @ fs))" using ok' ext by (simp add: db_ok_def schema_ok_def files_ok_def)
  show ?thesis
  proof (cases "row_at f_key (p, path) (files d)")
    case None
    have "snap d (c_ID c) (f_ID f) = None" if "row_at f_key (p, path) fs = Some f" for f
    proof -
      have "f \<in> set fs" using row_at_SomeD [OF that] by blast
      then have "f_ID f \<notin> f_ID ` set (files d)" using dist by auto
      then show ?thesis using known by (cases "snap d (c_ID c) (f_ID f)") auto
    qed
    then show ?thesis
      using None by (cases "row_at f_key (p, path) fs") (simp_all add: manifest_def manifest_by_def snap ext row_at_append)
  next
    case (Some f)
    then show ?thesis
      using known [of "f_ID f"] same_version
      by (cases "snap d (c_ID c) (f_ID f)") (simp_all add: manifest_def manifest_by_def snap ext(1) row_at_append)
  qed
qed

end
