(* ===== verification/Merge_Proofs.thy ===== *)
theory Merge_Proofs
  imports Merge_Service Commit_Proofs
begin

text \<open>
  What a merge does: the classification of the files against the three snapshots, the
  validation of resolutions, the merged snapshot as a three-way merge of maps, and the effect
  of \<open>Execute\<close> on the history for every behaviour of the store.
\<close>

section \<open>The loop over the files\<close>

definition conflict_of ::
    "(string, MergeFileEntry) gomap \<Rightarrow> (string, MergeFileEntry) gomap \<Rightarrow> (string, MergeFileEntry) gomap
      \<Rightarrow> string \<Rightarrow> MergeConflict" where
  "conflict_of bm sm tm f = \<lparr>mc_FileID = f, mc_FilePath = conflict_path bm sm tm f,
     mc_BaseFileVersionID = version_in bm f, mc_SourceFileVersionID = version_in sm f,
     mc_TargetFileVersionID = version_in tm f\<rparr>"

text \<open>The two sides changed the file and disagree; only one side changed it.\<close>

definition differs :: "('v \<Rightarrow> 'w) \<Rightarrow> ('v \<Rightarrow> 'w) \<Rightarrow> ('v \<Rightarrow> 'w) \<Rightarrow> 'v \<Rightarrow> bool" where
  "differs b s t f \<longleftrightarrow> s f \<noteq> b f \<and> t f \<noteq> b f \<and> s f \<noteq> t f"

definition one_sided :: "('v \<Rightarrow> 'w) \<Rightarrow> ('v \<Rightarrow> 'w) \<Rightarrow> ('v \<Rightarrow> 'w) \<Rightarrow> 'v \<Rightarrow> bool" where
  "one_sided b s t f \<longleftrightarrow> s f \<noteq> b f \<and> t f = b f"

lemma analyze_fold:
  fixes bm sm tm
  defines "b \<equiv> version_in bm" and "s \<equiv> version_in sm" and "t \<equiv> version_in tm"
  shows "fold (analyze_file bm sm tm) ks an = an\<lparr>
    ma_Type := (if filter (differs b s t) ks = [] then ma_Type an else MergeTypeConflict),
    ma_SourceOnly := ma_SourceOnly an @ List.map_filter (map_of sm) (filter (one_sided b s t) ks),
    ma_TargetOnly := ma_TargetOnly an @ List.map_filter (map_of tm) (filter (one_sided b t s) ks),
    ma_Conflicts := ma_Conflicts an @ map (conflict_of bm sm tm) (filter (differs b s t) ks),
    ma_Unchanged := ma_Unchanged an + length (filter (\<lambda>f. s f = t f) ks)\<rparr>"
proof (induction ks arbitrary: an)
  case Nil
  then show ?case by simp
next
  case (Cons k ks)
  let ?an = "analyze_file bm sm tm k an"
  have "?an = an\<lparr>
    ma_Type := (if differs b s t k then MergeTypeConflict else ma_Type an),
    ma_SourceOnly := ma_SourceOnly an @ (if one_sided b s t k then List.map_filter (map_of sm) [k] else []),
    ma_TargetOnly := ma_TargetOnly an @ (if one_sided b t s k then List.map_filter (map_of tm) [k] else []),
    ma_Conflicts := ma_Conflicts an @ (if differs b s t k then [conflict_of bm sm tm k] else []),
    ma_Unchanged := ma_Unchanged an + (if s k = t k then 1 else 0)\<rparr>"
    by (auto simp: analyze_file_def Let_def differs_def one_sided_def conflict_of_def b_def s_def t_def
      map_filter_simps split: option.splits)
  then show ?case
    unfolding fold_simps Cons.IH
    by (auto simp: map_filter_simps split: option.splits)
qed

section \<open>Snapshots with paths\<close>

definition path_of :: "db \<Rightarrow> string \<Rightarrow> string" where
  "path_of d f = (case row_at f_ID f (files d) of None \<Rightarrow> '''' | Some r \<Rightarrow> f_Path r)"

definition entry_of :: "db \<Rightarrow> CommitFile \<Rightarrow> MergeFileEntry" where
  "entry_of d cf = \<lparr>me_FileID = cf_FileID cf, me_FilePath = path_of d (cf_FileID cf),
     me_FileVersionID = cf_FileVersionID cf\<rparr>"

lemma snapshot_join:
  assumes "schema_ok d" "set cfs \<subseteq> set (commit_files d)"
  shows "concat (map (\<lambda>cf. map (\<lambda>f. \<lparr>me_FileID = cf_FileID cf, me_FilePath = f_Path f,
      me_FileVersionID = cf_FileVersionID cf\<rparr>) (filter (\<lambda>f. f_ID f = cf_FileID cf) (files d))) cfs)
    = map (entry_of d) cfs"
  using assms(2)
proof (induction cfs)
  case Nil
  then show ?case by simp
next
  case (Cons cf cfs)
  then have "cf_FileID cf \<in> f_ID ` set (files d)"
    using assms(1) by (auto simp: schema_ok_def snapshots_ok_def)
  then obtain r where r: "row_at f_ID (cf_FileID cf) (files d) = Some r"
    by (metis not_Some_eq row_at_None)
  have "filter (\<lambda>f. f_ID f = cf_FileID cf) (files d) = [r]"
    using filter_key [OF schema_okD(3) [OF assms(1)]] r by simp
  with r Cons show ?case by (simp add: entry_of_def path_of_def)
qed

lemma sql_snapshot_paths_set:
  assumes "schema_ok d"
  shows "mset (sql_snapshot_paths cid d) =
    image_mset (entry_of d) (mset (filter (\<lambda>cf. cf_CommitID cf = cid) (commit_files d)))"
proof -
  have "set (filter (\<lambda>cf. cf_CommitID cf = cid) (commit_files d)) \<subseteq> set (commit_files d)" by auto
  from snapshot_join [OF assms this] show ?thesis
    unfolding sql_snapshot_paths_def by simp
qed

lemma distinct_snapshot_files:
  assumes "schema_ok d"
  shows "distinct (map me_FileID (sql_snapshot_paths cid d))"
proof -
  have "distinct (map cf_FileID (filter (\<lambda>cf. cf_CommitID cf = cid) (commit_files d)))"
    using schema_okD(5) [OF assms] by (auto simp: distinct_map cf_key_def inj_on_def distinct_map_filter)
  moreover have "mset (map me_FileID (sql_snapshot_paths cid d)) =
      mset (map cf_FileID (filter (\<lambda>cf. cf_CommitID cf = cid) (commit_files d)))"
    unfolding mset_map sql_snapshot_paths_set [OF assms] image_mset.compositionality
    by (simp add: comp_def entry_of_def)
  ultimately show ?thesis by (metis mset_eq_imp_distinct_iff)
qed

definition entry_at :: "db \<Rightarrow> string \<Rightarrow> string \<Rightarrow> MergeFileEntry option" where
  "entry_at d cid f = map_option (\<lambda>v. \<lparr>me_FileID = f, me_FilePath = path_of d f, me_FileVersionID = v\<rparr>) (snap d cid f)"

lemma row_at_snapshot_paths:
  assumes "schema_ok d"
  shows "row_at me_FileID f (sql_snapshot_paths cid d) = entry_at d cid f"
proof (cases "row_at cf_key (cid, f) (commit_files d)")
  case None
  then have "f \<notin> me_FileID ` set (sql_snapshot_paths cid d)"
    using sql_snapshot_paths_set [OF assms, of cid, THEN arg_cong, of set_mset]
    by (force simp: row_at_None cf_key_def entry_of_def)
  with None show ?thesis by (simp add: entry_at_def snap_def row_at_None [symmetric])
next
  case (Some cf)
  then have cf: "cf \<in> set (commit_files d)" "cf_CommitID cf = cid" "cf_FileID cf = f"
    by (auto simp: cf_key_def dest!: row_at_SomeD)
  then have "entry_of d cf \<in> set (sql_snapshot_paths cid d)"
    using sql_snapshot_paths_set [OF assms, of cid, THEN arg_cong, of set_mset] by auto
  from row_at_unique [OF distinct_snapshot_files [OF assms] this] cf Some show ?thesis
    by (simp add: entry_at_def snap_def entry_of_def)
qed

lemma map_of_snapshotMap:
  "schema_ok d \<Longrightarrow> map_of (snapshotMap (sql_snapshot_paths cid d)) f = entry_at d cid f"
  unfolding snapshotMap_def
  by (simp add: map_of_gomap_of_distinct distinct_snapshot_files row_at_snapshot_paths split: option.splits)

text \<open>The empty string is no version, so it can stand for a missing file.\<close>

lemma snap_named:
  assumes "db_ok d"
  shows "snap d cid f \<noteq> Some ''''"
proof
  assume "snap d cid f = Some ''''"
  then obtain cf where "cf \<in> set (commit_files d)" "cf_FileVersionID cf = ''''"
    using assms by (auto simp: snap_Some db_ok_def schema_okD)
  with assms show False
    by (fastforce simp: db_ok_def schema_ok_def snapshots_ok_def history_ok_def versions_named_def)
qed

definition opt_name :: "string option \<Rightarrow> string" where
  "opt_name v = (case v of None \<Rightarrow> '''' | Some x \<Rightarrow> x)"

lemma version_in_snapshotMap:
  "schema_ok d \<Longrightarrow> version_in (snapshotMap (sql_snapshot_paths cid d)) f = opt_name (snap d cid f)"
  by (simp add: version_in_def map_of_snapshotMap entry_at_def opt_name_def split: option.splits)

lemma opt_name_eq:
  "db_ok d \<Longrightarrow> opt_name (snap d a f) = opt_name (snap d b f) \<longleftrightarrow> snap d a f = snap d b f"
  using snap_named [of d a f] snap_named [of d b f] by (auto simp: opt_name_def split: option.splits)

section \<open>The analysis\<close>

text \<open>What the analysis of two heads against a base says, for the three snapshots as maps.\<close>

definition conflict_at :: "db \<Rightarrow> string \<Rightarrow> string \<Rightarrow> string \<Rightarrow> string \<Rightarrow> MergeConflict" where
  "conflict_at d base sh th f = \<lparr>mc_FileID = f, mc_FilePath = path_of d f,
     mc_BaseFileVersionID = opt_name (snap d base f), mc_SourceFileVersionID = opt_name (snap d sh f),
     mc_TargetFileVersionID = opt_name (snap d th f)\<rparr>"

definition analysis_ok :: "db \<Rightarrow> string \<Rightarrow> string \<Rightarrow> string \<Rightarrow> MergeAnalysis \<Rightarrow> bool" where
  "analysis_ok d base sh th an \<longleftrightarrow>
     ma_MergeBaseID an = base
     \<and> ma_Type an = (if \<exists>f. differs (snap d base) (snap d sh) (snap d th) f then MergeTypeConflict else MergeTypeClean)
     \<and> set (ma_Conflicts an) = conflict_at d base sh th ` {f. differs (snap d base) (snap d sh) (snap d th) f}
     \<and> distinct (map mc_FileID (ma_Conflicts an))
     \<and> set (ma_SourceOnly an) = {e. \<exists>f. one_sided (snap d base) (snap d sh) (snap d th) f \<and> entry_at d sh f = Some e}
     \<and> distinct (map me_FileID (ma_SourceOnly an))
     \<and> set (ma_TargetOnly an) = {e. \<exists>f. one_sided (snap d base) (snap d th) (snap d sh) f \<and> entry_at d th f = Some e}
     \<and> distinct (map me_FileID (ma_TargetOnly an))
     \<and> ma_Unchanged an = card {f \<in> dom (snap d base) \<union> dom (snap d sh) \<union> dom (snap d th). snap d sh f = snap d th f}"

lemma map_filter_entries:
  assumes "distinct ks" "\<And>f e. m f = Some e \<Longrightarrow> me_FileID e = f"
  shows "set (List.map_filter m ks) = {e. \<exists>f \<in> set ks. m f = Some e}"
    and "distinct (map me_FileID (List.map_filter m ks))"
proof -
  show set: "set (List.map_filter m ks) = {e. \<exists>f \<in> set ks. m f = Some e}" for ks
    by (induction ks) (auto simp: map_filter_simps split: option.splits)
  show "distinct (map me_FileID (List.map_filter m ks))"
    using assms(1)
  proof (induction ks)
    case Nil
    then show ?case by (simp add: map_filter_simps)
  next
    case (Cons k ks)
    then show ?case
      using assms(2) set [of ks] by (auto simp: map_filter_simps split: option.splits) 
  qed
qed

lemma entry_at_FileID: "entry_at d c f = Some e \<Longrightarrow> me_FileID e = f"
  by (auto simp: entry_at_def)

lemma set_all_file_ids:
  assumes "schema_ok d"
  shows "set (all_file_ids (snapshotMap (sql_snapshot_paths a d)) (snapshotMap (sql_snapshot_paths b d))
      (snapshotMap (sql_snapshot_paths c d))) = dom (snap d a) \<union> dom (snap d b) \<union> dom (snap d c)"
proof -
  have "fst ` set (snapshotMap (sql_snapshot_paths x d)) = dom (snap d x)" for x
    using map_of_snapshotMap [OF assms, of x]
    unfolding dom_map_of_conv_image_fst [symmetric] by (auto simp: dom_def entry_at_def)
  then show ?thesis by (simp add: all_file_ids_def Un_assoc)
qed

lemma analysis_ok_fold:
  assumes ok: "db_ok d"
    and ks: "mset ks = mset (all_file_ids (snapshotMap (sql_snapshot_paths base d))
      (snapshotMap (sql_snapshot_paths sh d)) (snapshotMap (sql_snapshot_paths th d)))"
  shows "analysis_ok d base sh th (fold (analyze_file (snapshotMap (sql_snapshot_paths base d))
      (snapshotMap (sql_snapshot_paths sh d)) (snapshotMap (sql_snapshot_paths th d))) ks
      (new_analysis MergeTypeClean base src tgt))" (is "analysis_ok d base sh th ?an")
proof -
  let ?b = "snap d base" and ?s = "snap d sh" and ?t = "snap d th"
  have sch: "schema_ok d" using ok by (simp add: db_ok_def)
  note v = version_in_snapshotMap [OF sch] and e = opt_name_eq [OF ok]
  have dist: "distinct ks" using ks by (metis all_file_ids_def distinct_remdups mset_eq_imp_distinct_iff)
  have keys: "set ks = dom ?b \<union> dom ?s \<union> dom ?t"
    using set_all_file_ids [OF sch] ks by (metis set_mset_mset)
  have cls: "set (filter (differs ?b ?s ?t) ks) = {f. differs ?b ?s ?t f}"
    "set (filter (one_sided ?b ?s ?t) ks) = {f. one_sided ?b ?s ?t f}"
    "set (filter (one_sided ?b ?t ?s) ks) = {f. one_sided ?b ?t ?s f}"
    using keys by (auto simp: differs_def one_sided_def dom_def)
  have an: "?an = (new_analysis MergeTypeClean base src tgt)\<lparr>
    ma_Type := (if filter (differs ?b ?s ?t) ks = [] then MergeTypeClean else MergeTypeConflict),
    ma_SourceOnly := List.map_filter (entry_at d sh) (filter (one_sided ?b ?s ?t) ks),
    ma_TargetOnly := List.map_filter (entry_at d th) (filter (one_sided ?b ?t ?s) ks),
    ma_Conflicts := map (conflict_of (snapshotMap (sql_snapshot_paths base d))
      (snapshotMap (sql_snapshot_paths sh d)) (snapshotMap (sql_snapshot_paths th d)))
      (filter (differs ?b ?s ?t) ks),
    ma_Unchanged := length (filter (\<lambda>f. ?s f = ?t f) ks)\<rparr>"
    unfolding analyze_fold differs_def one_sided_def v e map_of_snapshotMap [OF sch, abs_def]
    by (simp add: new_analysis_def)
  have conf: "conflict_of (snapshotMap (sql_snapshot_paths base d)) (snapshotMap (sql_snapshot_paths sh d))
      (snapshotMap (sql_snapshot_paths th d)) f = conflict_at d base sh th f" if "differs ?b ?s ?t f" for f
    using that by (auto simp: conflict_of_def conflict_at_def conflict_path_def v map_of_snapshotMap [OF sch]
      entry_at_def differs_def split: option.splits)
  have "map (conflict_of (snapshotMap (sql_snapshot_paths base d)) (snapshotMap (sql_snapshot_paths sh d))
      (snapshotMap (sql_snapshot_paths th d))) (filter (differs ?b ?s ?t) ks) =
      map (conflict_at d base sh th) (filter (differs ?b ?s ?t) ks)"
    using conf by simp
  note an = an [unfolded this]
  have conf_part: "set (ma_Conflicts ?an) = conflict_at d base sh th ` {f. differs ?b ?s ?t f}"
    "distinct (map mc_FileID (ma_Conflicts ?an))"
    unfolding an using cls(1) dist by (simp_all add: comp_def conflict_at_def)
  have type_part: "ma_Type ?an = (if \<exists>f. differs ?b ?s ?t f then MergeTypeConflict else MergeTypeClean)"
    unfolding an using cls(1) by (auto simp: filter_empty_conv)
  have dist_f: "distinct (filter P ks)" for P using dist by simp
  have ents: "set (List.map_filter (entry_at d c) (filter P ks)) = {e. \<exists>f \<in> set (filter P ks). entry_at d c f = Some e}"
    "distinct (map me_FileID (List.map_filter (entry_at d c) (filter P ks)))" for c P
    by (rule map_filter_entries; use dist entry_at_FileID in simp)+
  have "ma_Unchanged ?an = card {f \<in> dom ?b \<union> dom ?s \<union> dom ?t. ?s f = ?t f}"
    unfolding an keys [symmetric] using dist by (simp add: distinct_length_filter Int_def conj_commute)
  moreover have "ma_MergeBaseID ?an = base" unfolding an by (simp add: new_analysis_def)
  moreover have so: "ma_SourceOnly ?an = List.map_filter (entry_at d sh) (filter (one_sided ?b ?s ?t) ks)"
    and to: "ma_TargetOnly ?an = List.map_filter (entry_at d th) (filter (one_sided ?b ?t ?s) ks)"
    unfolding an by simp_all
  have "set (ma_SourceOnly ?an) = {e. \<exists>f. one_sided ?b ?s ?t f \<and> entry_at d sh f = Some e}"
    "distinct (map me_FileID (ma_SourceOnly ?an))"
    unfolding so using ents(1) [of sh "one_sided ?b ?s ?t"] ents(2) [of sh "one_sided ?b ?s ?t"]
    unfolding cls by simp_all
  moreover have "set (ma_TargetOnly ?an) = {e. \<exists>f. one_sided ?b ?t ?s f \<and> entry_at d th f = Some e}"
    "distinct (map me_FileID (ma_TargetOnly ?an))"
    unfolding to using ents(1) [of th "one_sided ?b ?t ?s"] ents(2) [of th "one_sided ?b ?t ?s"]
    unfolding cls by simp_all
  ultimately show ?thesis
    unfolding analysis_ok_def using conf_part type_part by blast
qed

section \<open>Analyze\<close>

text \<open>\<open>reaches d x y\<close>: following parents from \<open>x\<close> one gets to \<open>y\<close>.\<close>

definition reaches :: "db \<Rightarrow> string \<Rightarrow> string \<Rightarrow> bool" where
  "reaches d x y \<longleftrightarrow> (x, y) \<in> (parent_of (commits d))\<^sup>*"

lemma head_is_commit:
  assumes "schema_ok d" "head_of d p n = Some h"
  shows "h \<in> c_ID ` set (commits d)"
proof -
  from assms(2) obtain r where r: "row_at r_key (p, n, ''branch'') (refs d) = Some r" "h = r_CommitID r"
    by (auto simp: head_of_def)
  then have "r \<in> set (refs d)" using row_at_SomeD by metis
  with r(2) schema_okD(9) [OF assms(1)] show ?thesis by auto
qed

text \<open>The errors of the analysis when the store works.\<close>

definition analyze_error :: "db \<Rightarrow> string \<Rightarrow> string \<Rightarrow> string \<Rightarrow> error \<Rightarrow> bool" where
  "analyze_error d p src tgt e \<longleftrightarrow>
     (if src = tgt then e = ErrSameBranch
      else case head_of d p src of
        None \<Rightarrow> e = Wrap ''source branch'' ErrBranchNotFound
      | Some sh \<Rightarrow> (case head_of d p tgt of
          None \<Rightarrow> e = Wrap ''target branch'' ErrBranchNotFound
        | Some th \<Rightarrow> e = ErrNoMergeBase \<and> (\<forall>y. \<not> (reaches d sh y \<and> reaches d th y))))"

lemma wp_GetRef_branch:
  assumes "\<And>e w'. w_db w' = w_db w \<Longrightarrow> same_env w w' \<Longrightarrow>
      (no_faults w \<Longrightarrow> head_of (w_db w) p n = None) \<Longrightarrow> Q (Inl e) w'"
    and "\<And>r w'. w_db w' = w_db w \<Longrightarrow> same_env w w' \<Longrightarrow>
      row_at r_key (p, n, ''branch'') (refs (w_db w)) = Some r \<Longrightarrow>
      head_of (w_db w) p n = Some (r_CommitID r) \<Longrightarrow> Q (Inr r) w'"
  shows "wp (CommitStore_GetRef p n ''branch'') Q w"
proof (cases "row_at r_key (p, n, ''branch'') (refs (w_db w))")
  case None
  then show ?thesis
    by (auto simp: wp_simps head_of_def no_faults_def intro!: assms(1))
next
  case (Some r)
  then show ?thesis
    by (auto simp: wp_simps head_of_def no_faults_def intro: assms)
qed

lemma wp_analyze_snapshots:
  assumes ok: "db_ok (w_db w)"
    and err: "\<And>e w'. w_db w' = w_db w \<Longrightarrow> same_env w w' \<Longrightarrow> \<not> no_faults w \<Longrightarrow> Q (Inl e) w'"
    and mg: "\<And>an w'. w_db w' = w_db w \<Longrightarrow> same_env w w' \<Longrightarrow> analysis_ok (w_db w) base sh th an \<Longrightarrow> Q (Inr an) w'"
  shows "wp (analyze_snapshots src tgt sh th base) Q w"
  unfolding analyze_snapshots_def CommitStore_GetCommitSnapshotWithPaths_def Let_def
proof (intro wp_go_tryI wp_db_queryI, goal_cases)
  case (1 e w1)
  then show ?case by (auto intro: err)
next
  case (2 bs w1)
  note b = this
  show ?case
    unfolding sum.case
  proof (intro wp_go_tryI wp_db_queryI, goal_cases)
    case (1 e w2)
    then show ?case using b by (auto intro!: err intro: same_env_trans simp: same_env_no_faults)
  next
    case (2 ss w2)
    then have s: "w_db w2 = w_db w" "same_env w w2" "ss = sql_snapshot_paths sh (w_db w)" 
      using b by (auto intro: same_env_trans)
    show ?case
      unfolding sum.case
    proof (intro wp_go_tryI wp_db_queryI, goal_cases)
      case (1 e w3)
      then show ?case using s by (auto intro!: err intro: same_env_trans simp: same_env_no_faults)
    next
      case (2 ts w3)
      then have t: "w_db w3 = w_db w" "same_env w w3" "ts = sql_snapshot_paths th (w_db w)" 
        using s by (auto intro: same_env_trans)
      show ?case
        unfolding sum.case
      proof (intro wp_bindI wp_go_rangeI, goal_cases)
        case (1 ks w4)
        then show ?case
          using b s t analysis_ok_fold [OF ok, of ks base sh th src tgt]
          by (auto simp: wp_simps intro!: mg intro: same_env_trans)
      qed
    qed
  qed
qed

lemma wp_Analyze:
  assumes ok: "db_ok (w_db w)"
    and err: "\<And>e w'. w_db w' = w_db w \<Longrightarrow> same_env w w' \<Longrightarrow>
      (no_faults w \<Longrightarrow> analyze_error (w_db w) p src tgt e) \<Longrightarrow> Q (Inl e) w'"
    and ff: "\<And>sh th w'. w_db w' = w_db w \<Longrightarrow> same_env w w' \<Longrightarrow> src \<noteq> tgt \<Longrightarrow>
      head_of (w_db w) p src = Some sh \<Longrightarrow> head_of (w_db w) p tgt = Some th \<Longrightarrow> reaches (w_db w) sh th \<Longrightarrow>
      Q (Inr (new_analysis MergeTypeFastForward th src tgt)) w'"
    and mg: "\<And>sh th base an w'. w_db w' = w_db w \<Longrightarrow> same_env w w' \<Longrightarrow> src \<noteq> tgt \<Longrightarrow>
      head_of (w_db w) p src = Some sh \<Longrightarrow> head_of (w_db w) p tgt = Some th \<Longrightarrow> \<not> reaches (w_db w) sh th \<Longrightarrow>
      sql_merge_base sh th (w_db w) = Some base \<Longrightarrow> analysis_ok (w_db w) base sh th an \<Longrightarrow> Q (Inr an) w'"
  shows "wp (Analyze p src tgt) Q w"
proof (cases "src = tgt")
  case True
  then show ?thesis using err [of w] by (simp add: Analyze_def wp_simps analyze_error_def)
next
  case False
  have sch: "schema_ok (w_db w)" using ok by (simp add: db_ok_def)
  note ids = schema_okD(1) [OF sch]
  show ?thesis
    unfolding Analyze_def if_not_P [OF False]
  proof (intro wp_go_tryI wp_GetRef_branch, goal_cases)
    case (1 e w1)
    then show ?case using False by (auto intro!: err simp: analyze_error_def)
  next
    case (2 rs w1)
    note s = this
    show ?case
      unfolding sum.case
    proof (intro wp_go_tryI wp_GetRef_branch, goal_cases)
      case (1 e w2)
      then show ?case
        using s False by (auto intro!: err intro: same_env_trans simp: analyze_error_def same_env_no_faults)
    next
      case (2 rt w2)
      have w2: "w_db w2 = w_db w" "same_env w w2" "head_of (w_db w) p tgt = Some (r_CommitID rt)"
        using s 2 by (auto intro: same_env_trans)
      have src_commit: "r_CommitID rs \<in> c_ID ` set (commits (w_db w))"
        "r_CommitID rt \<in> c_ID ` set (commits (w_db w))"
        using head_is_commit [OF sch] s(4) w2(3) by blast+
      have anc: "sql_is_ancestor (r_CommitID rt) (r_CommitID rs) (w_db w) \<longleftrightarrow>
          reaches (w_db w) (r_CommitID rs) (r_CommitID rt)"
        using sql_is_ancestor_iff [OF ids] src_commit by (simp add: reaches_def)
      show ?case
        unfolding sum.case CommitStore_IsAncestor_def
      proof (intro wp_go_tryI wp_db_queryI, goal_cases)
        case (1 e w3)
        then show ?case using w2 by (auto intro!: err intro: same_env_trans simp: same_env_no_faults)
      next
        case (2 isAnc w3)
        have w3: "w_db w3 = w_db w" "same_env w w3" using 2 w2 by (auto intro: same_env_trans)
        show ?case
        proof (cases "reaches (w_db w) (r_CommitID rs) (r_CommitID rt)")
          case True
          then have "isAnc" using 2 anc w2 by simp
          then show ?thesis
            using ff [OF w3 False s(4) w2(3) True] by (simp add: wp_simps)
        next
          case unreached: False
          then have "\<not> isAnc" using 2 anc w2 by simp
          then have "wp (go_try (CommitStore_FindMergeBase (r_CommitID rs) (r_CommitID rt)) (\<lambda>_. ErrNoMergeBase)
              (analyze_snapshots src tgt (r_CommitID rs) (r_CommitID rt))) Q w3"
            unfolding CommitStore_FindMergeBase_def
          proof (intro wp_go_tryI wp_db_queryI, goal_cases)
            case (1 e w4)
            have "analyze_error (w_db w) p src tgt ErrNoMergeBase" if "no_faults w"
              using 1(4) that w3 False s(4) w2(3) sql_merge_base_None [OF ids] src_commit
              by (auto simp: analyze_error_def same_env_no_faults common_ancestor_def reaches_def split: option.splits)
            then show ?case using 1 w3 by (auto intro!: err intro: same_env_trans)
          next
            case (2 base w4)
            then have w4: "w_db w4 = w_db w" "same_env w w4" "sql_merge_base (r_CommitID rs) (r_CommitID rt) (w_db w) = Some base"
              using w3 by (auto intro: same_env_trans split: option.splits)
            have "wp (analyze_snapshots src tgt (r_CommitID rs) (r_CommitID rt) base) Q w4"
              by (rule wp_analyze_snapshots)
                (use w4 ok mg [OF _ _ False s(4) w2(3) unreached w4(3)] in
                  \<open>auto intro!: err intro: same_env_trans simp: same_env_no_faults\<close>)
            then show ?case by simp
          qed
          then show ?thesis using \<open>\<not> isAnc\<close> by simp
        qed
      qed
    qed
  qed
qed

section \<open>Resolutions\<close>

lemma check_conflicts_None:
  "check_conflicts rm cs = None \<longleftrightarrow> (\<forall>c \<in> set cs. \<exists>v. map_of rm (mc_FileID c) = Some v
     \<and> v \<in> {mc_SourceFileVersionID c, mc_TargetFileVersionID c, mc_BaseFileVersionID c})"
  by (induction cs) (auto split: option.splits)

text \<open>
  The validation accepts exactly the lists that answer every conflict once, and nothing else,
  each with a version that one of the three snapshots has.
\<close>

lemma validate_resolutions_None:
  assumes "distinct (map mc_FileID (ma_Conflicts an))"
  shows "validate_resolutions an rs = None \<longleftrightarrow> (ma_Type an = MergeTypeConflict \<longrightarrow>
    distinct (map mr_FileID rs) \<and> mr_FileID ` set rs = mc_FileID ` set (ma_Conflicts an) \<and>
    (\<forall>c \<in> set (ma_Conflicts an). \<forall>r \<in> set rs. mr_FileID r = mc_FileID c \<longrightarrow>
      mr_FileVersionID r \<in> {mc_SourceFileVersionID c, mc_TargetFileVersionID c, mc_BaseFileVersionID c}))"
proof (cases "ma_Type an = MergeTypeConflict")
  case conf: True
  let ?cs = "ma_Conflicts an"
  let ?rm = "gomap_of mr_FileID mr_FileVersionID rs []"
  have lookup: "map_of ?rm f = map_option mr_FileVersionID (row_at mr_FileID f rs)" if "distinct (map mr_FileID rs)" for f
    using map_of_gomap_of_distinct [OF that, of mr_FileVersionID "[]" f] by (simp split: option.splits)
  have keys: "mr_FileID ` set rs = mc_FileID ` set ?cs \<and> distinct (map mr_FileID rs)"
    if len: "length rs = length ?cs" and all: "\<forall>c \<in> set ?cs. map_of ?rm (mc_FileID c) \<noteq> None"
  proof -
    have sub: "mc_FileID ` set ?cs \<subseteq> mr_FileID ` set rs"
      using all map_of_gomap_of_notin [of _ mr_FileID rs mr_FileVersionID "[]"] by fastforce
    have "card (mc_FileID ` set ?cs) = length ?cs"
      using distinct_card [OF assms] by simp
    moreover have "card (mr_FileID ` set rs) \<le> length rs"
      using card_length [of "map mr_FileID rs"] by simp
    ultimately have eq: "mc_FileID ` set ?cs = mr_FileID ` set rs"
      using sub len card_mono [OF _ sub] by (intro card_subset_eq) simp_all
    then have "card (set (map mr_FileID rs)) = length (map mr_FileID rs)"
      using \<open>card (mc_FileID ` set ?cs) = length ?cs\<close> len by simp
    from card_distinct [OF this] eq show ?thesis by simp
  qed
  have val: "validate_resolutions an rs = None \<longleftrightarrow> length rs = length ?cs \<and> (\<forall>c \<in> set ?cs. \<exists>v.
      map_of ?rm (mc_FileID c) = Some v \<and> v \<in> {mc_SourceFileVersionID c, mc_TargetFileVersionID c, mc_BaseFileVersionID c})"
    using conf by (auto simp: validate_resolutions_def check_conflicts_None)
  show ?thesis
  proof
    assume None: "validate_resolutions an rs = None"
    then have k: "mr_FileID ` set rs = mc_FileID ` set ?cs" "distinct (map mr_FileID rs)"
      using keys val by fastforce+
    have "mr_FileVersionID r \<in> {mc_SourceFileVersionID c, mc_TargetFileVersionID c, mc_BaseFileVersionID c}"
      if "c \<in> set ?cs" "r \<in> set rs" "mr_FileID r = mc_FileID c" for c r
    proof -
      have "map_of ?rm (mc_FileID c) = Some (mr_FileVersionID r)"
        using row_at_unique [OF k(2) that(2)] lookup [OF k(2)] that(3) by simp
      with None that(1) show ?thesis unfolding val by force
    qed
    with k show "ma_Type an = MergeTypeConflict \<longrightarrow> distinct (map mr_FileID rs) \<and>
        mr_FileID ` set rs = mc_FileID ` set ?cs \<and> (\<forall>c \<in> set ?cs. \<forall>r \<in> set rs. mr_FileID r = mc_FileID c \<longrightarrow>
          mr_FileVersionID r \<in> {mc_SourceFileVersionID c, mc_TargetFileVersionID c, mc_BaseFileVersionID c})"
      by blast
  next
    assume "ma_Type an = MergeTypeConflict \<longrightarrow> distinct (map mr_FileID rs) \<and>
        mr_FileID ` set rs = mc_FileID ` set ?cs \<and> (\<forall>c \<in> set ?cs. \<forall>r \<in> set rs. mr_FileID r = mc_FileID c \<longrightarrow>
          mr_FileVersionID r \<in> {mc_SourceFileVersionID c, mc_TargetFileVersionID c, mc_BaseFileVersionID c})"
    with conf have r: "distinct (map mr_FileID rs)" "mr_FileID ` set rs = mc_FileID ` set ?cs"
      "\<forall>c \<in> set ?cs. \<forall>r \<in> set rs. mr_FileID r = mc_FileID c \<longrightarrow>
        mr_FileVersionID r \<in> {mc_SourceFileVersionID c, mc_TargetFileVersionID c, mc_BaseFileVersionID c}"
      by blast+
    have "length rs = length ?cs"
      using distinct_card [OF r(1)] distinct_card [OF assms] r(2) by simp
    moreover have "\<exists>v. map_of ?rm (mc_FileID c) = Some v \<and>
        v \<in> {mc_SourceFileVersionID c, mc_TargetFileVersionID c, mc_BaseFileVersionID c}" if c: "c \<in> set ?cs" for c
    proof -
      from c r(2) obtain q where q: "q \<in> set rs" "mr_FileID q = mc_FileID c" by (metis image_eqI imageE)
      then have "map_of ?rm (mc_FileID c) = Some (mr_FileVersionID q)"
        using row_at_unique [OF r(1) q(1)] lookup [OF r(1)] by simp
      then show ?thesis using r(3) c q by blast
    qed
    ultimately show "validate_resolutions an rs = None" using val by blast
  qed
qed (simp add: validate_resolutions_def)

section \<open>The merged snapshot\<close>

text \<open>The version that a list of resolutions names for a file.\<close>

definition resolved :: "MergeResolution list \<Rightarrow> string \<Rightarrow> string option" where
  "resolved rs f = map_option mr_FileVersionID (row_at mr_FileID f rs)"

text \<open>
  The merge of three snapshots: files on which the two sides disagree take the resolution, a file
  that only the source changed takes the version of the source, everything else stays as the
  target has it.
\<close>

definition merged :: "(string \<rightharpoonup> string) \<Rightarrow> (string \<rightharpoonup> string) \<Rightarrow> (string \<rightharpoonup> string) \<Rightarrow> MergeResolution list \<Rightarrow> string \<rightharpoonup> string" where
  "merged b s t rs f =
     (if differs b s t f then resolved rs f
      else if one_sided b s t f \<and> s f \<noteq> None then s f
      else t f)"

lemma map_versions_gomap_of:
  assumes "distinct (map key xs)"
  shows "map_versions (gomap_of key val xs m) f =
    (case row_at key f xs of None \<Rightarrow> map_versions m f | Some x \<Rightarrow> Some (cf_FileVersionID (val x)))"
  using map_of_gomap_of_distinct [OF assms, of val m f]
  by (simp add: map_versions_def split: option.splits)

lemma analysis_resolutions:
  assumes "analysis_ok d base sh th an" "validate_resolutions an rs = None"
  shows "(\<exists>f. differs (snap d base) (snap d sh) (snap d th) f) \<longleftrightarrow> ma_Type an = MergeTypeConflict"
    and "ma_Type an = MergeTypeConflict \<Longrightarrow> distinct (map mr_FileID rs)"
    and "ma_Type an = MergeTypeConflict \<Longrightarrow>
      resolved rs f \<noteq> None \<longleftrightarrow> differs (snap d base) (snap d sh) (snap d th) f"
    and "ma_Type an = MergeTypeConflict \<Longrightarrow> resolved rs f = Some v \<Longrightarrow>
      v \<in> {opt_name (snap d base f), opt_name (snap d sh f), opt_name (snap d th f)}"
proof -
  let ?D = "differs (snap d base) (snap d sh) (snap d th)"
  have cs: "set (ma_Conflicts an) = conflict_at d base sh th ` {f. ?D f}" "distinct (map mc_FileID (ma_Conflicts an))"
    and ty: "ma_Type an = (if \<exists>f. ?D f then MergeTypeConflict else MergeTypeClean)"
    using assms(1) unfolding analysis_ok_def by blast+
  show "(\<exists>f. ?D f) \<longleftrightarrow> ma_Type an = MergeTypeConflict" using ty by auto
  note v = assms(2) [unfolded validate_resolutions_None [OF cs(2)]]
  show "ma_Type an = MergeTypeConflict \<Longrightarrow> distinct (map mr_FileID rs)" using v by blast
  have ids: "mc_FileID ` set (ma_Conflicts an) = {f. ?D f}"
    unfolding cs(1) by (simp add: image_image conflict_at_def)
  show "ma_Type an = MergeTypeConflict \<Longrightarrow> resolved rs f \<noteq> None \<longleftrightarrow> ?D f"
    using v ids by (auto simp: resolved_def row_at_None)
  assume conf: "ma_Type an = MergeTypeConflict" and r: "resolved rs f = Some v"
  from r obtain q where q: "row_at mr_FileID f rs = Some q" "v = mr_FileVersionID q"
    by (auto simp: resolved_def)
  then have "q \<in> set rs" "mr_FileID q = f" using row_at_SomeD by metis+
  moreover have "?D f" using v conf ids \<open>q \<in> set rs\<close> \<open>mr_FileID q = f\<close> by blast
  then have "conflict_at d base sh th f \<in> set (ma_Conflicts an)" using cs(1) by simp
  moreover have "mc_FileID (conflict_at d base sh th f) = f" by (simp add: conflict_at_def)
  ultimately have "mr_FileVersionID q \<in> {mc_SourceFileVersionID (conflict_at d base sh th f),
      mc_TargetFileVersionID (conflict_at d base sh th f), mc_BaseFileVersionID (conflict_at d base sh th f)}"
    using v [rule_format, OF conf] by metis
  then show "v \<in> {opt_name (snap d base f), opt_name (snap d sh f), opt_name (snap d th f)}"
    using q(2) by (auto simp: conflict_at_def)
qed

lemma row_at_source_only:
  assumes "analysis_ok d base sh th an"
  shows "row_at me_FileID f (ma_SourceOnly an) =
    (if one_sided (snap d base) (snap d sh) (snap d th) f then entry_at d sh f else None)"
proof -
  let ?O = "one_sided (snap d base) (snap d sh) (snap d th)"
  have so: "set (ma_SourceOnly an) = {e. \<exists>f. ?O f \<and> entry_at d sh f = Some e}"
    and dist: "distinct (map me_FileID (ma_SourceOnly an))"
    using assms unfolding analysis_ok_def by blast+
  have "row_at me_FileID f (ma_SourceOnly an) = Some e \<longleftrightarrow> ?O f \<and> entry_at d sh f = Some e" for e
    unfolding row_at_iff [OF dist] so using entry_at_FileID by auto
  then have "row_at me_FileID f (ma_SourceOnly an) = Some e \<longleftrightarrow> (if ?O f then entry_at d sh f else None) = Some e" for e
    by simp
  then show ?thesis by (metis not_Some_eq)
qed

lemma merged_map_versions:
  assumes ok: "db_ok d" and an: "analysis_ok d base sh th an" and valid: "validate_resolutions an rs = None"
  shows "map_versions (merged_map (sql_snapshot_paths th d) an rs) =
    merged (snap d base) (snap d sh) (snap d th) rs"
proof
  fix f
  let ?m1 = "gomap_of me_FileID entry_row (sql_snapshot_paths th d) []"
  let ?m2 = "gomap_of me_FileID entry_row (ma_SourceOnly an) ?m1"
  have sch: "schema_ok d" using ok by (simp add: db_ok_def)
  have "map_versions ?m1 f = snap d th f"
    using map_versions_gomap_of [OF distinct_snapshot_files [OF sch]]
    by (simp add: row_at_snapshot_paths [OF sch] entry_at_def entry_row_def map_versions_def split: option.splits)
  moreover have "distinct (map me_FileID (ma_SourceOnly an))" using an by (simp add: analysis_ok_def)
  ultimately have m2: "map_versions ?m2 f = (if one_sided (snap d base) (snap d sh) (snap d th) f \<and> snap d sh f \<noteq> None
      then snap d sh f else snap d th f)"
    using map_versions_gomap_of [of me_FileID "ma_SourceOnly an" entry_row ?m1 f]
    by (auto simp: row_at_source_only [OF an] entry_at_def entry_row_def split: option.splits)
  show "map_versions (merged_map (sql_snapshot_paths th d) an rs) f = merged (snap d base) (snap d sh) (snap d th) rs f"
  proof (cases "ma_Type an = MergeTypeConflict")
    case False
    then have "\<not> differs (snap d base) (snap d sh) (snap d th) f"
      using analysis_resolutions(1) [OF an valid] by blast
    with False m2 show ?thesis by (simp add: merged_map_def Let_def merged_def)
  next
    case True
    have "map_versions (gomap_of mr_FileID resolution_row rs ?m2) f =
        (case resolved rs f of None \<Rightarrow> map_versions ?m2 f | Some v \<Rightarrow> Some v)"
      using map_versions_gomap_of [OF analysis_resolutions(2) [OF an valid True], of resolution_row ?m2 f]
      by (simp add: resolved_def resolution_row_def split: option.splits)
    then show ?thesis
      using True m2 analysis_resolutions(3) [OF an valid True, of f]
      by (auto simp: merged_map_def Let_def merged_def split: option.splits)
  qed
qed

lemma snap_version:
  assumes "db_ok d" "snap d c f = Some v" "fv \<in> set (file_versions d)" "fv_ID fv = v"
  shows "fv_FileID fv = f"
proof -
  have typed: "snapshot_typed d" and dist: "distinct (map fv_ID (file_versions d))"
    and keys: "distinct (map cf_key (commit_files d))"
    using assms(1) by (simp_all add: db_ok_def history_ok_def schema_okD)
  from assms(2) obtain cf where cf: "cf \<in> set (commit_files d)" "cf_FileID cf = f" "cf_FileVersionID cf = v"
    unfolding snap_Some [OF keys] by blast
  with typed obtain fv' where "fv' \<in> set (file_versions d)" "fv_ID fv' = v" "fv_FileID fv' = f"
    unfolding snapshot_typed_def by blast
  with dist assms(3,4) show ?thesis by (auto simp: distinct_map inj_on_def)
qed

lemma distinct_merged_map: "distinct (map fst (merged_map ts an rs))"
  by (simp add: merged_map_def Let_def distinct_gomap_of)

lemma keyed_gomap_of:
  assumes "\<And>k cf. map_of m k = Some cf \<Longrightarrow> cf_FileID cf = k" "\<And>x. cf_FileID (val x) = key x"
    and "map_of (gomap_of key val xs m) k = Some cf"
  shows "cf_FileID cf = k"
  using assms(1,3)
proof (induction xs arbitrary: m)
  case Nil
  then show ?case by simp
next
  case (Cons x xs)
  show ?case
    by (rule Cons.IH [of "AList.update (key x) (val x) m"])
      (use Cons.prems assms(2) in \<open>auto simp: update_conv' split: if_splits\<close>)
qed

lemma keyed_merged_map:
  assumes "map_of (merged_map ts an rs) k = Some cf"
  shows "cf_FileID cf = k"
proof -
  let ?m1 = "gomap_of me_FileID entry_row ts []"
  let ?m2 = "gomap_of me_FileID entry_row (ma_SourceOnly an) ?m1"
  have 1: "cf_FileID cf = k" if "map_of ?m1 k = Some cf" for k cf
    using that by (rule keyed_gomap_of [rotated 2]) (simp_all add: entry_row_def)
  have 2: "cf_FileID cf = k" if "map_of ?m2 k = Some cf" for k cf
    using that by (rule keyed_gomap_of [rotated 2]) (simp_all add: entry_row_def 1)
  have 3: "cf_FileID cf = k" if "map_of (gomap_of mr_FileID resolution_row rs ?m2) k = Some cf" for k cf
    using that by (rule keyed_gomap_of [rotated 2]) (simp_all add: resolution_row_def 2)
  show ?thesis using assms 2 3 by (auto simp: merged_map_def Let_def split: if_splits)
qed

lemma map_sound_merged_map:
  assumes ok: "db_ok d" and an: "analysis_ok d base sh th an" and valid: "validate_resolutions an rs = None"
  shows "map_sound d (merged_map (sql_snapshot_paths th d) an rs)" (is "map_sound d ?m")
proof -
  have named: "fv_ID fv \<noteq> ''''" if "fv \<in> set (file_versions d)" for fv
    using ok that by (auto simp: db_ok_def history_ok_def versions_named_def)
  have "fv_FileID fv = k" if cf: "map_of ?m k = Some cf" and fv: "fv \<in> set (file_versions d)" "fv_ID fv = cf_FileVersionID cf" for k cf fv
  proof -
    from cf have m: "merged (snap d base) (snap d sh) (snap d th) rs k = Some (fv_ID fv)"
      using merged_map_versions [OF ok an valid] fv(2) by (metis map_versions_def option.simps(9))
    show ?thesis
    proof (cases "differs (snap d base) (snap d sh) (snap d th) k")
      case True
      then have "ma_Type an = MergeTypeConflict" "resolved rs k = Some (fv_ID fv)"
        using analysis_resolutions(1) [OF an valid] m by (auto simp: merged_def)
      from analysis_resolutions(4) [OF an valid this] named [OF fv(1)]
      have "fv_ID fv \<in> {v. \<exists>c. snap d c k = Some v}" by (auto simp: opt_name_def split: option.splits if_splits)
      then show ?thesis using snap_version [OF ok _ fv(1)] by auto
    next
      case False
      then show ?thesis using m snap_version [OF ok _ fv(1)] by (auto simp: merged_def split: if_splits)
    qed
  qed
  then show ?thesis
    using keyed_merged_map distinct_merged_map by (auto simp: map_sound_def)
qed

section \<open>Execute\<close>

text \<open>
  What a merge that stops on the way leaves behind: nothing, or the new commit with no snapshot or
  with the whole one, to which no ref points.
\<close>

definition left_behind :: "db \<Rightarrow> Commit \<Rightarrow> (string \<rightharpoonup> string) \<Rightarrow> db \<Rightarrow> bool" where
  "left_behind d c versions d' \<longleftrightarrow> d' = d \<or> c_ID c \<notin> c_ID ` set (commits d)
     \<and> (\<exists>rows. d' = d\<lparr>commits := commits d @ [c], commit_files := rows\<rparr>)
     \<and> (snap d' (c_ID c) = Map.empty \<or> snap d' (c_ID c) = versions)"

lemma left_behindI:
  "c_ID c \<notin> c_ID ` set (commits d) \<Longrightarrow> d' = d\<lparr>commits := commits d @ [c], commit_files := rows\<rparr> \<Longrightarrow>
    snap d' (c_ID c) = Map.empty \<or> snap d' (c_ID c) = versions \<Longrightarrow> left_behind d c versions d'"
  by (auto simp: left_behind_def)

lemma wp_merge_write:
  assumes ok: "db_ok (w_db w)" and sound: "map_sound (w_db w) m"
    and parents: "set (c_ParentIDs c) \<subseteq> c_ID ` set (commits (w_db w))" "parent_compat c"
    and t: "r_ProjectID t = c_ProjectID c"
    and err: "\<And>e w'. db_ok (w_db w') \<Longrightarrow> same_env w w' \<Longrightarrow> history_frame (w_db w) (w_db w') \<Longrightarrow>
      ref_target (w_db w') = ref_target (w_db w) \<Longrightarrow>
      left_behind (w_db w) c (map_versions m) (w_db w') \<Longrightarrow> Q (Inl e) w'"
    and don: "\<And>w'. db_ok (w_db w') \<Longrightarrow> same_env w w' \<Longrightarrow> history_frame (w_db w) (w_db w') \<Longrightarrow>
      c_ID c \<notin> c_ID ` set (commits (w_db w)) \<Longrightarrow> commits (w_db w') = commits (w_db w) @ [c] \<Longrightarrow>
      snap (w_db w') (c_ID c) = map_versions m \<Longrightarrow>
      ref_target (w_db w') = (ref_target (w_db w))(r_key t \<mapsto> c_ID c) \<Longrightarrow>
      files (w_db w') = files (w_db w) \<Longrightarrow> file_versions (w_db w') = file_versions (w_db w) \<Longrightarrow>
      Q (Inr (c\<lparr>c_ParentID := Some (c_ID c)\<rparr>)) w'"
  shows "wp (merge_write c t m) Q w"
  unfolding merge_write_def CommitStore_Create_def
proof (intro wp_go_tryI wp_db_execI, goal_cases)
  case (1 e w1)
  then show ?case using ok by (auto intro!: err simp: history_frame_def left_behind_def)
next
  case (2 x w1)
  then have d1: "w_db w1 = (w_db w)\<lparr>commits := commits (w_db w) @ [c]\<rparr>"
    and new: "c_ID c \<notin> c_ID ` set (commits (w_db w))"
    by (simp_all add: sql_insert_commit_Inr)
  have ok1: "db_ok (w_db w1)" using insert_commit_ok [OF ok 2(1) parents(2)] parents(1) by auto
  have fresh: "snap (w_db w1) (c_ID c) = Map.empty" using snap_fresh [OF ok new] d1 by (simp add: snap_def fun_eq_iff)
  have sound1: "map_sound (w_db w1) m" using sound d1 by (simp add: map_sound_def)
  have frame1: "history_frame (w_db w) (w_db w1)" unfolding history_frame_def d1 by (simp add: snap_def fun_eq_iff)
  have rt1: "ref_target (w_db w1) = ref_target (w_db w)" using d1 by (simp add: ref_target_def fun_eq_iff)
  show ?case
    unfolding sum.case
  proof (intro wp_bindI wp_go_rangeI wp_go_tryI, goal_cases)
    case (1 ks w2)
    note w2 = this
    show ?case
    proof (rule wp_SetCommitFiles, goal_cases)
      case (5 e w3)
      have "w_db w3 = w_db w1" "same_env w w3" using 5 w2 \<open>same_env w w1\<close> by (auto intro: same_env_trans)
      moreover have "left_behind (w_db w) c (map_versions m) (w_db w1)"
        using new fresh d1 by (intro left_behindI [of _ _ _ "commit_files (w_db w)"]) simp_all
      ultimately show ?case using ok1 frame1 rt1 by (auto intro!: err)
    next
      case (6 w3)
      then obtain rows where d3: "w_db w3 = (w_db w1)\<lparr>commit_files := rows\<rparr>" "db_ok (w_db w3)" "same_env w w3"
          "snap (w_db w3) = (snap (w_db w1))(c_ID c := map_versions m)"
        using w2 \<open>same_env w w1\<close> unfolding snapshot_done_def by (metis same_env_trans)
      have frame3: "history_frame (w_db w) (w_db w3)"
      proof -
        have "\<forall>x \<in> set (commits (w_db w)). c_ID x \<noteq> c_ID c" using new by (metis imageI)
        with frame1 d3 show ?thesis by (simp add: history_frame_def)
      qed
      have rt3: "ref_target (w_db w3) = ref_target (w_db w)" using rt1 d3(1) by (simp add: ref_target_def fun_eq_iff)
      show ?case
        unfolding sum.case CommitStore_UpsertRef_def
      proof (intro wp_go_tryI wp_db_execI, goal_cases)
        case (1 e w4)
        have "w_db w4 = w_db w3" "same_env w w4" using 1 d3(3) by (auto intro: same_env_trans)
        moreover have "left_behind (w_db w) c (map_versions m) (w_db w3)"
          using new d3 d1 by (intro left_behindI [of _ _ _ rows]) simp_all
        ultimately show ?case using d3(2) frame3 rt3 by (auto intro!: err)
      next
        case (2 y w4)
        let ?t = "t\<lparr>r_CommitID := c_ID c, r_UpdatedAt := c_CreatedAt c\<rparr>"
        have up: "sql_upsert_ref ?t (w_db w3) = Inr ((), w_db w4)" using 2(1) by simp
        then have d4: "w_db w4 = (w_db w3)\<lparr>refs := upsert_row r_key r_overwrite ?t (refs (w_db w3))\<rparr>"
          unfolding sql_upsert_ref_Inr by blast
        have "db_ok (w_db w4)"
          using upsert_ref_ok [OF d3(2) up] d3(1) d1 t by auto
        moreover have "history_frame (w_db w) (w_db w4)"
          using frame3 d4 by (simp add: history_frame_def snap_def)
        moreover have "same_env w w4" using d3(3) 2(2) by (rule same_env_trans)
        moreover have "snap (w_db w4) (c_ID c) = map_versions m"
          using d3(4) d4 by (simp add: snap_def fun_eq_iff)
        moreover have "ref_target (w_db w4) = (ref_target (w_db w))(r_key t \<mapsto> c_ID c)"
          using ref_target_upsert [OF up] rt3 by (simp add: r_key_def)
        moreover have "commits (w_db w4) = commits (w_db w) @ [c]" "files (w_db w4) = files (w_db w)"
            "file_versions (w_db w4) = file_versions (w_db w)"
          using d4 d3(1) d1 by simp_all
        ultimately show ?case using new by (simp add: wp_simps don)
      qed
    qed (use w2 ok1 sound1 fresh in auto)
  qed
qed

text \<open>The data that a merge of two branches works on.\<close>

definition merging :: "db \<Rightarrow> string \<Rightarrow> string \<Rightarrow> string \<Rightarrow> string \<Rightarrow> string \<Rightarrow> string \<Rightarrow> MergeAnalysis \<Rightarrow> bool" where
  "merging d p src tgt sh th base an \<longleftrightarrow> src \<noteq> tgt \<and> head_of d p src = Some sh \<and> head_of d p tgt = Some th
     \<and> \<not> reaches d sh th \<and> sql_merge_base sh th d = Some base \<and> analysis_ok d base sh th an"

definition forwarding :: "db \<Rightarrow> string \<Rightarrow> string \<Rightarrow> string \<Rightarrow> string \<Rightarrow> string \<Rightarrow> bool" where
  "forwarding d p src tgt sh th \<longleftrightarrow> src \<noteq> tgt \<and> head_of d p src = Some sh \<and> head_of d p tgt = Some th
     \<and> reaches d sh th"

lemma merging_commits:
  assumes "schema_ok d" "head_of d p n = Some (r_CommitID r)"
  shows "r_CommitID r \<in> c_ID ` set (commits d)"
  using head_is_commit [OF assms] .

text \<open>Moving an existing ref to an existing commit cannot fail.\<close>

lemma upsert_existing_ref:
  assumes "db_ok d" "t \<in> set (refs d)" "cid \<in> c_ID ` set (commits d)"
  shows "sql_upsert_ref (t\<lparr>r_CommitID := cid, r_UpdatedAt := now\<rparr>) d \<noteq> Inl e"
proof -
  have "r_key (t\<lparr>r_CommitID := cid, r_UpdatedAt := now\<rparr>) = r_key t" by (simp add: r_key_def)
  then have "r_key (t\<lparr>r_CommitID := cid, r_UpdatedAt := now\<rparr>) \<in> r_key ` set (refs d)" using assms(2) by simp
  moreover have "refs_ok d" using assms(1) by (simp add: db_ok_def schema_ok_def)
  ultimately show ?thesis using assms(2,3) by (auto simp: sql_upsert_ref_def refs_ok_def)
qed

lemma wp_fast_forward:
  assumes ok: "db_ok (w_db w)"
    and s: "row_at r_key (p, src, ''branch'') (refs (w_db w)) = Some s"
    and t: "row_at r_key (p, tgt, ''branch'') (refs (w_db w)) = Some t"
    and err: "\<And>e w'. w_db w' = w_db w \<Longrightarrow> same_env w w' \<Longrightarrow> \<not> no_faults w \<Longrightarrow> Q (Some (Inl e)) w'"
    and moved: "\<And>r w' rs. db_ok (w_db w') \<Longrightarrow> same_env w w' \<Longrightarrow> w_db w' = (w_db w)\<lparr>refs := rs\<rparr> \<Longrightarrow>
      ref_target (w_db w') = (ref_target (w_db w))((p, tgt, ''branch'') \<mapsto> r_CommitID s) \<Longrightarrow>
      (\<exists>e. r = Some (Inl e)) \<and> \<not> no_faults w \<or> (\<exists>c \<in> set (commits (w_db w)). c_ID c = r_CommitID s \<and> r = Some (Inr c)) \<Longrightarrow>
      Q r w'"
  shows "wp (fast_forward (Some s) (Some t)) Q w"
proof -
  have ref_rows: "s \<in> set (refs (w_db w))" "r_key s = (p, src, ''branch'')" "t \<in> set (refs (w_db w))"
      "r_key t = (p, tgt, ''branch'')"
    using row_at_SomeD [OF s] row_at_SomeD [OF t] by blast+
  have commit: "\<exists>c \<in> set (commits (w_db w)). c_ID c = r_CommitID s \<and> c_ProjectID c = p"
    using ok ref_rows(1,2) by (fastforce simp: db_ok_def history_ok_def refs_local_def r_key_def)
  show ?thesis
    unfolding fast_forward_def option.case prod.case CommitStore_UpsertRef_def CommitStore_GetByID_def
  proof (intro wp_bindI wp_time_NowI wp_go_mustI wp_db_execI, goal_cases)
    case (1 now w1 e w2)
    let ?t = "t\<lparr>r_CommitID := r_CommitID s, r_UpdatedAt := now\<rparr>"
    have "sql_upsert_ref ?t (w_db w) \<noteq> Inl e"
    proof (rule upsert_existing_ref [OF ok ref_rows(3)])
      show "r_CommitID s \<in> c_ID ` set (commits (w_db w))" using commit by (metis imageI)
    qed
    then show ?case using 1 by (auto intro!: err intro: same_env_trans simp: same_env_no_faults)
  next
    case (2 now w1 x w2)
    let ?t = "t\<lparr>r_CommitID := r_CommitID s, r_UpdatedAt := now\<rparr>"
    have up: "sql_upsert_ref ?t (w_db w) = Inr ((), w_db w2)" using 2 by simp
    have d2: "w_db w2 = (w_db w)\<lparr>refs := upsert_row r_key r_overwrite ?t (refs (w_db w))\<rparr>"
      using up unfolding sql_upsert_ref_Inr by blast
    have ok2: "db_ok (w_db w2)"
      using upsert_ref_ok [OF ok up] commit ref_rows(4) by (simp add: r_key_def)
    have rt: "ref_target (w_db w2) = (ref_target (w_db w))((p, tgt, ''branch'') \<mapsto> r_CommitID s)"
      using ref_target_upsert [OF up] ref_rows(4) by (simp add: r_key_def)
    have env: "same_env w w2" using 2 by (blast intro: same_env_trans)
    from commit ok obtain c where c: "c \<in> set (commits (w_db w))" "c_ID c = r_CommitID s"
      "row_at c_ID (r_CommitID s) (commits (w_db w)) = Some c"
      by (metis db_ok_def row_at_unique schema_okD(1))
    show ?case
      unfolding sum.case
    proof (intro wp_bindI wp_db_queryI, goal_cases)
      case (1 e w3)
      have "\<not> no_faults w" using 1(3) c(3) d2 env by (auto simp: same_env_no_faults)
      with 1 ok2 rt d2 env show ?case
        by (auto simp: wp_simps intro!: moved [of w3] intro: same_env_trans)
    next
      case (2 y w3)
      then have "y = c" using c(3) d2 by simp
      with 2 ok2 rt d2 env c show ?case
        by (auto simp: wp_simps intro!: moved [of w3] intro: same_env_trans)
    qed
  qed
qed

text \<open>The final state of a merge that made a commit.\<close>

definition merge_done ::
    "db \<Rightarrow> string \<Rightarrow> string \<Rightarrow> string \<Rightarrow> string \<Rightarrow> string \<Rightarrow> MergeResolution list \<Rightarrow> db \<Rightarrow> Commit \<Rightarrow> bool" where
  "merge_done d p src tgt author msg rs d' c \<longleftrightarrow> (\<exists>sh th base an s t now.
     merging d p src tgt sh th base an \<and> validate_resolutions an rs = None
     \<and> r_CommitID s = sh \<and> r_CommitID t = th
     \<and> c_ID c \<notin> c_ID ` set (commits d)
     \<and> commits d' = commits d @ [merge_row p src tgt author msg s t now (c_ID c)]
     \<and> c = (merge_row p src tgt author msg s t now (c_ID c))\<lparr>c_ParentID := Some (c_ID c)\<rparr>
     \<and> snap d' (c_ID c) = merged (snap d base) (snap d sh) (snap d th) rs
     \<and> ref_target d' = (ref_target d)((p, tgt, ''branch'') \<mapsto> c_ID c)
     \<and> files d' = files d \<and> file_versions d' = file_versions d)"

definition merge_stopped ::
    "db \<Rightarrow> string \<Rightarrow> string \<Rightarrow> string \<Rightarrow> string \<Rightarrow> string \<Rightarrow> MergeResolution list \<Rightarrow> db \<Rightarrow> bool" where
  "merge_stopped d p src tgt author msg rs d' \<longleftrightarrow> (\<exists>base an s t now cid.
     merging d p src tgt (r_CommitID s) (r_CommitID t) base an \<and> validate_resolutions an rs = None
     \<and> left_behind d (merge_row p src tgt author msg s t now cid)
         (merged (snap d base) (snap d (r_CommitID s)) (snap d (r_CommitID t)) rs) d')"

lemma wp_merge_commit:
  assumes ok: "db_ok (w_db w)" and m: "merging (w_db w) p src tgt (r_CommitID s) (r_CommitID t) base an"
    and key: "r_key t = (p, tgt, ''branch'')"
    and refuse: "\<And>e w'. w_db w' = w_db w \<Longrightarrow> same_env w w' \<Longrightarrow>
      (no_faults w \<Longrightarrow> validate_resolutions an rs = Some e) \<Longrightarrow> Q (Some (Inl e)) w'"
    and broken: "\<And>e w'. db_ok (w_db w') \<Longrightarrow> same_env w w' \<Longrightarrow> history_frame (w_db w) (w_db w') \<Longrightarrow>
      ref_target (w_db w') = ref_target (w_db w) \<Longrightarrow> validate_resolutions an rs = None \<Longrightarrow>
      merge_stopped (w_db w) p src tgt author msg rs (w_db w') \<Longrightarrow> Q (Some (Inl e)) w'"
    and don: "\<And>c w'. db_ok (w_db w') \<Longrightarrow> same_env w w' \<Longrightarrow> history_frame (w_db w) (w_db w') \<Longrightarrow>
      merge_done (w_db w) p src tgt author msg rs (w_db w') c \<Longrightarrow> Q (Some (Inr c)) w'"
  shows "wp (merge_commit p src tgt author msg rs an (Some s) (Some t)) Q w"
proof (cases "validate_resolutions an rs")
  case (Some e)
  then show ?thesis using refuse [of w] by (simp add: merge_commit_def wp_simps)
next
  case None
  have sch: "schema_ok (w_db w)" using ok by (simp add: db_ok_def)
  have an: "analysis_ok (w_db w) base (r_CommitID s) (r_CommitID t) an" using m by (simp add: merging_def)
  have heads: "r_CommitID s \<in> c_ID ` set (commits (w_db w))" "r_CommitID t \<in> c_ID ` set (commits (w_db w))"
    using head_is_commit [OF sch] m by (auto simp: merging_def)
  show ?thesis
    unfolding merge_commit_def None option.case CommitStore_GetCommitSnapshotWithPaths_def Let_def
  proof (intro wp_go_mustI wp_db_queryI, goal_cases)
    case (1 e w1)
    then show ?case by (auto intro: refuse)
  next
    case (2 ts w1)
    then have ts: "ts = sql_snapshot_paths (r_CommitID t) (w_db w)" by simp
    note w1 = 2(2,3)
    show ?case
      unfolding sum.case
    proof (intro wp_bindI wp_time_NowI wp_generateUUIDI, goal_cases)
      case (1 now w2 cid w3)
      let ?c = "merge_row p src tgt author msg s t now cid"
      have d3: "w_db w3 = w_db w" and env3: "same_env w w3" using 1 w1 by (auto intro: same_env_trans)
      have "wp (merge_write ?c t (merged_map ts an rs)) (\<lambda>r w'. Q (Some r) w') w3"
      proof (rule wp_merge_write, goal_cases)
        case 1 show ?case using ok d3 by simp
      next
        case 2 show ?case using map_sound_merged_map [OF ok an None] d3 ts by simp
      next
        case 3 show ?case using heads d3 by (simp add: merge_row_def)
      next
        case 4 show ?case by (simp add: parent_compat_def merge_row_def)
      next
        case 5 show ?case using key by (simp add: merge_row_def r_key_def)
      next
        case (6 e w')
        have "merge_stopped (w_db w) p src tgt author msg rs (w_db w')"
          unfolding merge_stopped_def
          using 6(5) d3 m None ts merged_map_versions [OF ok an None]
          by (intro exI [of _ base] exI [of _ an] exI [of _ s] exI [of _ t] exI [of _ now] exI [of _ cid]) simp
        then show ?case using 6 d3 env3 None by (auto intro!: broken intro: same_env_trans)
      next
        case (7 w')
        have "merge_done (w_db w) p src tgt author msg rs (w_db w') (?c\<lparr>c_ParentID := Some (c_ID ?c)\<rparr>)"
          unfolding merge_done_def
          using 7 d3 m None key ts merged_map_versions [OF ok an None]
          by (intro exI [of _ "r_CommitID s"] exI [of _ "r_CommitID t"] exI [of _ base] exI [of _ an]
              exI [of _ s] exI [of _ t] exI [of _ now]) (simp add: merge_row_def)
        then show ?case using 7 d3 env3 by (auto intro!: don intro: same_env_trans)
      qed
      then show ?case by (simp add: wp_simps wp_return_eta)
    qed
  qed
qed

text \<open>A dropped error of \<open>GetRef\<close> ends in a panic or an error, before anything is written.\<close>

lemma wp_fast_forward_nil:
  assumes "s = None \<or> t = None" "\<And>w'. w_db w' = w_db w \<Longrightarrow> same_env w w' \<Longrightarrow> Q None w'"
  shows "wp (fast_forward s t) Q w"
  using assms by (cases s; cases t) (simp_all add: fast_forward_def wp_simps)

lemma wp_merge_commit_nil:
  assumes "s = None \<or> t = None" "\<And>w'. w_db w' = w_db w \<Longrightarrow> same_env w w' \<Longrightarrow> Q None w'"
    and "\<And>e w'. w_db w' = w_db w \<Longrightarrow> same_env w w' \<Longrightarrow> Q (Some (Inl e)) w'"
  shows "wp (merge_commit p src tgt author msg rs an s t) Q w"
proof (cases "validate_resolutions an rs")
  case (Some e)
  then show ?thesis using assms(3) by (simp add: merge_commit_def wp_simps)
next
  case None
  show ?thesis
  proof (cases t)
    case None
    then show ?thesis
      using assms(2) \<open>validate_resolutions an rs = None\<close> by (simp add: merge_commit_def wp_simps)
  next
    case (Some t')
    then have "s = None" using assms(1) by simp
    show ?thesis
      unfolding merge_commit_def \<open>validate_resolutions an rs = None\<close> Some \<open>s = None\<close> option.case
        CommitStore_GetCommitSnapshotWithPaths_def Let_def
      by (simp add: wp_simps assms(2,3) same_env_def)
  qed
qed

lemma wp_Execute:
  assumes ok: "db_ok (w_db w)"
    and refuse: "\<And>e w'. w_db w' = w_db w \<Longrightarrow> same_env w w' \<Longrightarrow>
      (no_faults w \<Longrightarrow> analyze_error (w_db w) p src tgt e \<or>
        (\<exists>sh th base an. merging (w_db w) p src tgt sh th base an \<and> validate_resolutions an rs = Some e)) \<Longrightarrow>
      Q (Some (Inl e)) w'"
    and panics: "\<And>w'. w_db w' = w_db w \<Longrightarrow> same_env w w' \<Longrightarrow> \<not> no_faults w \<Longrightarrow> Q None w'"
    and broken: "\<And>e w' sh th base an. db_ok (w_db w') \<Longrightarrow> same_env w w' \<Longrightarrow> history_frame (w_db w) (w_db w') \<Longrightarrow>
      ref_target (w_db w') = ref_target (w_db w) \<Longrightarrow> merging (w_db w) p src tgt sh th base an \<Longrightarrow>
      validate_resolutions an rs = None \<Longrightarrow>
      merge_stopped (w_db w) p src tgt author msg rs (w_db w') \<Longrightarrow> Q (Some (Inl e)) w'"
    and moved: "\<And>r w' rs sh th. db_ok (w_db w') \<Longrightarrow> same_env w w' \<Longrightarrow> w_db w' = (w_db w)\<lparr>refs := rs\<rparr> \<Longrightarrow>
      forwarding (w_db w) p src tgt sh th \<Longrightarrow>
      ref_target (w_db w') = (ref_target (w_db w))((p, tgt, ''branch'') \<mapsto> sh) \<Longrightarrow>
      (\<exists>e. r = Some (Inl e)) \<and> \<not> no_faults w \<or> (\<exists>c \<in> set (commits (w_db w)). c_ID c = sh \<and> r = Some (Inr c)) \<Longrightarrow>
      Q r w'"
    and don: "\<And>c w'. db_ok (w_db w') \<Longrightarrow> same_env w w' \<Longrightarrow> history_frame (w_db w) (w_db w') \<Longrightarrow>
      merge_done (w_db w) p src tgt author msg rs (w_db w') c \<Longrightarrow> Q (Some (Inr c)) w'"
  shows "wp (Execute p src tgt author msg rs) Q w"
  unfolding Execute_def
proof (intro wp_go_mustI wp_Analyze [OF ok], goal_cases)
  case (1 e w1)
  then show ?case by (auto intro: refuse)
next
  case (2 sh th w1)
  note ff = this
  show ?case
    unfolding sum.case
  proof (intro wp_bindI wp_GetRef_branch, goal_cases)
    case (4 s w2 t w3)
    have w3: "w_db w3 = w_db w" "same_env w w3" using ff 4 by (auto intro: same_env_trans)
    have heads: "r_CommitID s = sh" "r_CommitID t = th" using ff 4 by simp_all
    have "wp (fast_forward (Some s) (Some t)) Q w3"
    proof (rule wp_fast_forward [of w3 p src s tgt t], goal_cases)
      case (4 e w')
      then show ?case using w3 by (auto intro!: refuse intro: same_env_trans simp: same_env_no_faults)
    next
      case (5 r w' rs)
      have "forwarding (w_db w) p src tgt sh th" using ff by (simp add: forwarding_def)
      then show ?case using 5 w3 heads
        by (intro moved [of w' rs sh th]) (auto intro: same_env_trans simp: same_env_no_faults)
    qed (use ok w3 ff 4 in simp_all)
    then show ?case by (simp add: new_analysis_def ref_or_nil_def)
  next
    case (1 e w2 e' w3)
    then have "\<not> no_faults w" using ff by (auto simp: same_env_no_faults)
    with 1 ff show ?case
      by (auto simp: new_analysis_def ref_or_nil_def intro!: wp_fast_forward_nil panics intro: same_env_trans)
  next
    case (2 e w2 t w3)
    then have "\<not> no_faults w" using ff by (auto simp: same_env_no_faults)
    with 2 ff show ?case
      by (auto simp: new_analysis_def ref_or_nil_def intro!: wp_fast_forward_nil panics intro: same_env_trans)
  next
    case (3 s w2 e w3)
    then have "\<not> no_faults w" using ff by (auto simp: same_env_no_faults)
    with 3 ff show ?case
      by (auto simp: new_analysis_def ref_or_nil_def intro!: wp_fast_forward_nil panics intro: same_env_trans)
  qed
next
  case (3 sh th base an w1)
  note m = this
  note m3 = this
  have "merging (w_db w) p src tgt sh th base an" using m by (simp add: merging_def)
  have "ma_Type an \<noteq> MergeTypeFastForward" using m by (auto simp: analysis_ok_def)
  then show ?case
    unfolding sum.case
  proof (simp only: if_False, intro wp_bindI wp_GetRef_branch, goal_cases)
    case (4 s w2 t w3)
    note m = \<open>merging (w_db w) p src tgt sh th base an\<close>
    have w3: "w_db w3 = w_db w" "same_env w w3" using 4 m3 by (auto intro: same_env_trans)
    have heads: "r_CommitID s = sh" "r_CommitID t = th" using 4 m3 by simp_all
    have "row_at r_key (p, tgt, ''branch'') (refs (w_db w)) = Some t" using 4 m3 by simp
    then have key: "r_key t = (p, tgt, ''branch'')" using row_at_SomeD by metis
    have "wp (merge_commit p src tgt author msg rs an (Some s) (Some t)) Q w3"
    proof (rule wp_merge_commit [where base = base], goal_cases)
      case 1 show ?case using ok w3 by simp
    next
      case 2 show ?case using m w3 heads by simp
    next
      case 3 show ?case by (rule key)
    next
      case (4 e w')
      then show ?case using w3 m by (auto intro!: refuse intro: same_env_trans simp: same_env_no_faults)
    next
      case (5 e w')
      then show ?case using w3 m by (auto intro!: broken [OF _ _ _ _ m] intro: same_env_trans)
    next
      case (6 c w')
      then show ?case using w3 by (auto intro!: don intro: same_env_trans)
    qed
    then show ?case by (simp add: ref_or_nil_def)
  next
    case (1 e w2 e' w3)
    then have "\<not> no_faults w" using m by (auto simp: same_env_no_faults)
    with 1 m show ?case
      by (auto simp: ref_or_nil_def intro!: wp_merge_commit_nil panics refuse intro: same_env_trans)
  next
    case (2 e w2 t w3)
    then have "\<not> no_faults w" using m by (auto simp: same_env_no_faults)
    with 2 m show ?case
      by (auto simp: ref_or_nil_def intro!: wp_merge_commit_nil panics refuse intro: same_env_trans)
  next
    case (3 s w2 e w3)
    then have "\<not> no_faults w" using m by (auto simp: same_env_no_faults)
    with 3 m show ?case
      by (auto simp: ref_or_nil_def intro!: wp_merge_commit_nil panics refuse intro: same_env_trans)
  qed
qed

section \<open>Reachability over time\<close>

lemma reaches_refl [simp]: "reaches d x x"
  by (simp add: reaches_def)

lemma parent_of_append: "parent_of rows \<subseteq> parent_of (rows @ cs)"
  by (auto simp: parent_of_def)

lemma reaches_merge_row:
  assumes "commits d' = commits d @ [merge_row p src tgt u msg s t now cid]"
    and "x \<in> {r_CommitID s, r_CommitID t}" "x \<in> c_ID ` set (commits d)"
  shows "reaches d' cid x"
proof -
  have "(cid, x) \<in> parent_of (commits d')"
    using assms by (auto simp: parent_of_def merge_row_def)
  then show ?thesis by (auto simp: reaches_def)
qed

lemma reaches_append:
  assumes "commits d' = commits d @ cs" "reaches d x y"
  shows "reaches d' x y"
proof -
  have "parent_of (commits d) \<subseteq> parent_of (commits d')" using assms(1) by (simp add: parent_of_append)
  from rtrancl_mono [OF this] assms(2) show ?thesis by (auto simp: reaches_def)
qed

lemma reaches_mono: "history_frame d d' \<Longrightarrow> reaches d x y \<Longrightarrow> reaches d' x y"
  unfolding history_frame_def by (blast intro: reaches_append)

end
