(* ===== verification/Server.thy ===== *)
theory Server
  imports Push_Handler Pull_Handler Version_Handler Merge_Handler Lock_Service Merge_Proofs
begin

text \<open>
  The server as a state machine: the requests of the protected routes of
  \<^verbatim>\<open>cmd/server/main.go\<close>, each handled from start to end in one step, and what every run keeps.
\<close>

section \<open>Requests\<close>

text \<open>
  The user of a request is the one the auth middleware found in the token, the project the one
  of the path.
\<close>

datatype request =
    CheckChunks "string list option"
  | UploadChunk string bytes
  | PushCommit string string "PushRequest option"
  | PullDiff string "PullRequest option"
  | DownloadChunk string
  | CreateBranch string "BranchRequest option"
  | AnalyzeMerge string "AnalyzeRequest option"
  | ExecuteMerge string string "ExecuteRequest option"
  | AcquireLock string string "AcquireRequest option"
  | ReleaseLock string string "ReleaseRequest option"
  | ListLocks string
  | ListCommits string string string
  | GetCommit string
  | ListCommitFiles string
  | ListRefs string
  | GetTree string string

text \<open>The status of the reply; the handlers say what is in it.\<close>

definition status_of :: "'a reply io \<Rightarrow> nat io" where
  "status_of m = do { r \<leftarrow> m; ret (status r) }"

primrec route :: "int \<Rightarrow> request \<Rightarrow> nat io" where
  "route maxSize (CheckChunks body) = status_of (PushHandler_CheckChunks body)"
| "route maxSize (UploadChunk h data) = status_of (PushHandler_UploadChunk maxSize h data)"
| "route maxSize (PushCommit p u body) = status_of (PushHandler_Commit p u body)"
| "route maxSize (PullDiff p body) = status_of (PullHandler_Diff p body)"
| "route maxSize (DownloadChunk h) = status_of (PullHandler_DownloadChunk h)"
| "route maxSize (CreateBranch p body) = status_of (MergeHandler_CreateBranch p body)"
| "route maxSize (AnalyzeMerge p body) = status_of (MergeHandler_AnalyzeMerge p body)"
| "route maxSize (ExecuteMerge p u body) = status_of (MergeHandler_ExecuteMerge p u body)"
| "route maxSize (AcquireLock p u body) = status_of (LockHandler_Acquire p u body)"
| "route maxSize (ReleaseLock p u body) = status_of (LockHandler_Release p u body)"
| "route maxSize (ListLocks p) = status_of (LockHandler_List p)"
| "route maxSize (ListCommits p limit offset) = status_of (VersionHandler_ListCommits p limit offset)"
| "route maxSize (GetCommit c) = status_of (VersionHandler_GetCommit c)"
| "route maxSize (ListCommitFiles c) = status_of (VersionHandler_ListCommitFiles c)"
| "route maxSize (ListRefs p) = status_of (VersionHandler_ListRefs p)"
| "route maxSize (GetTree p ref) = status_of (VersionHandler_GetTree p ref)"

lemma wp_status_of: "wp m (\<lambda>_. Q) w \<Longrightarrow> wp (status_of m) (\<lambda>_. Q) w"
  unfolding status_of_def by (intro wp_bindI) (simp add: wp_return_eta)

datatype event = Served request nat | Elapsed

text \<open>
  Between two requests anything may happen to the clock, the random source and the
  availability of the stores, but nobody else writes to them.
\<close>

inductive server_step :: "int \<Rightarrow> world \<Rightarrow> event \<Rightarrow> world \<Rightarrow> bool" for maxSize where
  served: "run_state (route maxSize req) w = (st, w') \<Longrightarrow> server_step maxSize w (Served req st) w'"
| elapsed: "w_db w' = w_db w \<Longrightarrow> w_blobs w' = w_blobs w \<Longrightarrow> server_step maxSize w Elapsed w'"

inductive_cases server_stepE: "server_step maxSize w ev w'"

inductive server_run :: "int \<Rightarrow> world \<Rightarrow> event list \<Rightarrow> world \<Rightarrow> bool" for maxSize where
  run_Nil: "server_run maxSize w [] w"
| run_Cons: "server_step maxSize w ev w1 \<Longrightarrow> server_run maxSize w1 evs w2 \<Longrightarrow> server_run maxSize w (ev # evs) w2"

inductive_simps server_run_simps [simp]: "server_run maxSize w [] w'" "server_run maxSize w (ev # evs) w'"

section \<open>What the requests do not touch\<close>

text \<open>Locks: only the lock requests write them.\<close>

definition same_locks :: "world \<Rightarrow> world \<Rightarrow> bool" where
  "same_locks w w' \<longleftrightarrow> locks (w_db w') = locks (w_db w)"

text \<open>Chunks and objects: only an upload adds some.\<close>

definition same_content :: "world \<Rightarrow> world \<Rightarrow> bool" where
  "same_content w w' \<longleftrightarrow> w_blobs w' = w_blobs w \<and>
     ch_Hash ` set (chunks (w_db w')) = ch_Hash ` set (chunks (w_db w))"

text \<open>The history and the invariants: every request keeps them.\<close>

definition history_grows :: "world \<Rightarrow> world \<Rightarrow> bool" where
  "history_grows w w' \<longleftrightarrow> (db_ok (w_db w) \<longrightarrow> db_ok (w_db w') \<and> history_frame (w_db w) (w_db w'))"

interpretation locks_frame: frame_relation same_locks
  by unfold_locales (simp_all add: same_locks_def)

interpretation content_frame: frame_relation same_content
  by unfold_locales (simp_all add: same_content_def)

interpretation history: frame_relation history_grows
  by unfold_locales (auto simp: history_grows_def intro: history_frame_trans)

text \<open>A commit and a merge respect every frame that their statements respect.\<close>

context frame_relation
begin

lemma frame_CreateCommit:
  assumes create: "\<And>c. preserves R (CommitStore_Create c)"
    and files: "\<And>cid es. preserves R (CommitStore_SetCommitFiles cid es)"
    and ref: "\<And>r. preserves R (CommitStore_UpsertRef r)"
    and upsert: "\<And>f. preserves R (FileStore_Upsert f)"
    and version: "\<And>fv. preserves R (FileStore_CreateVersion fv)"
    and count: "\<And>hs. preserves R (ChunkStore_IncrementRefCount hs)"
  shows "preserves R (CreateCommit req)"
proof -
  have get: "preserves R (FileStore_GetByPath p path)" for p path
    unfolding FileStore_GetByPath_def by (rule frame_db_query)
  have loop: "preserves R (commit_files_loop p cid now fs m hs)" for p cid now fs m hs
    by (induction fs arbitrary: m hs) (auto intro!: frame_intros upsert version get)
  have check: "preserves R (verify_parent req)"
    unfolding verify_parent_def CommitStore_GetRef_def by (auto intro!: frame_intros split: sum.splits)
  have parent: "preserves R (parent_snapshot req)"
    unfolding parent_snapshot_def CommitStore_GetCommitSnapshot_def
    by (auto intro!: frame_intros split: sum.splits option.splits)
  have finish: "preserves R (commit_finish req cid now m hs)" for cid now m hs
    unfolding commit_finish_def count_chunks_def advance_ref_def
    by (auto intro!: frame_intros files count ref)
  show ?thesis
    unfolding CreateCommit_def commit_write_def Let_def
    by (auto intro!: frame_intros check create parent loop finish split: prod.splits)
qed

lemma frame_Execute:
  assumes create: "\<And>c. preserves R (CommitStore_Create c)"
    and files: "\<And>cid es. preserves R (CommitStore_SetCommitFiles cid es)"
    and ref: "\<And>r. preserves R (CommitStore_UpsertRef r)"
  shows "preserves R (Execute p src tgt author msg rs)"
proof -
  have analyze: "preserves R (Analyze p src tgt)"
    unfolding Analyze_def analyze_snapshots_def CommitStore_GetRef_def CommitStore_IsAncestor_def
      CommitStore_FindMergeBase_def CommitStore_GetCommitSnapshotWithPaths_def Let_def
    by (auto intro!: frame_intros)
  have merge: "preserves R (merge_write c t m)" for c t m
    unfolding merge_write_def by (auto intro!: frame_intros create files ref)
  have ff: "preserves R (fast_forward s t)" for s t
    unfolding fast_forward_def CommitStore_GetByID_def
    by (auto intro!: frame_intros ref split: option.splits)
  have mc: "preserves R (merge_commit p src tgt author msg rs an s t)" for an s t
    unfolding merge_commit_def CommitStore_GetCommitSnapshotWithPaths_def Let_def
    by (auto intro!: frame_intros merge split: option.splits)
  show ?thesis
    unfolding Execute_def CommitStore_GetRef_def by (auto intro!: frame_intros analyze ff mc)
qed

lemma frame_status_of [frame_intros]: "preserves R m \<Longrightarrow> preserves R (status_of m)"
  unfolding status_of_def by (auto intro!: frame_intros)

text \<open>Requests that only read.\<close>

lemma frame_reads:
  "preserves R (PullHandler_Diff p body1)"
  "preserves R (LockHandler_List p)"
  "preserves R (MergeHandler_AnalyzeMerge p body2)"
  "preserves R (VersionHandler_ListCommits p l off)"
  "preserves R (VersionHandler_GetCommit c)"
  "preserves R (VersionHandler_ListCommitFiles c)"
  "preserves R (VersionHandler_ListRefs p)"
  "preserves R (VersionHandler_GetTree p ref)"
  "preserves R (PushHandler_CheckChunks body3)"
proof -
  have resolve: "preserves R (ResolveRef p ref)" for p ref
    unfolding ResolveRef_def CommitStore_GetRef_def by (auto intro!: frame_intros split: sum.splits)
  have diff: "preserves R (ComputeDiff a b)" for a b
    unfolding ComputeDiff_def FileStore_GetVersionsByCommit_def by (auto intro!: frame_intros split: option.splits)
  show "preserves R (PullHandler_Diff p body1)"
    unfolding PullHandler_Diff_def PullHandler_DiffTo_def
    by (auto intro!: frame_intros resolve diff split: option.splits)
  show "preserves R (LockHandler_List p)"
    unfolding LockHandler_List_def LockService_List_def LockStore_ListByProject_def
    by (auto intro!: frame_intros split: sum.splits)
  show "preserves R (MergeHandler_AnalyzeMerge p body2)"
    unfolding MergeHandler_AnalyzeMerge_def Analyze_def analyze_snapshots_def CommitStore_GetRef_def
      CommitStore_IsAncestor_def CommitStore_FindMergeBase_def CommitStore_GetCommitSnapshotWithPaths_def Let_def
    by (auto intro!: frame_intros split: option.splits)
  show "preserves R (VersionHandler_ListCommits p l off)" "preserves R (VersionHandler_GetCommit c)"
    "preserves R (VersionHandler_ListCommitFiles c)" "preserves R (VersionHandler_ListRefs p)"
    unfolding VersionHandler_ListCommits_def VersionHandler_GetCommit_def VersionHandler_ListCommitFiles_def
      VersionHandler_ListRefs_def VersionService_ListCommits_def VersionService_GetCommit_def
      VersionService_GetCommitFiles_def VersionService_ListRefs_def CommitStore_ListByProject_def
      CommitStore_GetByID_def FileStore_GetVersionsByCommit_def CommitStore_ListRefs_def
    by (auto intro!: frame_intros)
  show "preserves R (VersionHandler_GetTree p ref)"
    unfolding VersionHandler_GetTree_def VersionService_GetFileTree_def FileStore_ListFileTree_def Let_def
    by (auto intro!: frame_intros resolve)
  show "preserves R (PushHandler_CheckChunks body3)"
    unfolding PushHandler_CheckChunks_def ChunkService_CheckExisting_def ChunkStore_CheckExisting_def
    by (auto intro!: frame_intros split: option.splits prod.splits)
qed

lemma frame_DownloadChunk: "preserves R (PullHandler_DownloadChunk h)"
proof -
  have get: "preserves R (MinioStore_Get h)"
    by (auto simp: preserves_def wp_simps intro: frame_idle split: option.splits)
  show ?thesis
    unfolding PullHandler_DownloadChunk_def ChunkService_Download_def ChunkStore_GetByHash_def
    by (auto intro!: frame_intros get split: prod.splits)
qed

end

section \<open>Locks\<close>

lemma locks_statements:
  "preserves same_locks (CommitStore_Create c)"
  "preserves same_locks (CommitStore_SetCommitFiles cid es)"
  "preserves same_locks (CommitStore_UpsertRef r)"
  "preserves same_locks (FileStore_Upsert f)"
  "preserves same_locks (FileStore_CreateVersion fv)"
  "preserves same_locks (ChunkStore_IncrementRefCount hs)"
  "preserves same_locks (ChunkStore_Insert k)"
  unfolding CommitStore_Create_def CommitStore_SetCommitFiles_def CommitStore_UpsertRef_def FileStore_Upsert_def
    FileStore_CreateVersion_def ChunkStore_IncrementRefCount_def ChunkStore_Insert_def
  by (auto intro!: locks_frame.frame_db_exec locks_frame.frame_if locks_frame.frame_return
    simp: same_locks_def sql_insert_commit_Inr sql_upsert_commit_files_Inr sql_upsert_ref_Inr
      sql_upsert_file_Inr sql_insert_version_Inr sql_insert_chunk_Inr dest!: sql_add_ref_count_Inr)

lemma locks_CreateBranch: "preserves same_locks (MergeHandler_CreateBranch p body)"
  unfolding MergeHandler_CreateBranch_def CommitStore_GetRef_def Let_def GenerateUUID_def
  by (auto intro!: frame_intros locks_statements split: option.splits)

lemma locks_requests:
  "preserves same_locks (PushHandler_UploadChunk maxSize h data)"
  "preserves same_locks (PushHandler_Commit p u body)"
  "preserves same_locks (MergeHandler_ExecuteMerge p u body')"
proof -
  have put: "preserves same_locks (MinioStore_Put k data)" for k
    by (auto simp: preserves_def wp_simps same_locks_def split: option.splits)
  show "preserves same_locks (PushHandler_UploadChunk maxSize h data)"
    unfolding PushHandler_UploadChunk_def ChunkService_Upload_def Let_def
    by (auto intro!: frame_intros put locks_statements split: option.splits)
  show "preserves same_locks (PushHandler_Commit p u body)"
    unfolding PushHandler_Commit_def LockService_CheckPushPaths_def LockStore_CheckPaths_def Let_def
    by (auto intro!: frame_intros locks_frame.frame_CreateCommit locks_statements split: option.splits)
  show "preserves same_locks (MergeHandler_ExecuteMerge p u body')"
    unfolding MergeHandler_ExecuteMerge_def
    by (auto intro!: frame_intros locks_frame.frame_Execute locks_statements split: option.splits)
qed

text \<open>Only acquiring and releasing change the locks.\<close>

lemma locks_route:
  assumes "\<And>p u body. req \<noteq> AcquireLock p u body" "\<And>p u body. req \<noteq> ReleaseLock p u body"
  shows "preserves same_locks (route maxSize req)"
  using assms
  by (cases req) (auto intro!: locks_frame.frame_status_of locks_frame.frame_reads locks_frame.frame_DownloadChunk
    locks_requests locks_CreateBranch)

section \<open>Chunks\<close>

lemma content_statements:
  "preserves same_content (CommitStore_Create c)"
  "preserves same_content (CommitStore_SetCommitFiles cid es)"
  "preserves same_content (CommitStore_UpsertRef r)"
  "preserves same_content (FileStore_Upsert f)"
  "preserves same_content (FileStore_CreateVersion fv)"
  "preserves same_content (LockStore_Acquire_insert l)"
  "preserves same_content (db_exec (sql_delete_locks P))"
  unfolding CommitStore_Create_def CommitStore_SetCommitFiles_def CommitStore_UpsertRef_def FileStore_Upsert_def
    FileStore_CreateVersion_def LockStore_Acquire_insert_def
  by (auto intro!: content_frame.frame_db_exec content_frame.frame_if content_frame.frame_return
    simp: same_content_def sql_insert_commit_Inr sql_upsert_commit_files_Inr sql_upsert_ref_Inr
      sql_upsert_file_Inr sql_insert_version_Inr sql_insert_lock_Inr sql_delete_locks_Inr split: if_splits)

lemma content_IncrementRefCount: "preserves same_content (ChunkStore_IncrementRefCount hs)"
  unfolding ChunkStore_IncrementRefCount_def
  by (rule content_frame.frame_db_exec) (simp add: same_content_def hashes_add_ref_count)

lemma content_requests:
  "preserves same_content (PushHandler_Commit p u body)"
  "preserves same_content (MergeHandler_ExecuteMerge p u body1)"
  "preserves same_content (MergeHandler_CreateBranch p body2)"
  "preserves same_content (LockHandler_Acquire p u body3)"
  "preserves same_content (LockHandler_Release p u body4)"
proof -
  show "preserves same_content (PushHandler_Commit p u body)"
    unfolding PushHandler_Commit_def LockService_CheckPushPaths_def LockStore_CheckPaths_def Let_def
    by (auto intro!: frame_intros content_frame.frame_CreateCommit content_statements content_IncrementRefCount
      split: option.splits)
  show "preserves same_content (MergeHandler_ExecuteMerge p u body1)"
    unfolding MergeHandler_ExecuteMerge_def
    by (auto intro!: frame_intros content_frame.frame_Execute content_statements split: option.splits)
  show "preserves same_content (MergeHandler_CreateBranch p body2)"
    unfolding MergeHandler_CreateBranch_def CommitStore_GetRef_def Let_def GenerateUUID_def
    by (auto intro!: frame_intros content_statements split: option.splits)
  have acquire: "preserves same_content (LockStore_Acquire l)" for l
    unfolding LockStore_Acquire_def LockStore_GetByPath_def
    by (auto intro!: frame_intros content_statements split: option.splits sum.splits)
  show "preserves same_content (LockHandler_Acquire p u body3)"
    unfolding LockHandler_Acquire_def LockService_Acquire_def LockStore_GetByPath_def Let_def
    by (auto intro!: frame_intros acquire split: option.splits sum.splits)
  show "preserves same_content (LockHandler_Release p u body4)"
    unfolding LockHandler_Release_def LockService_Release_def LockStore_Release_def Let_def
    by (auto intro!: frame_intros content_statements split: option.splits sum.splits)
qed

lemma content_route:
  assumes "\<And>h data. req \<noteq> UploadChunk h data"
  shows "preserves same_content (route maxSize req)"
  using assms
  by (cases req) (auto intro!: content_frame.frame_status_of content_frame.frame_reads content_frame.frame_DownloadChunk
    content_requests)

section \<open>History and invariants\<close>

text \<open>A statement that leaves commits, files, versions, snapshots, projects and users alone.\<close>

lemma history_exec:
  assumes "\<And>d x d'. db_ok d \<Longrightarrow> q d = Inr (x, d') \<Longrightarrow> db_ok d'"
    and "\<And>d x d'. q d = Inr (x, d') \<Longrightarrow> \<exists>cs ls. d' = d\<lparr>chunks := cs, locks := ls\<rparr>"
  shows "preserves history_grows (db_exec q)"
proof (rule history.frame_db_exec)
  fix w w' :: world and x
  assume q: "q (w_db w) = Inr (x, w_db w')"
  with assms(2) obtain cs ls where d': "w_db w' = (w_db w)\<lparr>chunks := cs, locks := ls\<rparr>" by blast
  have "history_frame (w_db w) (w_db w')" unfolding d' history_frame_def by simp
  with q assms(1) show "history_grows w w'" by (auto simp: history_grows_def)
qed

lemma history_statements:
  "preserves history_grows (LockStore_Acquire_insert l)"
  "preserves history_grows (db_exec (sql_delete_locks P))"
  "preserves history_grows (ChunkStore_Insert c)"
proof -
  show "preserves history_grows (LockStore_Acquire_insert l)"
    unfolding LockStore_Acquire_insert_def
  proof (rule history_exec)
    fix d x d'
    assume "sql_insert_lock l d = Inr (x, d')"
    then show "\<exists>cs ls. d' = d\<lparr>chunks := cs, locks := ls\<rparr>"
      unfolding sql_insert_lock_Inr
      by (intro exI [of _ "chunks d"] exI [of _ "locks d'"]) (auto split: if_splits)
  qed (rule insert_lock_ok)
  show "preserves history_grows (db_exec (sql_delete_locks P))"
  proof (rule history_exec)
    fix d x d'
    assume "sql_delete_locks P d = Inr (x, d')"
    then show "\<exists>cs ls. d' = d\<lparr>chunks := cs, locks := ls\<rparr>"
      unfolding sql_delete_locks_Inr by (intro exI [of _ "chunks d"] exI [of _ "locks d'"]) auto
  qed (rule delete_locks_ok)
  show "preserves history_grows (ChunkStore_Insert c)"
    unfolding ChunkStore_Insert_def
  proof (rule history_exec)
    fix d x d'
    assume "sql_insert_chunk c d = Inr (x, d')"
    then show "\<exists>cs ls. d' = d\<lparr>chunks := cs, locks := ls\<rparr>"
      unfolding sql_insert_chunk_Inr by (intro exI [of _ "chunks d'"] exI [of _ "locks d"]) auto
  qed (rule insert_chunk_ok)
qed

lemma history_CreateCommit: "preserves history_grows (CreateCommit req)"
  unfolding preserves_def
proof
  fix w :: world
  show "wp (CreateCommit req) (\<lambda>_ w'. history_grows w w') w"
  proof (cases "db_ok (w_db w)")
    case True
    show ?thesis
      by (rule wp_mono [OF CreateCommit_spec [OF True]]) (simp add: history_grows_def commit_post_def)
  qed (simp add: wp_iff history_grows_def)
qed

lemma history_Execute: "preserves history_grows (Execute p src tgt author msg rs)"
  unfolding preserves_def
proof
  fix w :: world
  show "wp (Execute p src tgt author msg rs) (\<lambda>_ w'. history_grows w w') w"
  proof (cases "db_ok (w_db w)")
    case True
    show ?thesis
    proof (rule wp_Execute [OF True], goal_cases)
      case (4 r w' rs sh th)
      then show ?case unfolding history_grows_def history_frame_def by simp
    qed (use True in \<open>simp_all add: history_grows_def\<close>)
  qed (simp add: wp_iff history_grows_def)
qed

text \<open>Creating a branch: a new ref to the head of another branch of the project.\<close>

lemma wp_CreateBranch:
  assumes ok: "db_ok (w_db w)" and req: "br_Name req \<noteq> ''''"
    and src: "src = (if br_FromRef req = '''' then ''main'' else br_FromRef req)"
    and fail: "\<And>w' st c m. w_db w' = w_db w \<Longrightarrow> same_env w w' \<Longrightarrow> Q (ErrorReply st c m) w'"
    and made: "\<And>w' rs ref h. db_ok (w_db w') \<Longrightarrow> same_env w w' \<Longrightarrow> w_db w' = (w_db w)\<lparr>refs := rs\<rparr> \<Longrightarrow>
      head_of (w_db w) p src = Some h \<Longrightarrow> (no_faults w \<Longrightarrow> head_of (w_db w) p (br_Name req) = None) \<Longrightarrow>
      ref_target (w_db w') = (ref_target (w_db w))((p, br_Name req, ''branch'') \<mapsto> h) \<Longrightarrow>
      r_key ref = (p, br_Name req, ''branch'') \<Longrightarrow> r_CommitID ref = h \<Longrightarrow> Q (Reply StatusCreated ref) w'"
  shows "wp (MergeHandler_CreateBranch p (Some req)) Q w"
proof -
  have "wp (reply_result (CommitStore_GetRef p src ''branch'')
      (\<lambda>_. writeErrorJSON StatusNotFound ''REF_NOT_FOUND'' ''Source branch not found'')
      (\<lambda>sourceRef. reply_result (CommitStore_GetRef p (br_Name req) ''branch'')
        (\<lambda>_. do {
          now \<leftarrow> time_Now;
          refID \<leftarrow> generateUUID;
          let ref = \<lparr>r_ID = refID, r_ProjectID = p, r_Name = br_Name req,
            r_Type = ''branch'', r_CommitID = r_CommitID sourceRef, r_UpdatedAt = now\<rparr>;
          reply_result (CommitStore_UpsertRef ref)
            (\<lambda>_. writeErrorJSON StatusInternalServerError ''INTERNAL_ERROR'' ''Failed to create branch'')
            (\<lambda>_. writeJSON StatusCreated ref)
        })
        (\<lambda>_. writeErrorJSON StatusConflict ''BRANCH_EXISTS'' ''Branch already exists''))) Q w"
    unfolding wp_reply_result
  proof (rule wp_GetRef_branch, goal_cases)
    case (1 e w1)
    then show ?case by (simp add: wp_simps fail)
  next
    case (2 s w1)
    have "s \<in> set (refs (w_db w))" "r_ProjectID s = p"
      using row_at_SomeD [OF 2(3)] by (auto simp: r_key_def)
    then have commit: "\<exists>c \<in> set (commits (w_db w)). c_ID c = r_CommitID s \<and> c_ProjectID c = p"
      using ok by (fastforce simp: db_ok_def history_ok_def refs_local_def)
    note s = 2
    show ?case
      unfolding sum.case wp_reply_result
    proof (rule wp_GetRef_branch, goal_cases)
      case (2 r w2)
      then show ?case using s by (auto simp: wp_simps intro!: fail intro: same_env_trans)
    next
      case (1 e w2)
      note e = this
      show ?case
        unfolding sum.case Let_def CommitStore_UpsertRef_def
      proof (intro wp_bindI wp_time_NowI wp_generateUUIDI, unfold wp_reply_result, rule wp_db_execI, goal_cases)
        case (1 now w3 i w4 e' w5)
        have "same_env w w5" using 1 s(2) e(2) by (metis same_env_trans)
        moreover have "w_db w5 = w_db w" using 1 s(1) e(1) by simp
        ultimately show ?case by (simp add: wp_simps fail)
      next
        case (2 now w3 i w4 x w5)
        let ?r = "\<lparr>r_ID = i, r_ProjectID = p, r_Name = br_Name req, r_Type = ''branch'',
          r_CommitID = r_CommitID s, r_UpdatedAt = now\<rparr>"
        have env: "same_env w w5" using 2 s(2) e(2) by (metis same_env_trans)
        have up: "sql_upsert_ref ?r (w_db w) = Inr ((), w_db w5)" using 2 s e by simp
        have "db_ok (w_db w5)" using upsert_ref_ok [OF ok up] commit by simp
        moreover have "ref_target (w_db w5) = (ref_target (w_db w))((p, br_Name req, ''branch'') \<mapsto> r_CommitID s)"
          using ref_target_upsert [OF up] by (simp add: r_key_def)
        moreover have "w_db w5 = (w_db w)\<lparr>refs := upsert_row r_key r_overwrite ?r (refs (w_db w))\<rparr>"
          using up unfolding sql_upsert_ref_Inr by blast
        moreover have "head_of (w_db w) p (br_Name req) = None" if "no_faults w"
          using e(3) s that by (simp add: same_env_no_faults)
        ultimately have "Q (Reply StatusCreated ?r) w5"
          using env s(4) by (intro made) (auto simp: r_key_def)
        then show ?case by (simp add: wp_simps)
      qed
    qed
  qed
  then show ?thesis
    using req src by (simp add: MergeHandler_CreateBranch_def Let_def generateUUID_def)
qed

lemma history_CreateBranch: "preserves history_grows (MergeHandler_CreateBranch p body)"
  unfolding preserves_def
proof
  fix w :: world
  show "wp (MergeHandler_CreateBranch p body) (\<lambda>_ w'. history_grows w w') w"
  proof (cases "db_ok (w_db w) \<and> (\<exists>req. body = Some req \<and> br_Name req \<noteq> [])")
    case True
    then obtain req where req: "body = Some req" "br_Name req \<noteq> []" and ok: "db_ok (w_db w)" by blast
    show ?thesis
      unfolding req(1)
    proof (rule wp_CreateBranch [OF ok req(2) refl], goal_cases)
      case (1 w' st c m)
      then show ?case using ok by (simp add: history_grows_def)
    next
      case (2 w' rs ref h)
      then show ?case unfolding history_grows_def history_frame_def by simp
    qed
  next
    case False
    then consider "\<not> db_ok (w_db w)" | "db_ok (w_db w)" "body = None"
      | req where "db_ok (w_db w)" "body = Some req" "br_Name req = []"
      by (cases body) auto
    then show ?thesis
    proof cases
      case 1
      then show ?thesis by (simp add: wp_iff history_grows_def)
    qed (simp_all add: MergeHandler_CreateBranch_def wp_simps history_grows_def)
  qed
qed

lemma history_requests:
  "preserves history_grows (PushHandler_Commit p u body)"
  "preserves history_grows (MergeHandler_ExecuteMerge p u body1)"
  "preserves history_grows (PushHandler_UploadChunk maxSize h data)"
  "preserves history_grows (LockHandler_Acquire p u body3)"
  "preserves history_grows (LockHandler_Release p u body4)"
proof -
  show "preserves history_grows (PushHandler_Commit p u body)"
    unfolding PushHandler_Commit_def LockService_CheckPushPaths_def LockStore_CheckPaths_def Let_def
    by (auto intro!: frame_intros history_CreateCommit split: option.splits)
  show "preserves history_grows (MergeHandler_ExecuteMerge p u body1)"
    unfolding MergeHandler_ExecuteMerge_def
    by (auto intro!: frame_intros history_Execute split: option.splits)
  have put: "preserves history_grows (MinioStore_Put k data)" for k
    by (auto simp: preserves_def wp_simps history_grows_def split: option.splits)
  show "preserves history_grows (PushHandler_UploadChunk maxSize h data)"
    unfolding PushHandler_UploadChunk_def ChunkService_Upload_def Let_def
    by (auto intro!: frame_intros put history_statements split: option.splits)
  have acquire: "preserves history_grows (LockStore_Acquire l)" for l
    unfolding LockStore_Acquire_def LockStore_GetByPath_def
    by (auto intro!: frame_intros history_statements split: option.splits sum.splits)
  show "preserves history_grows (LockHandler_Acquire p u body3)"
    unfolding LockHandler_Acquire_def LockService_Acquire_def LockStore_GetByPath_def Let_def
    by (auto intro!: frame_intros acquire split: option.splits sum.splits)
  show "preserves history_grows (LockHandler_Release p u body4)"
    unfolding LockHandler_Release_def LockService_Release_def LockStore_Release_def Let_def
    by (auto intro!: frame_intros history_statements split: option.splits sum.splits)
qed

lemma history_route: "preserves history_grows (route maxSize req)"
  by (cases req) (auto intro!: history.frame_status_of history.frame_reads history.frame_DownloadChunk
    history_requests history_CreateBranch)

section \<open>Runs\<close>

definition system_ok :: "world \<Rightarrow> bool" where
  "system_ok w \<longleftrightarrow> db_ok (w_db w) \<and> content_ok w"

lemma same_content_ok: "same_content w w' \<Longrightarrow> content_ok w \<Longrightarrow> content_ok w'"
  by (simp add: same_content_def content_ok_def backed_def)

lemma content_ok_UploadChunk:
  assumes "content_ok w"
  shows "wp (route maxSize (UploadChunk h data)) (\<lambda>_ w'. content_ok w' \<and> bucket_le (w_blobs w) (w_blobs w')) w"
proof -
  let ?P = "\<lambda>w'. content_ok w' \<and> bucket_le (w_blobs w) (w_blobs w')"
  have start: "?P w" using assms by (auto simp: bucket_le_def)
  have "wp (ChunkService_Upload maxSize h data) (\<lambda>_. ?P) w"
    using assms by (rule Upload_content_ok)
  then show ?thesis
    using start
    by (auto simp: status_of_def PushHandler_UploadChunk_def wp_simps elim!: wp_mono split: option.splits sum.splits)
qed

lemma system_ok_step:
  assumes "system_ok w" "server_step maxSize w ev w'"
  shows "system_ok w'" "history_frame (w_db w) (w_db w')" "bucket_le (w_blobs w) (w_blobs w')"
proof -
  have le: "bucket_le (w_blobs w) (w_blobs w)" by (auto simp: bucket_le_def)
  have "system_ok w' \<and> history_frame (w_db w) (w_db w') \<and> bucket_le (w_blobs w) (w_blobs w')"
    using assms(2)
  proof (cases rule: server_step.cases)
    case (served req st)
    have "history_grows w w'" using history_route served(2) by (rule preservesD)
    then have h: "db_ok (w_db w')" "history_frame (w_db w) (w_db w')"
      using assms(1) by (simp_all add: history_grows_def system_ok_def)
    have "content_ok w' \<and> bucket_le (w_blobs w) (w_blobs w')"
    proof (cases "\<exists>h data. req = UploadChunk h data")
      case True
      then obtain h data where req: "req = UploadChunk h data" by blast
      have "content_ok w" using assms(1) by (simp add: system_ok_def)
      from wp_run [OF content_ok_UploadChunk [OF this, of maxSize h data]] served(2) req
      show ?thesis by simp
    next
      case False
      then have "preserves same_content (route maxSize req)" by (intro content_route) auto
      then have "same_content w w'" using served(2) by (rule preservesD)
      then show ?thesis
        using assms(1) same_content_ok le by (auto simp: system_ok_def same_content_def)
    qed
    with h show ?thesis by (simp add: system_ok_def)
  next
    case elapsed
    then show ?thesis using assms(1) le by (simp add: system_ok_def content_ok_def backed_def)
  qed
  then show "system_ok w'" "history_frame (w_db w) (w_db w')" "bucket_le (w_blobs w) (w_blobs w')"
    by blast+
qed

lemma bucket_le_trans: "bucket_le a b \<Longrightarrow> bucket_le b c \<Longrightarrow> bucket_le a c"
  by (fastforce simp: bucket_le_def)

lemma system_ok_run:
  assumes "server_run maxSize w evs w'" "system_ok w"
  shows "system_ok w'" "history_frame (w_db w) (w_db w')" "bucket_le (w_blobs w) (w_blobs w')"
proof -
  have "system_ok w' \<and> history_frame (w_db w) (w_db w') \<and> bucket_le (w_blobs w) (w_blobs w')"
    using assms
  proof (induction rule: server_run.induct)
    case (run_Nil w)
    then show ?case by (auto simp: bucket_le_def)
  next
    case (run_Cons w ev w1 evs w2)
    note step = system_ok_step [OF run_Cons.prems run_Cons.hyps(1)]
    from run_Cons.IH [OF step(1)] step show ?case
      by (auto intro: history_frame_trans bucket_le_trans)
  qed
  then show "system_ok w'" "history_frame (w_db w) (w_db w')" "bucket_le (w_blobs w) (w_blobs w')"
    by blast+
qed

text \<open>The rows of the table of chunks are only added to.\<close>

definition chunks_grow :: "world \<Rightarrow> world \<Rightarrow> bool" where
  "chunks_grow w w' \<longleftrightarrow> ch_Hash ` set (chunks (w_db w)) \<subseteq> ch_Hash ` set (chunks (w_db w'))"

lemma chunks_grow_step:
  assumes "server_step maxSize w ev w'"
  shows "chunks_grow w w'"
  using assms
proof (cases rule: server_step.cases)
  case (served req st)
  show ?thesis
  proof (cases "\<exists>h data. req = UploadChunk h data")
    case True
    then obtain h data where req: "req = UploadChunk h data" by blast
    have "wp (ChunkService_Upload maxSize h data) (\<lambda>_ w'. chunks_grow w w') w"
      by (rule wp_Upload) (auto simp: chunks_grow_def ch_Hash_upsert)
    then have "wp (route maxSize req) (\<lambda>_ w'. chunks_grow w w') w"
      by (auto simp: req PushHandler_UploadChunk_def status_of_def chunks_grow_def wp_simps
        elim!: wp_mono split: option.splits sum.splits)
    then show ?thesis using served(2) by (rule wp_run)
  next
    case False
    then have "preserves same_content (route maxSize req)" using content_route by blast
    then have "same_content w w'" using served(2) by (rule preservesD)
    then show ?thesis by (simp add: same_content_def chunks_grow_def)
  qed
next
  case elapsed
  then show ?thesis by (simp add: chunks_grow_def)
qed

lemma chunks_grow_run: "server_run maxSize w evs w' \<Longrightarrow> chunks_grow w w'"
proof (induction rule: server_run.induct)
  case (run_Nil w)
  then show ?case by (simp add: chunks_grow_def)
next
  case (run_Cons w ev w1 evs w2)
  with chunks_grow_step show ?case by (fastforce simp: chunks_grow_def)
qed

end
