(* ===== verification/Lock_Proofs.thy ===== *)
theory Lock_Proofs
  imports Server
begin

text \<open>
  What the advisory locks promise: who holds a lock keeps it until it is released, a request by
  somebody else is refused, and a push that touches a locked file is refused.
\<close>

section \<open>A held lock stays held\<close>

text \<open>The lock row of a path that the user \<open>u\<close> holds is not touched.\<close>

definition keeps_lock :: "string \<Rightarrow> string \<Rightarrow> string \<Rightarrow> world \<Rightarrow> world \<Rightarrow> bool" where
  "keeps_lock p f u w w' \<longleftrightarrow> (\<forall>e. row_at l_key (p, f) (locks (w_db w)) = Some e \<longrightarrow> l_LockedBy e = u \<longrightarrow>
     row_at l_key (p, f) (locks (w_db w')) = Some e)"

interpretation held: frame_relation "keeps_lock p f u" for p f u
  by unfold_locales (simp_all add: keeps_lock_def)

lemma held_insert: "preserves (keeps_lock p f u) (LockStore_Acquire_insert l)"
  unfolding LockStore_Acquire_insert_def
proof (rule held.frame_db_exec)
  fix w w' :: world and x
  assume "sql_insert_lock l (w_db w) = Inr (x, w_db w')"
  then show "keeps_lock p f u w w'"
    using lock_table.first_writer_wins [of l "w_db w" "w_db w'" "(p, f)"] by (simp add: keeps_lock_def)
qed

lemma held_delete:
  assumes "\<And>l. P l \<Longrightarrow> l_key l = (p, f) \<Longrightarrow> l_LockedBy l \<noteq> u"
  shows "preserves (keeps_lock p f u) (db_exec (sql_delete_locks P))"
proof (rule held.frame_db_exec)
  fix w w' :: world and x
  assume "sql_delete_locks P (w_db w) = Inr (x, w_db w')"
  then have "locks (w_db w') = filter (\<lambda>l. \<not> P l) (locks (w_db w))" by (simp add: sql_delete_locks_Inr)
  then show "keeps_lock p f u w w'"
    using assms row_at_filter row_at_SomeD unfolding keeps_lock_def by (metis (mono_tags, lifting))
qed

lemma held_Acquire: "preserves (keeps_lock p f u) (LockHandler_Acquire p' u' body)"
proof -
  have acquire: "preserves (keeps_lock p f u) (LockStore_Acquire l)" for l
    unfolding LockStore_Acquire_def LockStore_GetByPath_def
    by (auto intro!: held.frame_bind held.frame_return held.frame_db_query held_insert split: option.splits sum.splits)
  show ?thesis
    unfolding LockHandler_Acquire_def LockService_Acquire_def LockStore_GetByPath_def Let_def
    by (auto intro!: frame_intros acquire split: option.splits sum.splits)
qed

text \<open>A release of another path, or of this path by another user without force.\<close>

definition releases :: "string \<Rightarrow> string \<Rightarrow> string \<Rightarrow> event \<Rightarrow> bool" where
  "releases p f u ev \<longleftrightarrow> (\<exists>u' body st. ev = Served (ReleaseLock p u' (Some body)) st
     \<and> rl_FilePath body = f \<and> (rl_Force body \<or> u' = u))"

lemma held_Release:
  assumes "\<not> releases p f u (Served (ReleaseLock p' u' body) st)"
  shows "preserves (keeps_lock p f u) (LockHandler_Release p' u' body)"
proof -
  have forced: "preserves (keeps_lock p f u) (db_exec (sql_delete_locks
      (\<lambda>l. l_ProjectID l = p' \<and> l_FilePath l = rl_FilePath b)))" if "body = Some b" "rl_Force b" for b
    by (rule held_delete) (use assms that in \<open>auto simp: releases_def l_key_def\<close>)
  have owned: "preserves (keeps_lock p f u) (db_exec (sql_delete_locks
      (\<lambda>l. l_ProjectID l = p' \<and> l_FilePath l = rl_FilePath b \<and> l_LockedBy l = u')))"
    if "body = Some b" "\<not> rl_Force b" for b
    by (rule held_delete) (use assms that in \<open>auto simp: releases_def l_key_def\<close>)
  show ?thesis
    unfolding LockHandler_Release_def LockService_Release_def LockStore_Release_def Let_def
    by (auto intro!: frame_intros forced owned split: option.splits sum.splits)
qed

lemma held_step:
  assumes "server_step maxSize w ev w'" "\<not> releases p f u ev"
  shows "keeps_lock p f u w w'"
  using assms(1)
proof (cases rule: server_step.cases)
  case (served req st)
  consider (acquire) p' u' body where "req = AcquireLock p' u' body"
    | (release) p' u' body where "req = ReleaseLock p' u' body"
    | (other) "\<And>p' u' body. req \<noteq> AcquireLock p' u' body" "\<And>p' u' body. req \<noteq> ReleaseLock p' u' body"
    by blast
  then show ?thesis
  proof cases
    case acquire
    have "preserves (keeps_lock p f u) (route maxSize req)"
      unfolding acquire route.simps by (intro held.frame_status_of held_Acquire)
    then show ?thesis using served(2) by (rule preservesD)
  next
    case release
    have "preserves (keeps_lock p f u) (route maxSize req)"
      unfolding release route.simps
      by (intro held.frame_status_of held_Release [where st = st]) (use assms(2) served(1) release in simp)
    then show ?thesis using served(2) by (rule preservesD)
  next
    case other
    have "same_locks w w'" using locks_route [OF other] served(2) by (rule preservesD)
    then show ?thesis by (simp add: same_locks_def keeps_lock_def)
  qed
next
  case elapsed
  then show ?thesis by (simp add: keeps_lock_def)
qed

lemma held_run:
  assumes "server_run maxSize w evs w'" "\<forall>ev \<in> set evs. \<not> releases p f u ev"
  shows "keeps_lock p f u w w'"
  using assms
proof (induction rule: server_run.induct)
  case (run_Nil w)
  then show ?case by (simp add: keeps_lock_def)
next
  case (run_Cons w ev w1 evs w2)
  then have "keeps_lock p f u w w1" "keeps_lock p f u w1 w2" by (auto intro: held_step)
  then show ?case by (rule held.frame_trans)
qed

lemma holder_keeps:
  assumes "keeps_lock p f u w w'" "holder (w_db w) p f = Some u"
  shows "holder (w_db w') p f = Some u"
proof -
  from assms(2) obtain e where "row_at l_key (p, f) (locks (w_db w)) = Some e" "l_LockedBy e = u"
    by (auto simp: holder_def)
  with assms(1) show ?thesis by (simp add: keeps_lock_def holder_def)
qed

section \<open>Acquiring\<close>

lemma wp_GetByPath:
  assumes "schema_ok (w_db w)"
    and "\<And>e w'. w_db w' = w_db w \<Longrightarrow> same_env w w' \<Longrightarrow> \<not> no_faults w \<Longrightarrow> Q (Inl e) w'"
    and "\<And>w'. w_db w' = w_db w \<Longrightarrow> same_env w w' \<Longrightarrow> row_at l_key (p, f) (locks (w_db w)) = None \<Longrightarrow> Q (Inr None) w'"
    and "\<And>e w'. w_db w' = w_db w \<Longrightarrow> same_env w w' \<Longrightarrow> row_at l_key (p, f) (locks (w_db w)) = Some e \<Longrightarrow>
      Q (Inr (Some (lock_row (w_db w) e))) w'"
  shows "wp (LockStore_GetByPath p f) Q w"
  unfolding LockStore_GetByPath_def
proof (rule wp_db_queryI, goal_cases)
  case (1 e w')
  then show ?case using assms(2) by auto
next
  case (2 x w')
  then show ?case
    using assms(3,4) sql_lock_by_path_row [OF assms(1), of p f]
    by (cases "row_at l_key (p, f) (locks (w_db w))") auto
qed

text \<open>
  However the store behaves: a success means that the caller holds the lock, and a path that
  somebody else holds is refused without a change.
\<close>

lemma wp_LockService_Acquire_any:
  assumes ok: "db_ok (w_db w)"
  shows "wp (LockService_Acquire p f b u) (\<lambda>r w'. case r of
      Inr l \<Rightarrow> holder (w_db w') p f = Some u \<and> l_LockedBy l = u \<and> l_ProjectID l = p \<and> l_FilePath l = f
    | Inl e \<Rightarrow> w_db w' = w_db w \<and> (no_faults w \<longrightarrow> holder (w_db w) p f = Some u \<longrightarrow> False)
        \<and> (no_faults w \<longrightarrow> (\<exists>v. holder (w_db w) p f = Some v) \<longrightarrow> errors_Is e ErrFileLocked)) w"
    (is "wp _ ?Q w")
  unfolding LockService_Acquire_def Let_def
proof (intro wp_go_tryI, rule wp_GetByPath, goal_cases)
  case 1
  then show ?case using ok by (simp add: db_ok_def)
next
  case (2 e w1)
  then show ?case by simp
next
  case (4 e w1)
  then have "l_key e = (p, f)" using row_at_SomeD by metis
  with 4 show ?case by (auto simp: wp_simps holder_def l_key_def)
next
  case (3 w1)
  note free = this
  have free_holder: "holder (w_db w) p f = None" using free(3) by (simp add: holder_def)
  show ?case
    unfolding sum.case option.case
  proof (intro wp_bindI wp_generateUUIDI wp_time_NowI wp_go_tryI, goal_cases)
    case (1 i w2 now w3)
    let ?l = "\<lparr>l_ID = i, l_ProjectID = p, l_FilePath = f, l_Branch = b, l_LockedBy = u,
      l_LockedAt = now, l_LockedByUsername = []\<rparr>"
    have d3: "w_db w3 = w_db w" and env: "same_env w w3" using 1 free by (auto intro: same_env_trans)
    have insert: "wp (LockStore_Acquire_insert ?l) (\<lambda>r w'. case r of
        Inl e \<Rightarrow> ?Q (Inl (Wrap ''acquire lock'' e)) w' | Inr _ \<Rightarrow> wp (ret (Inr ?l)) ?Q w') w4"
      if "w_db w4 = w_db w" for w4
      unfolding LockStore_Acquire_insert_def
    proof (rule wp_db_execI, goal_cases)
      case (1 e w5)
      then show ?case using that free_holder by simp
    next
      case (2 x w5)
      then have ins: "sql_insert_lock ?l (w_db w) = Inr ((), w_db w5)" using that by simp
      have "row_at l_key (p, f) (locks (w_db w5)) = Some (lock_combine None ?l)"
        using lock_table.lookup_same [OF ins] free(3) by (simp add: l_key_def)
      then show ?case by (simp add: wp_simps holder_def lock_combine_def)
    qed
    show ?case
      unfolding LockStore_Acquire_def
    proof (intro wp_bindI, simp only: Lock.simps, rule wp_GetByPath, goal_cases)
      case 1
      then show ?case using ok d3 by (simp add: db_ok_def)
    next
      case (2 e w4)
      then show ?case using insert d3 by simp
    next
      case (3 w4)
      then show ?case using insert d3 by simp
    next
      case (4 e w4)
      then show ?case using free(3) d3 by simp
    qed
  qed
qed

section \<open>Releasing\<close>

text \<open>The rows of a path: none, or the one of the holder.\<close>

lemma filter_holder:
  assumes "schema_ok d"
  shows "filter (\<lambda>l. l_ProjectID l = p \<and> l_FilePath l = f \<and> l_LockedBy l = u) (locks d) =
    (if holder d p f = Some u then filter (\<lambda>l. l_key l = (p, f)) (locks d) else [])"
proof -
  have "filter (\<lambda>l. l_ProjectID l = p \<and> l_FilePath l = f \<and> l_LockedBy l = u) (locks d) =
      filter (\<lambda>l. l_LockedBy l = u) (filter (\<lambda>l. l_key l = (p, f)) (locks d))"
    by (simp add: l_key_def conj_ac)
  then show ?thesis
    using filter_key [OF schema_okD(7) [OF assms], of "(p, f)"]
    by (auto simp: holder_def split: option.splits)
qed

lemma wp_LockService_Release:
  assumes ok: "db_ok (w_db w)" and run: "no_faults w"
  shows "wp (LockService_Release p f u force) (\<lambda>r w'.
    if force \<or> holder (w_db w) p f = Some u
    then r = Inr () \<and> w_db w' = (w_db w)\<lparr>locks := filter (\<lambda>l. l_key l \<noteq> (p, f)) (locks (w_db w))\<rparr>
    else r = Inl (NewError ''lock not found or owned by another user'') \<and> w_db w' = w_db w) w"
proof (cases force)
  case True
  have "(\<lambda>l. \<not> (l_ProjectID l = p \<and> l_FilePath l = f)) = (\<lambda>l. l_key l \<noteq> (p, f))"
    by (auto simp: l_key_def)
  with True run show ?thesis
    by (simp add: LockService_Release_def LockStore_Release_def wp_simps sql_delete_locks_def)
next
  case False
  let ?P = "\<lambda>l. l_ProjectID l = p \<and> l_FilePath l = f \<and> l_LockedBy l = u"
  have sch: "schema_ok (w_db w)" using ok by (simp add: db_ok_def)
  note rows = filter_holder [OF sch, of p f u]
  have "wp (LockService_Release p f u force) Q w =
      (if filter ?P (locks (w_db w)) = []
       then Q (Inl (NewError ''lock not found or owned by another user''))
         ((next_tick w)\<lparr>w_db := (w_db w)\<lparr>locks := filter (\<lambda>l. \<not> ?P l) (locks (w_db w))\<rparr>\<rparr>)
       else Q (Inr ()) ((next_tick w)\<lparr>w_db := (w_db w)\<lparr>locks := filter (\<lambda>l. \<not> ?P l) (locks (w_db w))\<rparr>\<rparr>))" for Q
    using False run by (simp add: LockService_Release_def LockStore_Release_def wp_simps sql_delete_locks_def)
  moreover have "filter (\<lambda>l. \<not> ?P l) (locks (w_db w)) = locks (w_db w)" if "holder (w_db w) p f \<noteq> Some u"
    using rows that by (simp add: filter_empty_conv filter_id_conv)
  moreover have "filter (\<lambda>l. \<not> ?P l) (locks (w_db w)) = filter (\<lambda>l. l_key l \<noteq> (p, f)) (locks (w_db w))
      \<and> filter ?P (locks (w_db w)) \<noteq> []" if h: "holder (w_db w) p f = Some u"
  proof -
    have eq: "filter ?P (locks (w_db w)) = filter (\<lambda>l. l_key l = (p, f)) (locks (w_db w))" using rows h by simp
    then have "?P l \<longleftrightarrow> l_key l = (p, f)" if "l \<in> set (locks (w_db w))" for l
      using that by (metis (mono_tags, lifting) mem_Collect_eq set_filter IntI Int_iff)
    then have "filter (\<lambda>l. \<not> ?P l) (locks (w_db w)) = filter (\<lambda>l. l_key l \<noteq> (p, f)) (locks (w_db w))"
      by (intro filter_cong) auto
    moreover have "filter ?P (locks (w_db w)) \<noteq> []"
      using eq h filter_key [OF schema_okD(7) [OF sch], of "(p, f)"] by (auto simp: holder_def)
    ultimately show ?thesis by blast
  qed
  ultimately show ?thesis using False rows by simp
qed

section \<open>The push check\<close>

text \<open>The locks that keep a user from pushing a list of paths.\<close>

definition blocking :: "db \<Rightarrow> string \<Rightarrow> string list \<Rightarrow> string \<Rightarrow> string set" where
  "blocking d p paths u = {f \<in> set paths. \<exists>v. holder d p f = Some v \<and> v \<noteq> u}"

lemma check_paths_blocking:
  assumes "schema_ok d"
  shows "l_FilePath ` set (sql_check_paths p paths u d) = blocking d p paths u"
proof -
  have "l_FilePath ` set (sql_check_paths p paths u d) =
      l_FilePath ` {l \<in> set (locks d). l_ProjectID l = p \<and> l_FilePath l \<in> set paths \<and> l_LockedBy l \<noteq> u}"
    unfolding sql_check_paths_rows [OF assms] by (simp add: image_image)
  also have "\<dots> = {f \<in> set paths. \<exists>l \<in> set (locks d). l_key l = (p, f) \<and> l_LockedBy l \<noteq> u}"
    by (auto simp: l_key_def)
  also have "\<dots> = blocking d p paths u"
    unfolding blocking_def holder_def
    using row_at_iff [OF schema_okD(7) [OF assms]] by (auto simp: l_key_def)
  finally show ?thesis .
qed

definition push_commit_request :: "string \<Rightarrow> string \<Rightarrow> PushRequest \<Rightarrow> CommitRequest" where
  "push_commit_request p u req = \<lparr>cr_ProjectID = p, cr_ParentCommitID = pr_ParentCommitID req,
     cr_AuthorID = u, cr_Message = pr_Message req, cr_Ref = pr_Ref req, cr_Files = pr_Files req\<rparr>"

text \<open>A push with a working store: refused for locks, or the commit.\<close>

lemma wp_Push:
  assumes ok: "db_ok (w_db w)" and run: "no_faults w"
    and req: "pr_Message req \<noteq> ''''" "pr_Files req \<noteq> []"
    and locked: "\<And>w' info. w_db w' = w_db w \<Longrightarrow> blocking (w_db w) p (map ce_Path (pr_Files req)) u \<noteq> {} \<Longrightarrow>
      fst ` set info = blocking (w_db w) p (map ce_Path (pr_Files req)) u \<Longrightarrow> Q (Reply StatusConflict (FilesLocked info)) w'"
    and free: "\<And>w1. w_db w1 = w_db w \<Longrightarrow> same_env w w1 \<Longrightarrow>
      blocking (w_db w) p (map ce_Path (pr_Files req)) u = {} \<Longrightarrow>
      wp (CreateCommit (push_commit_request p u req)) (\<lambda>r w'. case r of
          Inl e \<Rightarrow> \<forall>c m. Q (ErrorReply (if errors_Is e ErrCommitConflict then StatusConflict else StatusInternalServerError) c m) w'
        | Inr res \<Rightarrow> Q (Reply StatusCreated (Committed res)) w') w1"
  shows "wp (PushHandler_Commit p u (Some req)) Q w"
proof -
  let ?paths = "map ce_Path (pr_Files req)"
  let ?found = "sql_check_paths p ?paths u (w_db w)"
  have block: "l_FilePath ` set ?found = blocking (w_db w) p ?paths u"
    using ok by (intro check_paths_blocking) (simp add: db_ok_def)
  show ?thesis
  proof (cases "?found = []")
    case True
    then have none: "blocking (w_db w) p ?paths u = {}" using block by simp
    have "wp (PushHandler_Commit p u (Some req)) Q w =
        wp (CreateCommit (push_commit_request p u req)) (\<lambda>r w'. case r of
          Inl e \<Rightarrow> if errors_Is e ErrCommitConflict
            then Q (ErrorReply StatusConflict ''COMMIT_CONFLICT''
               (''Parent commit does not match current ref head '' @ em_dash @ '' pull and retry'')) w'
            else Q (ErrorReply StatusInternalServerError ''INTERNAL_ERROR'' ''Failed to create commit'') w'
        | Inr res \<Rightarrow> Q (Reply StatusCreated (Committed res)) w') (next_tick w)"
      using req run True
      by (simp add: PushHandler_Commit_def LockService_CheckPushPaths_def wp_simps Let_def push_commit_request_def
        cong: sum.case_cong)
    moreover have "wp (CreateCommit (push_commit_request p u req)) (\<lambda>r w'. case r of
          Inl e \<Rightarrow> \<forall>c m. Q (ErrorReply (if errors_Is e ErrCommitConflict then StatusConflict else StatusInternalServerError) c m) w'
        | Inr res \<Rightarrow> Q (Reply StatusCreated (Committed res)) w') (next_tick w)"
      using none by (intro free) simp_all
    ultimately show ?thesis
      by (auto elim!: wp_mono split: sum.splits if_splits)
  next
    case False
    then have some: "blocking (w_db w) p ?paths u \<noteq> {}" using block by auto
    have "fst ` set (map (\<lambda>l. (l_FilePath l, l_LockedByUsername l, l_Branch l)) ?found) = blocking (w_db w) p ?paths u"
      using block by (simp add: image_image)
    then show ?thesis
      using locked [of "next_tick w" "map (\<lambda>l. (l_FilePath l, l_LockedByUsername l, l_Branch l)) ?found"] some
        req run False
      by (simp add: PushHandler_Commit_def LockService_CheckPushPaths_def wp_simps Let_def)
  qed
qed

end
