(* ===== verification/Rate_Limit.thy ===== *)
theory Rate_Limit
  imports Prelude
begin

text \<open>
  \<^verbatim>\<open>internal/middleware/ratelimit.go\<close>: a counter per key that is reset when its window is
  over. The map of windows is a partial map; the mutex makes one call of \<open>allow\<close> one step, and
  \<open>now\<close> is the clock the call reads.
\<close>

record window =
  wi_count :: int
  wi_resetAt :: int

record RateLimiter =
  rl_windows :: "string \<rightharpoonup> window"
  rl_limit :: int
  rl_interval :: int

definition NewRateLimiter :: "int \<Rightarrow> int \<Rightarrow> RateLimiter" where
  "NewRateLimiter limit interval = \<lparr>rl_windows = Map.empty, rl_limit = limit, rl_interval = interval\<rparr>"

definition allow :: "string \<Rightarrow> int \<Rightarrow> RateLimiter \<Rightarrow> bool \<times> RateLimiter" where
  "allow key now rl =
     (let fresh = rl\<lparr>rl_windows := (rl_windows rl)(key \<mapsto>
            \<lparr>wi_count = 1, wi_resetAt = now + rl_interval rl\<rparr>)\<rparr>
      in case rl_windows rl key of
           None \<Rightarrow> (True, fresh)
         | Some w \<Rightarrow>
             if wi_resetAt w < now then (True, fresh)
             else if rl_limit rl \<le> wi_count w then (False, rl)
             else (True, rl\<lparr>rl_windows := (rl_windows rl)(key \<mapsto> w\<lparr>wi_count := wi_count w + 1\<rparr>)\<rparr>))"

text \<open>A sequence of calls and which of them were allowed.\<close>

primrec allow_all :: "(string \<times> int) list \<Rightarrow> RateLimiter \<Rightarrow> bool list \<times> RateLimiter" where
  "allow_all [] rl = ([], rl)"
| "allow_all (c # cs) rl =
     (let (b, rl1) = allow (fst c) (snd c) rl; (bs, rl2) = allow_all cs rl1 in (b # bs, rl2))"

section \<open>What is granted\<close>

definition granted :: "string \<Rightarrow> int \<Rightarrow> int \<Rightarrow> (string \<times> int) list \<Rightarrow> RateLimiter \<Rightarrow> nat" where
  "granted key lo hi cs rl = length (filter (\<lambda>(c, b). b \<and> fst c = key \<and> lo \<le> snd c \<and> snd c \<le> hi)
     (zip cs (fst (allow_all cs rl))))"

lemma granted_Nil [simp]: "granted key lo hi [] rl = 0"
  by (simp add: granted_def)

lemma granted_Cons:
  "granted key lo hi (c # cs) rl =
    (if fst (allow (fst c) (snd c) rl) \<and> fst c = key \<and> lo \<le> snd c \<and> snd c \<le> hi then 1 else 0)
    + granted key lo hi cs (snd (allow (fst c) (snd c) rl))"
  by (simp add: granted_def Let_def split: prod.splits)

definition counted :: "RateLimiter \<Rightarrow> bool" where
  "counted rl \<longleftrightarrow> (\<forall>k w. rl_windows rl k = Some w \<longrightarrow> 1 \<le> wi_count w)"

lemma counted_new: "counted (NewRateLimiter limit interval)"
  by (simp add: counted_def NewRateLimiter_def)

lemma allow_frame:
  "rl_limit (snd (allow k now rl)) = rl_limit rl" "rl_interval (snd (allow k now rl)) = rl_interval rl"
  "k' \<noteq> k \<Longrightarrow> rl_windows (snd (allow k now rl)) k' = rl_windows rl k'"
  by (simp_all add: allow_def Let_def split: option.splits)

lemma counted_allow: "counted rl \<Longrightarrow> counted (snd (allow k now rl))"
  by (fastforce simp: counted_def allow_def Let_def split: option.splits if_splits)

text \<open>The calls a key can still be granted up to the time \<open>hi\<close>.\<close>

definition budget :: "string \<Rightarrow> int \<Rightarrow> RateLimiter \<Rightarrow> int" where
  "budget key hi rl = (case rl_windows rl key of
     None \<Rightarrow> rl_limit rl
   | Some w \<Rightarrow> (if hi \<le> wi_resetAt w then 0 else rl_limit rl) + max 0 (rl_limit rl - wi_count w))"

lemma budget_allow:
  assumes "1 \<le> rl_limit rl" "now \<le> hi" "hi \<le> now + rl_interval rl"
  shows "(if fst (allow key now rl) then 1 else 0) + budget key hi (snd (allow key now rl)) \<le> budget key hi rl"
  using assms by (auto simp: allow_def budget_def Let_def split: option.splits)

lemma granted_late: "\<forall>c \<in> set cs. hi < snd c \<Longrightarrow> granted key lo hi cs rl = 0"
  by (induction cs arbitrary: rl) (auto simp: granted_Cons)

lemma budget_nonneg: "0 \<le> rl_limit rl \<Longrightarrow> 0 \<le> budget key hi rl"
  by (auto simp: budget_def split: option.splits)

lemma granted_budget:
  assumes "1 \<le> rl_limit rl" "hi \<le> lo + rl_interval rl" "sorted (map snd cs)" "\<forall>c \<in> set cs. lo \<le> snd c"
  shows "int (granted key lo hi cs rl) \<le> budget key hi rl"
  using assms
proof (induction cs arbitrary: rl)
  case Nil
  then show ?case by (simp add: budget_nonneg)
next
  case (Cons c cs)
  let ?rl = "snd (allow (fst c) (snd c) rl)"
  have IH: "int (granted key lo hi cs ?rl) \<le> budget key hi ?rl"
    using Cons by (simp add: allow_frame)
  show ?case
  proof (cases "hi < snd c")
    case True
    then have "granted key lo hi (c # cs) rl = 0" using Cons.prems(3) by (intro granted_late) auto
    with Cons.prems(1) show ?thesis by (simp add: budget_nonneg)
  next
    case False
    show ?thesis
    proof (cases "fst c = key")
      case True
      have "(if fst (allow key (snd c) rl) then 1 else 0) + budget key hi ?rl \<le> budget key hi rl"
        using budget_allow [of rl "snd c" hi key] False Cons.prems True by auto
      with IH True False Cons.prems(4) show ?thesis by (auto simp: granted_Cons split: if_splits)
    next
      case other: False
      then have "budget key hi ?rl = budget key hi rl" by (simp add: budget_def allow_frame split: option.split)
      with IH other show ?thesis by (simp add: granted_Cons)
    qed
  qed
qed

text \<open>
  Whatever the calls: in an interval no longer than the window, a key gets at most one request
  less than twice the limit.
\<close>

lemma granted_bound:
  assumes "1 \<le> rl_limit rl" "counted rl" "hi \<le> lo + rl_interval rl" "sorted (map snd cs)"
  shows "int (granted key lo hi cs rl) \<le> 2 * rl_limit rl - 1"
  using assms
proof (induction cs arbitrary: rl)
  case Nil
  then show ?case by simp
next
  case (Cons c cs)
  show ?case
  proof (cases "snd c < lo")
    case True
    have "int (granted key lo hi cs (snd (allow (fst c) (snd c) rl))) \<le> 2 * rl_limit rl - 1"
      using Cons.IH [of "snd (allow (fst c) (snd c) rl)"] Cons.prems by (simp add: allow_frame counted_allow)
    with True show ?thesis by (simp add: granted_Cons)
  next
    case False
    then have "int (granted key lo hi (c # cs) rl) \<le> budget key hi rl"
      using Cons.prems by (intro granted_budget) auto
    also have "\<dots> \<le> 2 * rl_limit rl - 1"
      using Cons.prems(1,2) by (fastforce simp: budget_def counted_def split: option.splits)
    finally show ?thesis .
  qed
qed

text \<open>A key that has been quiet for longer than the interval, or never called, is let in.\<close>

lemma allow_after_reset:
  "(\<And>w. rl_windows rl key = Some w \<Longrightarrow> wi_resetAt w < now) \<Longrightarrow> fst (allow key now rl)"
  by (simp add: allow_def Let_def split: option.splits)

lemma refused_iff:
  "\<not> fst (allow key now rl) \<longleftrightarrow>
    (\<exists>w. rl_windows rl key = Some w \<and> now \<le> wi_resetAt w \<and> rl_limit rl \<le> wi_count w)"
  by (auto simp: allow_def Let_def split: option.splits)

end
