(* ===== verification/Commit_Liveness.thy ===== *)
theory Commit_Liveness
  imports Commit_Proofs
begin

text \<open>
  When a push must succeed: the stores work, the request is well formed and the random source
  does not repeat an identifier within the few draws a commit makes.
\<close>

section \<open>Fresh identifiers\<close>

text \<open>The next \<open>k\<close> draws are pairwise different and avoid \<open>X\<close>.\<close>

definition fresh_for :: "string set \<Rightarrow> nat \<Rightarrow> world \<Rightarrow> bool" where
  "fresh_for X k w \<longleftrightarrow> no_faults w \<and> inj_on (uuid_at w) {w_tick w..<w_tick w + k}
     \<and> (\<forall>n \<in> {w_tick w..<w_tick w + k}. uuid_at w n \<notin> X)"

definition all_ids :: "db \<Rightarrow> string set" where
  "all_ids d = c_ID ` set (commits d) \<union> r_ID ` set (refs d) \<union> f_ID ` set (files d) \<union> fv_ID ` set (file_versions d)"

lemma fresh_for_no_faults: "fresh_for X k w \<Longrightarrow> no_faults w"
  by (simp add: fresh_for_def)

lemma fresh_for_db [simp]: "fresh_for X k (w\<lparr>w_db := d\<rparr>) = fresh_for X k w"
  by (simp add: fresh_for_def)

lemma fresh_for_le: "fresh_for X m w \<Longrightarrow> k \<le> m \<Longrightarrow> fresh_for X k w"
  by (auto simp: fresh_for_def intro: inj_on_subset)

lemma fresh_for_idle: "fresh_for X (Suc k) w \<Longrightarrow> fresh_for X k (next_tick w)"
  by (auto simp: fresh_for_def intro: inj_on_subset)

lemma fresh_for_draw:
  assumes "fresh_for X (Suc k) w"
  shows "uuid_at w (w_tick w) \<notin> X" "fresh_for (insert (uuid_at w (w_tick w)) X) k (next_tick w)"
proof -
  let ?I = "{w_tick w..<w_tick w + Suc k}"
  have inj: "inj_on (uuid_at w) ?I" and new: "\<forall>n \<in> ?I. uuid_at w n \<notin> X" and run: "no_faults w"
    using assms by (simp_all add: fresh_for_def)
  show "uuid_at w (w_tick w) \<notin> X" using new by simp
  have "uuid_at w n \<noteq> uuid_at w (w_tick w)" if "n \<in> {Suc (w_tick w)..<Suc (w_tick w) + k}" for n
    using inj_onD [OF inj, of n "w_tick w"] that by auto
  moreover have "inj_on (uuid_at w) {Suc (w_tick w)..<Suc (w_tick w) + k}"
    using inj by (rule inj_on_subset) auto
  ultimately show "fresh_for (insert (uuid_at w (w_tick w)) X) k (next_tick w)"
    using new run by (auto simp: fresh_for_def)
qed

text \<open>The calls with a working store and a fresh random source.\<close>

lemma live_uuid:
  assumes "fresh_for X (Suc k) w"
    and "\<And>i w'. i \<notin> X \<Longrightarrow> fresh_for (insert i X) k w' \<Longrightarrow> w_db w' = w_db w \<Longrightarrow> Q i w'"
  shows "wp generateUUID Q w"
  using assms(2) fresh_for_draw [OF assms(1)] by (simp add: wp_generateUUID)

lemma live_exec:
  assumes "fresh_for X (Suc k) w" "q (w_db w) = Inr (x, d)"
    and "\<And>w'. fresh_for X k w' \<Longrightarrow> w_db w' = d \<Longrightarrow> Q (Inr x) w'"
  shows "wp (db_exec q) Q w"
  using assms(2,3) fresh_for_idle [OF assms(1)] fresh_for_no_faults [OF assms(1)] by (simp add: wp_db_exec)

lemma live_query:
  assumes "fresh_for X (Suc k) w" "q (w_db w) = Inr x"
    and "\<And>w'. fresh_for X k w' \<Longrightarrow> w_db w' = w_db w \<Longrightarrow> Q (Inr x) w'"
  shows "wp (db_query q) Q w"
  using assms(2,3) fresh_for_idle [OF assms(1)] fresh_for_no_faults [OF assms(1)] by (simp add: wp_db_query)

lemma live_time:
  assumes "fresh_for X (Suc k) w" "\<And>t w'. fresh_for X k w' \<Longrightarrow> w_db w' = w_db w \<Longrightarrow> Q t w'"
  shows "wp time_Now Q w"
  using assms(2) fresh_for_idle [OF assms(1)] by (simp add: wp_time_Now)

lemma live_range:
  assumes "fresh_for X (Suc k) w"
    "\<And>ks' w'. mset ks' = mset ks \<Longrightarrow> fresh_for X k w' \<Longrightarrow> w_db w' = w_db w \<Longrightarrow> Q ks' w'"
  shows "wp (go_range ks) Q w"
  using assms(2) fresh_for_idle [OF assms(1)] by (intro wp_go_range) simp

section \<open>The loop\<close>

lemma loop_live:
  assumes "fresh_for X (5 * length fs + k) w" "all_ids (w_db w) \<subseteq> X"
    and "p \<in> p_ID ` set (projects (w_db w))" "cid \<in> c_ID ` set (commits (w_db w))"
    and "None \<notin> ce_ChunkHashes ` set fs"
  shows "wp (commit_files_loop p cid now fs m hs) (\<lambda>r w'. \<not> isl r \<and>
    (\<exists>X'. fresh_for X' k w' \<and> all_ids (w_db w') \<subseteq> X')) w"
  using assms
proof (induction fs arbitrary: X m hs w)
  case Nil
  then show ?case by (auto simp: wp_simps)
next
  case (Cons f fs)
  let ?n = "5 * length fs + k"
  have 5: "fresh_for X (Suc (Suc (Suc (Suc (Suc ?n))))) w" using Cons.prems(1) by (rule fresh_for_le) simp
  show ?case
    unfolding commit_files_loop.simps FileStore_Upsert_def FileStore_GetByPath_def FileStore_CreateVersion_def
  proof (intro wp_bindI, rule live_uuid [OF 5], goal_cases)
    case (1 fid w1)
    let ?f = "\<lparr>f_ID = fid, f_ProjectID = p, f_Path = ce_Path f, f_CreatedAt = now\<rparr>"
    let ?d = "(w_db w)\<lparr>files := upsert_row f_key keep_row ?f (files (w_db w))\<rparr>"
    have up: "sql_upsert_file ?f (w_db w1) = Inr ((), ?d)"
      using 1 Cons.prems by (auto simp: sql_upsert_file_Inr all_ids_def)
    have keys: "(p, ce_Path f) \<in> f_key ` set (files ?d)"
      using keys_upsert [of f_key ?f keep_row "files (w_db w)"] by (simp add: f_key_def)
    then obtain row where row: "row_at f_key (p, ce_Path f) (files ?d) = Some row"
      by (metis not_Some_eq row_at_None)
    then have row_in: "row \<in> set (files ?d)" using row_at_SomeD by metis
    have ids: "all_ids ?d \<subseteq> insert fid X" using Cons.prems(2) by (auto simp: all_ids_def upsert_keep_row)
    show ?case
    proof (intro wp_go_tryI, rule live_exec [where q = "sql_upsert_file ?f", OF 1(2) up], goal_cases)
      case (1 w2)
      show ?case
        unfolding sum.case
      proof (intro wp_go_tryI, rule live_query [where x = row, OF 1(1)], goal_cases)
        case 1
        then show ?case using row \<open>w_db w2 = ?d\<close> by simp
      next
        case (2 w3)
        show ?case
          unfolding sum.case
        proof (intro wp_bindI, rule live_uuid [OF 2(1)], goal_cases)
          case (1 vid w4)
          let ?fv = "\<lparr>fv_ID = vid, fv_FileID = f_ID row, fv_CommitID = cid, fv_TotalSize = ce_TotalSize f,
            fv_ChunkCount = int (length (slice (ce_ChunkHashes f))), fv_ChunkHashes = ce_ChunkHashes f,
            fv_CreatedAt = now\<rparr>"
          let ?d' = "?d\<lparr>file_versions := file_versions ?d @ [?fv]\<rparr>"
          have d4: "w_db w4 = ?d" using 1(3) 2(2) \<open>w_db w2 = ?d\<close> by simp
          have ins: "sql_insert_version ?fv (w_db w4) = Inr ((), ?d')"
            unfolding sql_insert_version_Inr d4
            using 1(1) ids row_in Cons.prems(4,5) by (auto simp: all_ids_def)
          have ids': "all_ids ?d' \<subseteq> insert vid (insert fid X)" using ids by (auto simp: all_ids_def)
          show ?case
          proof (intro wp_go_tryI, rule live_exec [where q = "sql_insert_version ?fv", OF 1(2) ins], goal_cases)
            case (1 w5)
            then show ?case
              using Cons.IH [OF 1(1)] ids' Cons.prems(3-5) by simp
          qed
        qed
      qed
    qed
  qed
qed

section \<open>The rest of the commit\<close>

lemma commit_files_live:
  assumes ok: "db_ok d" and typed: "map_typed d m" and cid: "cid \<in> c_ID ` set (commits d)"
    and ks: "mset ks = mset (map fst m)"
  shows "\<exists>rows. sql_upsert_commit_files
    (map (\<lambda>k. \<lparr>cf_CommitID = cid, cf_FileID = k, cf_FileVersionID = the (map_versions m k)\<rparr>) ks) d
      = Inr ((), d\<lparr>commit_files := rows\<rparr>)"
proof -
  let ?row = "\<lambda>k. \<lparr>cf_CommitID = cid, cf_FileID = k, cf_FileVersionID = the (map_versions m k)\<rparr>"
  have keys: "set ks = fst ` set m" using ks by (metis set_map set_mset_mset)
  have "distinct (map fst m)" using typed by (simp add: map_typed_def)
  then have "distinct ks" using ks by (metis mset_eq_imp_distinct_iff)
  then have dist: "distinct (map cf_key (map ?row ks))"
    by (simp add: distinct_map inj_on_def cf_key_def)
  have fk: "cf_FileID cf \<in> f_ID ` set (files d) \<and> cf_FileVersionID cf \<in> fv_ID ` set (file_versions d)"
    if "cf \<in> set (map ?row ks)" for cf
  proof -
    from that obtain k where k: "k \<in> set ks" "cf = ?row k" by auto
    then obtain v where v: "map_versions m k = Some v"
      using keys by (auto simp: map_versions_def) (metis domD dom_map_of_conv_image_fst imageI fst_conv)
    obtain fv where fv: "fv \<in> set (file_versions d)" "fv_ID fv = v" "fv_FileID fv = k"
      using map_typedD [OF typed v] by blast
    then have "k \<in> f_ID ` set (files d)"
      using ok by (auto simp: db_ok_def schema_ok_def versions_ok_def)
    then show ?thesis using fv k v by auto
  qed
  show ?thesis
    using dist fk cid
    by (intro exI [of _ "fold (upsert_row cf_key cf_overwrite) (map ?row ks) (commit_files d)"])
      (auto simp: sql_upsert_commit_files_Inr simp del: map_map)
qed

text \<open>No counter of a listed chunk is at the end of its column.\<close>

definition count_room :: "db \<Rightarrow> string list \<Rightarrow> bool" where
  "count_room d hs \<longleftrightarrow> (\<forall>c \<in> set (chunks d). ch_Hash c \<in> set hs \<longrightarrow>
     - (2 ^ 31) \<le> ch_RefCount c + 1 \<and> ch_RefCount c + 1 < 2 ^ 31)"

lemma count_live: "count_room d hs \<Longrightarrow> \<exists>cs. sql_add_ref_count 1 hs d = Inr ((), d\<lparr>chunks := cs\<rparr>)"
  by (force simp: sql_add_ref_count_def count_room_def list_ex_iff)

lemma finish_live:
  assumes ok: "db_ok (w_db w)" and typed: "map_typed (w_db w) m" and cid: "cid \<in> c_ID ` set (commits (w_db w))"
    and fresh: "fresh_for X 5 w" "all_ids (w_db w) \<subseteq> X"
    and room: "count_room (w_db w) hs" and proj: "cr_ProjectID req \<in> p_ID ` set (projects (w_db w))"
    and name: "char_count (cr_Ref req) \<le> 256"
  shows "wp (commit_finish req cid now m hs) (\<lambda>r _. \<not> isl r) w"
proof -
  have 5: "fresh_for X (Suc 4) w" using fresh(1) by (simp add: eval_nat_numeral)
  have set_files: "wp (CommitStore_SetCommitFiles cid (snapshot_rows cid m ks)) Q w1"
    if "mset ks = mset (map fst m)" "fresh_for X (Suc k) w1" "w_db w1 = w_db w"
      "\<And>w2 rows. fresh_for X k w2 \<Longrightarrow> w_db w2 = (w_db w)\<lparr>commit_files := rows\<rparr> \<Longrightarrow> Q (Inr ()) w2" for ks w1 k Q
  proof (cases "snapshot_rows cid m ks = []")
    case True
    have "fresh_for X k w1" using that(2) by (rule fresh_for_le) simp
    then show ?thesis using that(3) that(4) [of w1 "commit_files (w_db w)"] True
      by (simp add: CommitStore_SetCommitFiles_def wp_simps)
  next
    case False
    note ks = that(1) and db = that(3)
    let ?rs = "map (\<lambda>k. \<lparr>cf_CommitID = cid, cf_FileID = k, cf_FileVersionID = the (map_versions m k)\<rparr>) ks"
    obtain rows where up: "sql_upsert_commit_files ?rs (w_db w1) = Inr ((), (w_db w)\<lparr>commit_files := rows\<rparr>)"
      using commit_files_live [OF ok typed cid ks] db by auto
    show ?thesis
      unfolding CommitStore_SetCommitFiles_def if_not_P [OF False]
        snapshot_insert_rows [OF map_typed_sound [OF ok typed] that(1)]
      by (rule live_exec [where q = "sql_upsert_commit_files ?rs", OF that(2) up]) (rule that(4))
  qed
  have count: "wp (count_chunks hs) Q w2"
    if "fresh_for X (Suc k) w2" "w_db w2 = (w_db w)\<lparr>commit_files := rows\<rparr>"
      "\<And>w3 cs. fresh_for X k w3 \<Longrightarrow> w_db w3 = (w_db w)\<lparr>commit_files := rows, chunks := cs\<rparr> \<Longrightarrow> Q (Inr ()) w3" for w2 k Q rows
  proof (cases "hs = []")
    case True
    have "fresh_for X k w2" using that(1) by (rule fresh_for_le) simp
    then show ?thesis using that(2) that(3) [of w2 "chunks (w_db w)"] True by (simp add: count_chunks_def wp_simps)
  next
    case False
    have "count_room (w_db w2) hs" using room that(2) by (simp add: count_room_def)
    then obtain cs where "sql_add_ref_count 1 hs (w_db w2) = Inr ((), (w_db w2)\<lparr>chunks := cs\<rparr>)"
      using count_live by blast
    then have up: "sql_add_ref_count 1 hs (w_db w2) = Inr ((), (w_db w)\<lparr>commit_files := rows, chunks := cs\<rparr>)"
      using that(2) by simp
    have "count_chunks hs = db_exec (sql_add_ref_count 1 hs)"
      using False by (simp add: count_chunks_def ChunkStore_IncrementRefCount_def)
    then show ?thesis
      by (simp only:) (rule live_exec [where q = "sql_add_ref_count 1 hs", OF that(1) up], rule that(3))
  qed
  have ref: "wp (advance_ref req cid now) (\<lambda>r _. \<not> isl r) w3"
    if "fresh_for X (Suc (Suc k)) w3" "w_db w3 = (w_db w)\<lparr>commit_files := rows, chunks := cs\<rparr>" for w3 k rows cs
  proof (cases "cr_Ref req = []")
    case False
    show ?thesis
      unfolding advance_ref_def if_P [OF False] CommitStore_UpsertRef_def
    proof (intro wp_bindI, rule live_uuid [OF that(1)], goal_cases)
      case (1 i w4)
      let ?r = "\<lparr>r_ID = i, r_ProjectID = cr_ProjectID req, r_Name = cr_Ref req, r_Type = ''branch'',
        r_CommitID = cid, r_UpdatedAt = now\<rparr>"
      have "i \<notin> r_ID ` set (refs (w_db w4))" using 1 that(2) fresh(2) by (auto simp: all_ids_def)
      then have "sql_upsert_ref ?r (w_db w4) = Inr ((), (w_db w4)\<lparr>refs := upsert_row r_key r_overwrite ?r (refs (w_db w4))\<rparr>)"
        using 1(3) that(2) proj cid name by (simp add: sql_upsert_ref_Inr)
      then show ?case by (rule live_exec [where q = "sql_upsert_ref ?r", OF 1(2)]) simp
    qed
  qed (simp add: advance_ref_def wp_simps)
  show ?thesis
    unfolding commit_finish_def
  proof (intro wp_bindI, rule live_range [OF 5], intro wp_go_tryI, goal_cases)
    case (1 ks w1)
    have "fresh_for X (Suc 3) w1" using 1(2) by (simp add: eval_nat_numeral)
    with 1(1) show ?case
    proof (rule set_files, goal_cases)
      case 1
      show ?case by fact
    next
      case (2 w2 rows)
      note w2 = this
      have fresh2: "fresh_for X (Suc 2) w2" using w2(1) by (simp add: eval_nat_numeral)
      show ?case
        unfolding sum.case
      proof (intro wp_go_tryI, rule count [OF fresh2 w2(2)], goal_cases)
        case (1 w3 cs)
        note w3 = this
        have "fresh_for X (Suc (Suc 0)) w3" using w3(1) by (simp add: eval_nat_numeral)
        from ref [OF this w3(2)] show ?case
          unfolding sum.case
          by (intro wp_go_tryI) (auto elim!: wp_mono simp: wp_simps split: sum.splits)
      qed
    qed
  qed
qed

text \<open>A push that meets the rules of the server.\<close>

definition admissible :: "db \<Rightarrow> CommitRequest \<Rightarrow> bool" where
  "admissible d req \<longleftrightarrow> cr_ProjectID req \<in> p_ID ` set (projects d) \<and> cr_AuthorID req \<in> u_ID ` set (users d)
     \<and> (\<forall>q. cr_ParentCommitID req = Some q \<longrightarrow> q \<in> c_ID ` set (commits d))
     \<and> (cr_Ref req \<noteq> '''' \<longrightarrow> head_of d (cr_ProjectID req) (cr_Ref req) = cr_ParentCommitID req)
     \<and> char_count (cr_Ref req) \<le> 256 \<and> None \<notin> ce_ChunkHashes ` set (cr_Files req)
     \<and> count_room d (pushed_hashes req)"

lemma live_verify_parent:
  assumes "fresh_for X (Suc k) w" "admissible (w_db w) req"
    and "\<And>w'. fresh_for X k w' \<Longrightarrow> w_db w' = w_db w \<Longrightarrow> Q (Inr ()) w'"
  shows "wp (verify_parent req) Q w"
proof (cases "cr_Ref req = ''''")
  case True
  have "fresh_for X k w" using assms(1) by (rule fresh_for_le) simp
  then show ?thesis using True assms(3) by (simp add: verify_parent_def wp_simps)
next
  case False
  then have head: "head_of (w_db w) (cr_ProjectID req) (cr_Ref req) = cr_ParentCommitID req"
    using assms(2) by (simp add: admissible_def)
  then show ?thesis
    using False assms(3) fresh_for_idle [OF assms(1)] fresh_for_no_faults [OF assms(1)]
    by (auto simp: verify_parent_def wp_simps head_of_def split: option.splits)
qed

lemma live_parent_snapshot:
  assumes "fresh_for X (Suc k) w" "db_ok (w_db w)"
    and "\<And>m w'. map_typed (w_db w) m \<Longrightarrow> fresh_for X k w' \<Longrightarrow> w_db w' = w_db w \<Longrightarrow> Q m w'"
  shows "wp (parent_snapshot req) Q w"
proof (cases "cr_ParentCommitID req")
  case None
  have "map_typed (w_db w) []" by (simp add: map_typed_def)
  moreover have "fresh_for X k w" using assms(1) by (rule fresh_for_le) simp
  ultimately show ?thesis using None assms(3) by (simp add: parent_snapshot_def wp_simps)
next
  case (Some q)
  then show ?thesis
    using assms(3) [OF map_typed_snapshot_map [OF assms(2)]] fresh_for_idle [OF assms(1)]
      fresh_for_no_faults [OF assms(1)]
    by (simp add: parent_snapshot_def wp_simps snapshot_map_def)
qed

lemma insert_new_commit_ok:
  assumes "db_ok d" "sql_insert_commit (new_commit req cid now) d = Inr (x, d')"
  shows "db_ok d'"
  using assms
  by (rule insert_commit_ok)
    (use assms(2) in \<open>auto simp: sql_insert_commit_Inr new_commit_def parent_compat_def split: option.splits\<close>)

lemma commit_write_live:
  assumes ok: "db_ok (w_db w)" and adm: "admissible (w_db w) req"
    and fresh: "fresh_for X (9 + 5 * length (cr_Files req)) w" "all_ids (w_db w) \<subseteq> X"
  shows "wp (commit_write req) (\<lambda>r _. \<not> isl r) w"
  unfolding commit_write_def Let_def CommitStore_Create_def
proof (intro wp_bindI, rule live_time [where X = X and k = "8 + 5 * length (cr_Files req)"], goal_cases)
  case 1
  show ?case using fresh(1) by (simp add: eval_nat_numeral)
next
  case (2 now w1)
  then have fresh1: "fresh_for X (Suc (7 + 5 * length (cr_Files req))) w1" by (simp add: eval_nat_numeral)
  show ?case
  proof (intro wp_bindI, rule live_uuid [OF fresh1], intro wp_go_tryI, goal_cases)
    case (1 cid w2)
    let ?c = "new_commit req cid now"
    let ?d = "(w_db w)\<lparr>commits := commits (w_db w) @ [?c]\<rparr>"
    have ins: "sql_insert_commit ?c (w_db w2) = Inr ((), ?d)"
      using 1 2(2) adm fresh(2) by (auto simp: sql_insert_commit_Inr new_commit_def admissible_def all_ids_def)
    have fresh2: "fresh_for (insert cid X) (Suc (6 + 5 * length (cr_Files req))) w2"
      using 1(2) by (simp add: eval_nat_numeral)
    have "sql_insert_commit ?c (w_db w) = Inr ((), ?d)" using ins 1(3) 2(2) by simp
    then have ok3: "db_ok ?d" by (rule insert_new_commit_ok [OF ok])
    show ?case
      unfolding new_commit_def [symmetric]
    proof (rule live_exec [where q = "sql_insert_commit ?c", OF fresh2 ins], goal_cases)
      case (1 w3)
      have fresh3: "fresh_for (insert cid X) (Suc (5 + 5 * length (cr_Files req))) w3"
        using 1(1) by (simp add: eval_nat_numeral)
      have ok3': "db_ok (w_db w3)" using ok3 1(2) by simp
      show ?case
        unfolding sum.case
      proof (intro wp_bindI, rule live_parent_snapshot [OF fresh3 ok3'], intro wp_go_tryI, goal_cases)
        case (1 m w4)
        have d4: "w_db w4 = ?d" using 1(3) \<open>w_db w3 = ?d\<close> by simp
        have "wp (commit_files_loop (cr_ProjectID req) cid now (cr_Files req) m [])
            (\<lambda>r w'. (\<not> isl r \<and> (\<exists>X'. fresh_for X' 5 w' \<and> all_ids (w_db w') \<subseteq> X'))
              \<and> loop_post (cr_ProjectID req) cid (cr_Files req) m [] w4 r w') w4"
        proof (rule wp_conj [OF loop_live commit_files_loop_spec])
          show "fresh_for (insert cid X) (5 * length (cr_Files req) + 5) w4" using 1(2) by (simp add: add.commute)
          show "all_ids (w_db w4) \<subseteq> insert cid X" using fresh(2) d4 by (auto simp: all_ids_def new_commit_def)
          show "map_typed (w_db w4) m" using 1(1,3) by simp
        qed (use adm d4 ok3 in \<open>auto simp: admissible_def new_commit_def\<close>)
        then show ?case
        proof (rule wp_mono, goal_cases)
          case (1 r w5)
          then obtain m' hs X' where r: "r = Inr (m', hs)" and X': "fresh_for X' 5 w5" "all_ids (w_db w5) \<subseteq> X'"
            by (cases r) auto
          have post: "db_ok (w_db w5)" "versions_frame cid (w_db w4) (w_db w5)" "map_typed (w_db w5) m'"
              "hs = pushed_hashes req"
            using 1 r by (simp_all add: loop_post_def pushed_hashes_def)
          note v = versions_frameD [OF post(2)]
          have "wp (commit_finish req cid now m' hs) (\<lambda>r _. \<not> isl r) w5"
            using post X' v adm d4
            by (intro finish_live) (auto simp: admissible_def new_commit_def count_room_def)
          then show ?case using r by simp
        qed
      qed
    qed
  qed
qed

lemma CreateCommit_live:
  assumes "db_ok (w_db w)" "admissible (w_db w) req"
    and "fresh_for (all_ids (w_db w)) (10 + 5 * length (cr_Files req)) w"
  shows "wp (CreateCommit req) (\<lambda>r _. \<not> isl r) w"
  unfolding CreateCommit_def
proof (intro wp_go_tryI, rule live_verify_parent [where X = "all_ids (w_db w)" and k = "9 + 5 * length (cr_Files req)"], goal_cases)
  case 1
  show ?case using assms(3) by (simp add: eval_nat_numeral)
next
  case (3 w')
  then show ?case using assms(1,2) commit_write_live [of w' req "all_ids (w_db w)"] by simp
qed (rule assms)

end
