(* ===== verification/Branch_Proofs.thy ===== *)
theory Branch_Proofs
  imports Lock_Proofs
begin

text \<open>
  Branches over time: with a working store a branch only moves forward, that is, its new head
  reaches its old head, whatever the request.
\<close>

section \<open>Requests that move no ref\<close>

definition same_refs :: "world \<Rightarrow> world \<Rightarrow> bool" where
  "same_refs w w' \<longleftrightarrow> refs (w_db w') = refs (w_db w)"

interpretation refs_frame: frame_relation same_refs
  by unfold_locales (simp_all add: same_refs_def)

lemma refs_requests:
  "preserves same_refs (PushHandler_UploadChunk maxSize h data)"
  "preserves same_refs (LockHandler_Acquire p u body3)"
  "preserves same_refs (LockHandler_Release p u body4)"
proof -
  have put: "preserves same_refs (MinioStore_Put k data)" for k
    by (auto simp: preserves_def wp_simps same_refs_def split: option.splits)
  have insert_chunk: "preserves same_refs (ChunkStore_Insert c)" for c
    unfolding ChunkStore_Insert_def
    by (rule refs_frame.frame_db_exec) (auto simp: same_refs_def sql_insert_chunk_Inr)
  have insert_lock: "preserves same_refs (LockStore_Acquire_insert l)" for l
    unfolding LockStore_Acquire_insert_def
    by (rule refs_frame.frame_db_exec) (auto simp: same_refs_def sql_insert_lock_Inr split: if_splits)
  have delete: "preserves same_refs (db_exec (sql_delete_locks P))" for P
    by (rule refs_frame.frame_db_exec) (auto simp: same_refs_def sql_delete_locks_Inr)
  have acquire: "preserves same_refs (LockStore_Acquire l)" for l
    unfolding LockStore_Acquire_def LockStore_GetByPath_def
    by (auto intro!: frame_intros insert_lock split: option.splits sum.splits)
  show "preserves same_refs (PushHandler_UploadChunk maxSize h data)"
    unfolding PushHandler_UploadChunk_def ChunkService_Upload_def Let_def
    by (auto intro!: frame_intros put insert_chunk split: option.splits)
  show "preserves same_refs (LockHandler_Acquire p u body3)"
    unfolding LockHandler_Acquire_def LockService_Acquire_def LockStore_GetByPath_def Let_def
    by (auto intro!: frame_intros acquire split: option.splits sum.splits)
  show "preserves same_refs (LockHandler_Release p u body4)"
    unfolding LockHandler_Release_def LockService_Release_def LockStore_Release_def Let_def
    by (auto intro!: frame_intros delete split: option.splits sum.splits)
qed

lemma refs_route:
  assumes "\<And>p u body. req \<noteq> PushCommit p u body" "\<And>p u body. req \<noteq> ExecuteMerge p u body"
    "\<And>p body. req \<noteq> CreateBranch p body"
  shows "preserves same_refs (route maxSize req)"
  using assms
  by (cases req) (auto intro!: refs_frame.frame_status_of refs_frame.frame_reads refs_frame.frame_DownloadChunk
    refs_requests)

section \<open>Branches move forward\<close>

definition forward :: "db \<Rightarrow> db \<Rightarrow> bool" where
  "forward d d' \<longleftrightarrow> (\<forall>p n h. head_of d p n = Some h \<longrightarrow> (\<exists>h'. head_of d' p n = Some h' \<and> reaches d' h' h))"

lemma forward_same: "refs d' = refs d \<Longrightarrow> forward d d'"
  by (auto simp: forward_def head_of_def)

lemma forward_trans:
  assumes "forward d1 d2" "forward d2 d3" "history_frame d2 d3"
  shows "forward d1 d3"
  unfolding forward_def
proof (intro allI impI)
  fix p n h
  assume "head_of d1 p n = Some h"
  with assms(1) obtain h2 where h2: "head_of d2 p n = Some h2" "reaches d2 h2 h" unfolding forward_def by blast
  with assms(2) obtain h3 where h3: "head_of d3 p n = Some h3" "reaches d3 h3 h2" unfolding forward_def by blast
  have "reaches d3 h3 h"
    using h3(2) reaches_mono [OF assms(3) h2(2)] by (auto simp: reaches_def)
  with h3(1) show "\<exists>h'. head_of d3 p n = Some h' \<and> reaches d3 h' h" by blast
qed

text \<open>One ref is set; its old head, if any, is reached from the new one.\<close>

lemma forward_update:
  assumes "ref_target d' = (ref_target d)((p, n, ''branch'') \<mapsto> h')"
    and "\<And>h. head_of d p n = Some h \<Longrightarrow> reaches d' h' h"
  shows "forward d d'"
  using assms by (auto simp: forward_def head_of_ref_target)

lemma forward_CreateCommit:
  assumes ok: "db_ok (w_db w)" and run: "no_faults w"
  shows "wp (CreateCommit req) (\<lambda>_ w'. forward (w_db w) (w_db w')) w"
proof (rule wp_mono [OF CreateCommit_spec [OF ok]])
  fix r and w' :: world
  assume post: "commit_post req w r w' \<and> (no_faults w \<longrightarrow> r \<noteq> Inl ErrCommitConflict \<longrightarrow>
    cr_Ref req = '''' \<or> head_of (w_db w) (cr_ProjectID req) (cr_Ref req) = cr_ParentCommitID req)"
  show "forward (w_db w) (w_db w')"
  proof (cases r)
    case (Inl e)
    then show ?thesis using post by (simp add: commit_post_def forward_def head_of_ref_target)
  next
    case (Inr res)
    show ?thesis
    proof (cases "cr_Ref req = ''''")
      case True
      then show ?thesis using post Inr by (simp add: commit_post_def forward_def head_of_ref_target)
    next
      case False
      let ?cid = "cres_CommitID res"
      obtain now where c: "commits (w_db w') = commits (w_db w) @ [new_commit req ?cid now]"
        using post Inr by (auto simp: commit_post_def)
      have head: "head_of (w_db w) (cr_ProjectID req) (cr_Ref req) = cr_ParentCommitID req"
        using post Inr run False by simp
      show ?thesis
      proof (rule forward_update)
        show "ref_target (w_db w') = (ref_target (w_db w))((cr_ProjectID req, cr_Ref req, ''branch'') \<mapsto> ?cid)"
          using post Inr False by (simp add: commit_post_def)
        fix h
        assume h: "head_of (w_db w) (cr_ProjectID req) (cr_Ref req) = Some h"
        then have "h \<in> c_ID ` set (commits (w_db w))" using ok by (auto intro: head_is_commit simp: db_ok_def)
        then have "(?cid, h) \<in> parent_of (commits (w_db w'))"
          using head h c by (auto simp: parent_of_def new_commit_def)
        then show "reaches (w_db w') ?cid h" by (auto simp: reaches_def)
      qed
    qed
  qed
qed

lemma forward_Execute:
  assumes ok: "db_ok (w_db w)"
  shows "wp (Execute p src tgt u msg rs) (\<lambda>_ w'. forward (w_db w) (w_db w')) w"
proof (rule wp_Execute [OF ok], goal_cases)
  case (4 r w' rows sh th)
  have "reaches (w_db w') sh th" "head_of (w_db w) p tgt = Some th"
    using 4(3,4) by (simp_all add: forwarding_def reaches_def)
  with 4(5) show ?case by (intro forward_update) auto
next
  case (5 c w')
  then obtain sh th base an s t now where d: "merging (w_db w) p src tgt sh th base an" "r_CommitID t = th"
      "commits (w_db w') = commits (w_db w) @ [merge_row p src tgt u msg s t now (c_ID c)]"
      "ref_target (w_db w') = (ref_target (w_db w))((p, tgt, ''branch'') \<mapsto> c_ID c)"
    unfolding merge_done_def by blast
  have head: "head_of (w_db w) p tgt = Some th" using d(1) by (simp add: merging_def)
  then have "th \<in> c_ID ` set (commits (w_db w))" using head_is_commit ok by (auto simp: db_ok_def)
  then have "reaches (w_db w') (c_ID c) th" using d(2) by (intro reaches_merge_row [OF d(3)]) auto
  with d(4) head show ?case by (intro forward_update) auto
qed (auto simp: forward_def head_of_ref_target)

lemma forward_Push:
  assumes ok: "db_ok (w_db w)" and run: "no_faults w"
  shows "wp (PushHandler_Commit p u body) (\<lambda>_ w'. forward (w_db w) (w_db w')) w"
proof (cases "\<exists>req. body = Some req \<and> pr_Message req \<noteq> [] \<and> pr_Files req \<noteq> []")
  case True
  then obtain req where req: "body = Some req" "pr_Message req \<noteq> []" "pr_Files req \<noteq> []" by blast
  show ?thesis
    unfolding req(1)
  proof (rule wp_Push [OF ok run req(2,3)], goal_cases)
    case (1 w' info)
    then show ?case by (simp add: forward_same)
  next
    case (2 w1)
    have "wp (CreateCommit (push_commit_request p u req)) (\<lambda>_ w'. forward (w_db w1) (w_db w')) w1"
      using 2 ok run by (intro forward_CreateCommit) (simp_all add: same_env_no_faults)
    then show ?case using 2(1) by (auto elim!: wp_mono split: sum.splits)
  qed
next
  case False
  then consider "body = None" | req where "body = Some req" "pr_Message req = []"
    | req where "body = Some req" "pr_Files req = []" by (cases body) auto
  then show ?thesis
    by cases (simp_all add: PushHandler_Commit_def wp_simps forward_same)
qed

lemma forward_Merge:
  assumes "db_ok (w_db w)"
  shows "wp (MergeHandler_ExecuteMerge p u body) (\<lambda>_ w'. forward (w_db w) (w_db w')) w"
proof (cases body)
  case None
  then show ?thesis by (simp add: MergeHandler_ExecuteMerge_def wp_simps forward_same)
next
  case (Some req)
  show ?thesis
    unfolding MergeHandler_ExecuteMerge_def Some
    by (auto simp: wp_simps forward_same split: option.splits sum.splits intro: wp_mono [OF forward_Execute [OF assms]])
qed

lemma forward_Branch:
  assumes ok: "db_ok (w_db w)" and run: "no_faults w"
  shows "wp (MergeHandler_CreateBranch p body) (\<lambda>_ w'. forward (w_db w) (w_db w')) w"
proof (cases "\<exists>req. body = Some req \<and> br_Name req \<noteq> []")
  case True
  then obtain req where req: "body = Some req" "br_Name req \<noteq> []" by blast
  show ?thesis
    unfolding req(1)
  proof (rule wp_CreateBranch [OF ok req(2) refl], goal_cases)
    case (1 w' st c m)
    then show ?case by (simp add: forward_same)
  next
    case (2 w' rs ref h)
    then show ?case using run by (intro forward_update) auto
  qed
next
  case False
  then consider "body = None" | req where "body = Some req" "br_Name req = []" by (cases body) auto
  then show ?thesis by cases (simp_all add: MergeHandler_CreateBranch_def wp_simps forward_same)
qed

lemma forward_step:
  assumes "server_step maxSize w ev w'" "db_ok (w_db w)" "no_faults w"
  shows "forward (w_db w) (w_db w')"
  using assms(1)
proof (cases rule: server_step.cases)
  case elapsed
  then show ?thesis by (simp add: forward_same)
next
  case (served req st)
  consider (push) p u body where "req = PushCommit p u body" | (merge) p u body where "req = ExecuteMerge p u body"
    | (branch) p body where "req = CreateBranch p body"
    | (other) "\<And>p u body. req \<noteq> PushCommit p u body" "\<And>p u body. req \<noteq> ExecuteMerge p u body"
      "\<And>p body. req \<noteq> CreateBranch p body"
    by blast
  then show ?thesis
  proof cases
    case push
    have "wp (route maxSize req) (\<lambda>_ w'. forward (w_db w) (w_db w')) w"
      unfolding push route.simps by (intro wp_status_of forward_Push [OF assms(2,3)])
    then show ?thesis using served(2) by (rule wp_run)
  next
    case merge
    have "wp (route maxSize req) (\<lambda>_ w'. forward (w_db w) (w_db w')) w"
      unfolding merge route.simps by (intro wp_status_of forward_Merge [OF assms(2)])
    then show ?thesis using served(2) by (rule wp_run)
  next
    case branch
    have "wp (route maxSize req) (\<lambda>_ w'. forward (w_db w) (w_db w')) w"
      unfolding branch route.simps by (intro wp_status_of forward_Branch [OF assms(2,3)])
    then show ?thesis using served(2) by (rule wp_run)
  next
    case other
    have "same_refs w w'" using refs_route [OF other] served(2) by (rule preservesD)
    then show ?thesis by (simp add: same_refs_def forward_same)
  qed
qed

text \<open>A run in which the store works whenever a request is served.\<close>

inductive calm_run :: "int \<Rightarrow> world \<Rightarrow> event list \<Rightarrow> world \<Rightarrow> bool" for maxSize where
  calm_Nil: "calm_run maxSize w [] w"
| calm_Cons: "no_faults w \<Longrightarrow> server_step maxSize w ev w1 \<Longrightarrow> calm_run maxSize w1 evs w2 \<Longrightarrow>
    calm_run maxSize w (ev # evs) w2"

inductive_simps calm_run_simps [simp]: "calm_run maxSize w [] w'" "calm_run maxSize w (ev # evs) w'"

lemma calm_run_server_run: "calm_run maxSize w evs w' \<Longrightarrow> server_run maxSize w evs w'"
  by (induction rule: calm_run.induct) auto

lemma forward_run:
  assumes "calm_run maxSize w evs w'" "system_ok w"
  shows "forward (w_db w) (w_db w')"
  using assms
proof (induction rule: calm_run.induct)
  case (calm_Nil w)
  then show ?case by (simp add: forward_same)
next
  case (calm_Cons w ev w1 evs w2)
  have ok1: "system_ok w1" using system_ok_step(1) calm_Cons.prems calm_Cons.hyps(2) by blast
  have "forward (w_db w) (w_db w1)"
    using calm_Cons.hyps(2,1) calm_Cons.prems by (intro forward_step) (simp_all add: system_ok_def)
  moreover have "forward (w_db w1) (w_db w2)" using calm_Cons.IH ok1 by blast
  moreover have "history_frame (w_db w1) (w_db w2)"
    using system_ok_run(2) [OF calm_run_server_run [OF calm_Cons.hyps(3)] ok1] .
  ultimately show ?case by (rule forward_trans)
qed

end
