(* ===== verification/Demo.thy ===== *)
theory Demo
  imports Lock_Proofs Rate_Limit Commit_Liveness Branch_Proofs
begin

text \<open>
  A small server state on which the theorems are applied: two users, one project with a branch
  \<open>main\<close> and a branch \<open>dev\<close> that have diverged. Both changed \<open>a.txt\<close>, only \<open>dev\<close> changed
  \<open>b.txt\<close>; \<open>a.txt\<close> is locked by the second user.
\<close>

definition demo_user :: "string \<Rightarrow> User" where
  "demo_user n = \<lparr>u_ID = n, u_Username = n, u_Email = n, u_PasswordHash = '''', u_Role = ''member'',
     u_CreatedAt = 0, u_UpdatedAt = 0\<rparr>"

definition demo_commit :: "string \<Rightarrow> string option \<Rightarrow> int \<Rightarrow> Commit" where
  "demo_commit c parent now = \<lparr>c_ID = c, c_ProjectID = ''p'', c_ParentID = parent,
     c_ParentIDs = (case parent of None \<Rightarrow> [] | Some q \<Rightarrow> [q]), c_AuthorID = ''alice'', c_Message = c,
     c_CreatedAt = now\<rparr>"

definition demo_ref :: "string \<Rightarrow> string \<Rightarrow> Ref" where
  "demo_ref n c = \<lparr>r_ID = n, r_ProjectID = ''p'', r_Name = n, r_Type = ''branch'', r_CommitID = c,
     r_UpdatedAt = 0\<rparr>"

definition demo_file :: "string \<Rightarrow> string \<Rightarrow> File" where
  "demo_file i path = \<lparr>f_ID = i, f_ProjectID = ''p'', f_Path = path, f_CreatedAt = 0\<rparr>"

definition demo_version :: "string \<Rightarrow> string \<Rightarrow> string \<Rightarrow> string \<Rightarrow> FileVersion" where
  "demo_version v f c h = \<lparr>fv_ID = v, fv_FileID = f, fv_CommitID = c, fv_TotalSize = 1, fv_ChunkCount = 1,
     fv_ChunkHashes = Some [h], fv_CreatedAt = 0\<rparr>"

definition demo_cf :: "string \<Rightarrow> string \<Rightarrow> string \<Rightarrow> CommitFile" where
  "demo_cf c f v = \<lparr>cf_CommitID = c, cf_FileID = f, cf_FileVersionID = v\<rparr>"

definition demo_lock :: Lock where
  "demo_lock = \<lparr>l_ID = ''l'', l_ProjectID = ''p'', l_FilePath = ''a.txt'', l_Branch = ''main'',
     l_LockedBy = ''bob'', l_LockedAt = 0, l_LockedByUsername = ''''\<rparr>"

definition demo_db :: db where
  "demo_db = \<lparr>users = [demo_user ''alice'', demo_user ''bob''],
     projects = [\<lparr>p_ID = ''p'', p_Name = ''demo'', p_Description = '''', p_CreatedBy = ''alice'',
       p_CreatedAt = 0, p_UpdatedAt = 0\<rparr>],
     chunks = [\<lparr>ch_Hash = ''h1'', ch_SizeBytes = 1, ch_MinioBucket = ''chunks'', ch_MinioKey = ''k'',
       ch_RefCount = 3, ch_CreatedAt = 0\<rparr>],
     commits = [demo_commit ''c0'' None 1, demo_commit ''c1'' (Some ''c0'') 2, demo_commit ''c2'' (Some ''c0'') 3],
     refs = [demo_ref ''main'' ''c1'', demo_ref ''dev'' ''c2'', demo_ref ''old'' ''c0''],
     files = [demo_file ''fa'' ''a.txt'', demo_file ''fb'' ''b.txt''],
     file_versions = [demo_version ''a0'' ''fa'' ''c0'' ''h1'', demo_version ''b0'' ''fb'' ''c0'' ''h1'',
       demo_version ''a1'' ''fa'' ''c1'' ''h1'', demo_version ''a2'' ''fa'' ''c2'' ''h1'',
       demo_version ''b2'' ''fb'' ''c2'' ''h1''],
     commit_files = [demo_cf ''c0'' ''fa'' ''a0'', demo_cf ''c0'' ''fb'' ''b0'', demo_cf ''c1'' ''fa'' ''a1'',
       demo_cf ''c1'' ''fb'' ''b0'', demo_cf ''c2'' ''fa'' ''a2'', demo_cf ''c2'' ''fb'' ''b2''],
     locks = [demo_lock]\<rparr>"

definition demo :: world where
  "demo = \<lparr>w_db = demo_db, w_blobs = Map.empty, w_tick = 0, w_fault = (\<lambda>_. False), w_clock = int,
     w_rand = (\<lambda>n. [word_of_nat n]), w_order = (\<lambda>_ ks. ks), w_rfc3339 = (\<lambda>_. '''')\<rparr>"

lemmas demo_defs = demo_db_def demo_user_def demo_commit_def demo_ref_def demo_file_def demo_version_def
  demo_cf_def demo_lock_def

lemma demo_schema: "schema_ok demo_db"
  by (simp add: schema_ok_def table_ok_defs demo_defs r_key_def f_key_def cf_key_def l_key_def)

lemma demo_history: "history_ok demo_db"
  by (simp add: history_defs demo_defs parent_compat_def)

lemma demo_ok: "db_ok (w_db demo)"
  by (simp add: demo_def db_ok_def demo_schema demo_history)

lemma demo_no_faults: "no_faults demo"
  by (simp add: demo_def no_faults_def)

definition demo_push :: "CommitRequest" where
  "demo_push = \<lparr>cr_ProjectID = ''p'', cr_ParentCommitID = Some ''c1'', cr_AuthorID = ''bob'',
     cr_Message = ''m'', cr_Ref = ''main'',
     cr_Files = [\<lparr>ce_Path = ''a.txt'', ce_TotalSize = 1, ce_ChunkHashes = Some [''h1'']\<rparr>,
       \<lparr>ce_Path = ''new.txt'', ce_TotalSize = 1, ce_ChunkHashes = Some [''h1'']\<rparr>]\<rparr>"

lemma demo_push_runs: "\<not> isl (fst (run_state (CreateCommit demo_push) demo))"
  by code_simp

lemma not_isl_run: "\<not> isl (fst (run_state m w)) \<Longrightarrow> \<exists>x w'. run_state m w = (Inr x, w')"
  by (metis eq_fst_iff isl_def sum.exhaust)

lemma demo_push_run: "\<exists>res w'. run_state (CreateCommit demo_push) demo = (Inr res, w')"
  using demo_push_runs by (rule not_isl_run)

definition demo_merge :: "Commit outcome io" where
  "demo_merge = Execute ''p'' ''dev'' ''main'' ''bob'' '''' [\<lparr>mr_FileID = ''fa'', mr_FileVersionID = ''a2''\<rparr>]"

lemma demo_merge_runs: "case fst (run_state demo_merge demo) of Some (Inr c) \<Rightarrow> True | _ \<Rightarrow> False"
  by code_simp

lemma demo_merge_run: "\<exists>c w'. run_state demo_merge demo = (Some (Inr c), w')"
  using demo_merge_runs by (cases "run_state demo_merge demo") (auto split: option.splits sum.splits)

text \<open>The same server before anything was uploaded, and a push request to it.\<close>

definition demo_bare :: world where
  "demo_bare = demo\<lparr>w_db := demo_db\<lparr>chunks := []\<rparr>\<rparr>"

lemma demo_bare_ok: "system_ok demo_bare"
  using demo_schema demo_history
  by (simp add: system_ok_def content_ok_def bucket_ok_def backed_def demo_bare_def demo_def db_ok_def
    schema_ok_def table_ok_defs history_defs)

definition demo_body :: PushRequest where
  "demo_body = \<lparr>pr_ParentCommitID = Some ''c1'', pr_Message = ''m'', pr_Ref = ''main'',
     pr_Files = [\<lparr>ce_Path = ''a.txt'', ce_TotalSize = 1, ce_ChunkHashes = Some [''h2'']\<rparr>]\<rparr>"

definition demo_events :: "event list" where
  "demo_events = [Served (PushCommit ''p'' ''bob'' (Some demo_body)) 201, Elapsed]"

lemma demo_served: "fst (run_state (route 0 (PushCommit ''p'' ''bob'' (Some demo_body))) demo_bare) = 201"
  by code_simp

lemma demo_server_run:
  "server_run 0 demo_bare demo_events (snd (run_state (route 0 (PushCommit ''p'' ''bob'' (Some demo_body))) demo_bare))"
  using demo_served by (simp add: demo_events_def server_step.simps) (metis prod.collapse)

end
