(* ===== verification/Version_Properties.thy ===== *)
theory Version_Properties
  imports Demo
begin

text \<open>
  The properties of commits, file versions and diffs (\<^verbatim>\<open>internal/service/version.go\<close> over
  \<^verbatim>\<open>internal/store/postgres\<close>).
\<close>

section \<open>Creating a commit\<close>

text \<open>C1: A commit is a full snapshot. When a push with a working store succeeds, the manifest that
  the new commit holds for a path is the one the push listed last for that path, and for every path
  it did not list the manifest of the parent commit.\<close>

theorem commit_snapshot:
  assumes "db_ok (w_db w)" "no_faults w" "run_state (CreateCommit req) w = (Inr res, w')"
  shows "manifest (w_db w') (cr_ProjectID req) (cres_CommitID res) path =
    (case pushed (cr_Files req) path of Some e \<Rightarrow> ce_ChunkHashes e | None \<Rightarrow> inherited (w_db w) req path)"
  using wp_run [OF CreateCommit_spec [OF assms(1)] assms(3)] assms(2) by (simp add: commit_post_def)

theorem commit_snapshot_witness:
  "\<exists>res w'. run_state (CreateCommit demo_push) demo = (Inr res, w')
    \<and> manifest (w_db w') ''p'' (cres_CommitID res) ''new.txt'' = Some [''h1'']
    \<and> manifest (w_db w') ''p'' (cres_CommitID res) ''b.txt'' = Some [''h1'']"
proof -
  obtain res w' where run: "run_state (CreateCommit demo_push) demo = (Inr res, w')"
    using demo_push_run by blast
  note at = commit_snapshot [OF demo_ok demo_no_faults run]
  have "(case pushed (cr_Files demo_push) ''new.txt'' of Some e \<Rightarrow> ce_ChunkHashes e
      | None \<Rightarrow> inherited (w_db demo) demo_push ''new.txt'') = Some [''h1'']"
    by code_simp
  moreover have "(case pushed (cr_Files demo_push) ''b.txt'' of Some e \<Rightarrow> ce_ChunkHashes e
      | None \<Rightarrow> inherited (w_db demo) demo_push ''b.txt'') = Some [''h1'']"
    by code_simp
  moreover have "cr_ProjectID demo_push = ''p''" by (simp add: demo_push_def)
  ultimately show ?thesis using run at [of "''new.txt''"] at [of "''b.txt''"] by auto
qed

text \<open>C17: A push is refused as a conflict exactly when it names a branch whose head is not the
  parent the client states (no head counting as no parent), and then nothing has changed.\<close>

theorem commit_conflict_iff:
  assumes "no_faults w" "run_state (CreateCommit req) w = (r, w')"
  shows "(r = Inl ErrCommitConflict \<longleftrightarrow>
      cr_Ref req \<noteq> '''' \<and> head_of (w_db w) (cr_ProjectID req) (cr_Ref req) \<noteq> cr_ParentCommitID req)
    \<and> (r = Inl ErrCommitConflict \<longrightarrow> w_db w' = w_db w)"
  using CreateCommit_conflict_iff [OF assms] by blast

theorem commit_conflict_iff_witness:
  "fst (run_state (CreateCommit (demo_push\<lparr>cr_ParentCommitID := Some ''c0''\<rparr>)) demo) = Inl ErrCommitConflict"
proof -
  let ?req = "demo_push\<lparr>cr_ParentCommitID := Some ''c0''\<rparr>"
  obtain r w' where run: "run_state (CreateCommit ?req) demo = (r, w')" by fastforce
  have "head_of (w_db demo) ''p'' ''main'' = Some ''c1''" by code_simp
  then show ?thesis using commit_conflict_iff [OF demo_no_faults run] run by (simp add: demo_push_def)
qed

text \<open>C10: A successful push advances the branch it names from the parent it names to the new commit
  and moves no other ref; it adds exactly one commit, with a new identifier.\<close>

theorem commit_advances_ref:
  assumes "db_ok (w_db w)" "no_faults w" "run_state (CreateCommit req) w = (Inr res, w')" "cr_Ref req \<noteq> ''''"
  shows "head_of (w_db w) (cr_ProjectID req) (cr_Ref req) = cr_ParentCommitID req
    \<and> ref_target (w_db w') =
      (ref_target (w_db w))((cr_ProjectID req, cr_Ref req, ''branch'') \<mapsto> cres_CommitID res)
    \<and> (\<exists>now. commits (w_db w') = commits (w_db w) @ [new_commit req (cres_CommitID res) now])
    \<and> cres_CommitID res \<notin> c_ID ` set (commits (w_db w))"
  using wp_run [OF CreateCommit_spec [OF assms(1)] assms(3)] assms(2,4) by (auto simp: commit_post_def)

theorem commit_advances_ref_witness:
  "\<exists>res w'. run_state (CreateCommit demo_push) demo = (Inr res, w')
    \<and> head_of (w_db w') ''p'' ''main'' = Some (cres_CommitID res)"
proof -
  obtain res w' where run: "run_state (CreateCommit demo_push) demo = (Inr res, w')"
    using demo_push_run by blast
  have "cr_Ref demo_push \<noteq> ''''" by (simp add: demo_push_def)
  from commit_advances_ref [OF demo_ok demo_no_faults run this] run show ?thesis
    by (auto simp: head_of_ref_target demo_push_def)
qed

text \<open>C14: However the store fails, a push keeps the database consistent and only appends: the commits,
  files and versions that were there are there unchanged, with the snapshots of the old commits;
  and a push that reports an error has moved no ref.\<close>

theorem commit_failure_safe:
  assumes "db_ok (w_db w)" "run_state (CreateCommit req) w = (r, w')"
  shows "db_ok (w_db w') \<and> history_frame (w_db w) (w_db w')
    \<and> (isl r \<longrightarrow> ref_target (w_db w') = ref_target (w_db w))"
  using wp_run [OF CreateCommit_spec [OF assms(1)] assms(2)] by (auto simp: commit_post_def isl_def)

theorem commit_failure_safe_witness:
  "ref_target (w_db (snd (run_state (CreateCommit demo_push) (demo\<lparr>w_fault := \<lambda>n. n = 9\<rparr>)))) = ref_target demo_db"
proof -
  let ?w = "demo\<lparr>w_fault := \<lambda>n. n = 9\<rparr>"
  obtain r w' where run: "run_state (CreateCommit demo_push) ?w = (r, w')" by fastforce
  have "isl (fst (run_state (CreateCommit demo_push) ?w))" by code_simp
  moreover have "db_ok (w_db ?w)" using demo_ok by simp
  ultimately show ?thesis using commit_failure_safe [OF _ run] run by (simp add: demo_def)
qed

text \<open>A successful push adds one to the reference count of every chunk that its files list,
  once however often the chunk is listed, and changes no other count.\<close>

theorem commit_counts_chunks:
  assumes "db_ok (w_db w)" "run_state (CreateCommit req) w = (Inr res, w')"
  shows "ref_count (w_db w') h =
    map_option (\<lambda>k. if h \<in> set (pushed_hashes req) then k + 1 else k) (ref_count (w_db w) h)"
  using wp_run [OF CreateCommit_spec [OF assms(1)] assms(2)] by (simp add: commit_post_def)

theorem commit_counts_chunks_witness:
  "\<exists>res w'. run_state (CreateCommit demo_push) demo = (Inr res, w') \<and> ref_count (w_db w') ''h1'' = Some 4"
proof -
  obtain res w' where run: "run_state (CreateCommit demo_push) demo = (Inr res, w')"
    using demo_push_run by blast
  have "map_option (\<lambda>k. if ''h1'' \<in> set (pushed_hashes demo_push) then k + 1 else k)
      (ref_count (w_db demo) ''h1'') = Some 4"
    by code_simp
  with commit_counts_chunks [OF demo_ok run, of "''h1''"] run show ?thesis by auto
qed

text \<open>C18: A push succeeds when it can: the store works, the project, the author and the parent exist,
  the parent is the head of the branch, the ref name fits its column, every file has a manifest, no counter is
  at the end of its column, and the identifiers drawn are new.\<close>

theorem commit_succeeds:
  assumes "db_ok (w_db w)" "admissible (w_db w) req"
    and "fresh_for (all_ids (w_db w)) (10 + 5 * length (cr_Files req)) w"
  shows "\<exists>res w'. run_state (CreateCommit req) w = (Inr res, w')"
proof -
  from CreateCommit_live [OF assms] have "\<not> isl (fst (run_state (CreateCommit req) w))" by (simp add: wp_iff)
  then show ?thesis by (rule not_isl_run)
qed

lemma demo_admissible: "admissible (w_db demo) demo_push"
  by (simp add: admissible_def count_room_def demo_def demo_db_def demo_push_def head_of_def r_key_def
    demo_user_def demo_ref_def demo_commit_def)

lemma demo_fresh: "fresh_for (all_ids (w_db demo)) 20 demo"
proof -
  have "distinct (map (uuid_at demo) [0..<20])" by code_simp
  then have "inj_on (uuid_at demo) {0..<20}" by (simp add: distinct_map)
  moreover have "list_all (\<lambda>i. i \<notin> set (map c_ID (commits demo_db) @ map r_ID (refs demo_db) @ map f_ID (files demo_db)
      @ map fv_ID (file_versions demo_db))) (map (uuid_at demo) [0..<20])"
    by code_simp
  then have "\<forall>n \<in> {0..<20}. uuid_at demo n \<notin> all_ids (w_db demo)"
    unfolding list_all_iff by (auto simp: all_ids_def demo_def)
  ultimately show ?thesis by (simp add: fresh_for_def demo_no_faults) (simp add: demo_def)
qed

theorem commit_succeeds_witness:
  "\<exists>res w'. run_state (CreateCommit demo_push) demo = (Inr res, w')"
proof (rule commit_succeeds [OF demo_ok demo_admissible])
  have "10 + 5 * length (cr_Files demo_push) = 20" by (simp add: demo_push_def)
  with demo_fresh show "fresh_for (all_ids (w_db demo)) (10 + 5 * length (cr_Files demo_push)) demo" by simp
qed

section \<open>Two pushes\<close>

text \<open>C9: Of two pushes to one branch that state the same parent, the second loses when they are
  handled one after the other: it is refused as a conflict and changes nothing.\<close>

theorem commit_no_lost_update:
  assumes "db_ok (w_db w)" "no_faults w" "run_state (CreateCommit r1) w = (Inr res, w1)" "cr_Ref r1 \<noteq> ''''"
    and "cr_ProjectID r2 = cr_ProjectID r1" "cr_Ref r2 = cr_Ref r1" "cr_ParentCommitID r2 = cr_ParentCommitID r1"
    and "run_state (CreateCommit r2) w1 = (r, w2)"
  shows "r = Inl ErrCommitConflict \<and> w_db w2 = w_db w1"
proof -
  have post: "commit_post r1 w (Inr res) w1"
      "head_of (w_db w) (cr_ProjectID r1) (cr_Ref r1) = cr_ParentCommitID r1"
    using wp_run [OF CreateCommit_spec [OF assms(1)] assms(3)] assms(2,4) by auto
  then have "same_env w w1" by (simp add: commit_post_def)
  then have "no_faults w1" using assms(2) by (simp add: same_env_no_faults)
  have "head_of (w_db w1) (cr_ProjectID r1) (cr_Ref r1) = Some (cres_CommitID res)"
    using post(1) assms(4) by (simp add: commit_post_def head_of_ref_target)
  moreover have "cr_ParentCommitID r1 \<noteq> Some (cres_CommitID res)"
    using post head_is_commit [of "w_db w" "cr_ProjectID r1" "cr_Ref r1" "cres_CommitID res"] assms(1)
    by (auto simp: commit_post_def db_ok_def)
  ultimately show ?thesis
    using CreateCommit_conflict_iff [OF \<open>no_faults w1\<close> assms(8)] assms(4-7) by auto
qed

theorem commit_no_lost_update_witness:
  "\<exists>res w1. run_state (CreateCommit demo_push) demo = (Inr res, w1)
    \<and> fst (run_state (CreateCommit (demo_push\<lparr>cr_AuthorID := ''alice''\<rparr>)) w1) = Inl ErrCommitConflict"
proof -
  obtain res w1 where run: "run_state (CreateCommit demo_push) demo = (Inr res, w1)"
    using demo_push_run by blast
  obtain r w2 where run2: "run_state (CreateCommit (demo_push\<lparr>cr_AuthorID := ''alice''\<rparr>)) w1 = (r, w2)"
    by fastforce
  have "cr_Ref demo_push \<noteq> ''''" by (simp add: demo_push_def)
  from commit_no_lost_update [OF demo_ok demo_no_faults run this _ _ _ run2] run run2
  show ?thesis by simp
qed



text \<open>The parent check is open to a store error: when the head of the branch cannot be read, a push
  that states no parent is accepted and replaces the branch by a commit without history.\<close>

theorem commit_check_fails_open:
  "case run_state (CreateCommit (demo_push\<lparr>cr_ParentCommitID := None\<rparr>)) (demo\<lparr>w_fault := \<lambda>n. n = 0\<rparr>) of
     (Inr res, w') \<Rightarrow> head_of demo_db ''p'' ''main'' = Some ''c1''
       \<and> head_of (w_db w') ''p'' ''main'' = Some (cres_CommitID res)
       \<and> \<not> sql_is_ancestor ''c1'' (cres_CommitID res) (w_db w')
   | _ \<Rightarrow> False"
  by code_simp

section \<open>Committed content\<close>

text \<open>Committed content does not change: over any run of the server, whatever the requests and
  however the stores fail, every commit stays with its parents, author and message, and the
  manifest it has for every path stays the same.\<close>

theorem committed_content_immutable:
  assumes "system_ok w" "server_run maxSize w evs w'" "c \<in> set (commits (w_db w))"
  shows "c \<in> set (commits (w_db w')) \<and> manifest (w_db w') p (c_ID c) path = manifest (w_db w) p (c_ID c) path"
proof -
  have ok: "db_ok (w_db w)" "db_ok (w_db w')" and frame: "history_frame (w_db w) (w_db w')"
    using assms(1) system_ok_run [OF assms(2,1)] by (simp_all add: system_ok_def)
  have "c \<in> set (commits (w_db w'))" using frame assms(3) by (auto simp: history_frame_def)
  with history_frame_manifest [OF ok frame assms(3)] show ?thesis by blast
qed

theorem committed_content_immutable_witness:
  "\<exists>w'. server_run 0 demo_bare demo_events w' \<and> demo_commit ''c1'' (Some ''c0'') 2 \<in> set (commits (w_db w'))
    \<and> manifest (w_db w') ''p'' ''c1'' ''a.txt'' = Some [''h1'']"
proof -
  have c: "demo_commit ''c1'' (Some ''c0'') 2 \<in> set (commits (w_db demo_bare))"
    by (simp add: demo_bare_def demo_def demo_db_def)
  have "manifest (w_db demo_bare) ''p'' ''c1'' ''a.txt'' = Some [''h1'']" by code_simp
  with committed_content_immutable [OF demo_bare_ok demo_server_run c, of "''p''" "''a.txt''"] demo_server_run
  show ?thesis by (auto simp: demo_commit_def)
qed

section \<open>Comparing commits\<close>

definition chunks_written :: "db \<Rightarrow> string option \<Rightarrow> string set" where
  "chunks_written d c = \<Union> {set (slice (fv_ChunkHashes fv)) | fv. fv \<in> set (file_versions d) \<and> Some (fv_CommitID fv) = c}"

definition needed_chunks :: "DiffResult \<Rightarrow> string set" where
  "needed_chunks res = \<Union> (set ` df_NeededChunks ` set (dr_ChangedFiles res))"

lemma chunks_written_Some:
  "chunks_written d (Some c) = (\<Union>fv \<in> set (sql_versions_by_commit c d). set (slice (fv_ChunkHashes fv)))"
  by (auto simp: chunks_written_def sql_versions_by_commit_def)

lemma chunks_written_None: "chunks_written d None = {}"
  by (auto simp: chunks_written_def)

lemma set_map_filter: "set (List.map_filter f xs) = {y. \<exists>x \<in> set xs. f x = Some y}"
  by (induction xs) (auto simp: map_filter_simps split: option.splits)

lemma needed_chunks_diff_of:
  "needed_chunks (diff_of fresh fromVersions toVersions) =
    (\<Union>fv \<in> set toVersions. set (slice (fv_ChunkHashes fv))) - set (have_chunks fromVersions)"
proof -
  have "h \<in> needed_chunks (diff_of fresh fromVersions toVersions) \<longleftrightarrow>
      (\<exists>fv \<in> set toVersions. \<exists>e. diff_entry fresh (have_chunks fromVersions) fv = Some e \<and> h \<in> set (df_NeededChunks e))" for h
    by (auto simp: needed_chunks_def diff_of_def set_map_filter)
  moreover have "(\<exists>e. diff_entry fresh (have_chunks fromVersions) fv = Some e \<and> h \<in> set (df_NeededChunks e))
      \<longleftrightarrow> h \<in> set (slice (fv_ChunkHashes fv)) - set (have_chunks fromVersions)" for fv h
    by (auto simp: diff_entry_def Let_def filter_empty_conv)
  ultimately show ?thesis by auto
qed

lemma ComputeDiff_run:
  assumes "no_faults w" "run_state (ComputeDiff from to) w = (r, w')"
  shows "r = Inr (case from of
      None \<Rightarrow> diff_of True [] (sql_versions_by_commit to (w_db w))
    | Some c \<Rightarrow> diff_of False (sql_versions_by_commit c (w_db w)) (sql_versions_by_commit to (w_db w)))
    \<and> w_db w' = w_db w"
proof -
  have "wp (ComputeDiff from to) (\<lambda>r w'. r = Inr (case from of
      None \<Rightarrow> diff_of True [] (sql_versions_by_commit to (w_db w))
    | Some c \<Rightarrow> diff_of False (sql_versions_by_commit c (w_db w)) (sql_versions_by_commit to (w_db w)))
    \<and> w_db w' = w_db w) w"
    using assms(1) by (cases "from") (simp_all add: ComputeDiff_def wp_simps no_faults_def)
  then show ?thesis using assms(2) by (rule wp_run)
qed

text \<open>C34: A diff asks for exactly the chunks that are missing: the chunks of the versions the target
  commit wrote, without those of the versions the source commit wrote.\<close>

theorem diff_needs_exactly_missing:
  assumes "no_faults w" "run_state (ComputeDiff from to) w = (Inr res, w')"
  shows "needed_chunks res = chunks_written (w_db w) (Some to) - chunks_written (w_db w) from"
proof -
  have have_set: "set (have_chunks vs) = (\<Union>fv \<in> set vs. set (slice (fv_ChunkHashes fv)))" for vs
    by (simp add: have_chunks_def)
  show ?thesis
    using ComputeDiff_run [OF assms]
    by (cases "from") (auto simp: needed_chunks_diff_of chunks_written_Some chunks_written_None have_set)
qed

lemma ComputeDiff_returns: "no_faults w \<Longrightarrow> \<exists>res w'. run_state (ComputeDiff from to) w = (Inr res, w')"
  using ComputeDiff_run [of w "from" to] by (metis surj_pair)

theorem diff_needs_exactly_missing_witness:
  "\<exists>res w'. run_state (ComputeDiff None ''c1'') demo = (Inr res, w') \<and> needed_chunks res = {''h1''}"
proof -
  obtain res w' where run: "run_state (ComputeDiff None ''c1'') demo = (Inr res, w')"
    using ComputeDiff_returns [OF demo_no_faults] by blast
  have "chunks_written (w_db demo) (Some ''c1'') - chunks_written (w_db demo) None = {''h1''}"
    by (simp add: chunks_written_Some chunks_written_None sql_versions_by_commit_def demo_def demo_db_def demo_version_def)
  with diff_needs_exactly_missing [OF demo_no_faults run] run show ?thesis by auto
qed

text \<open>A diff from a source commit does not report a file whose chunks the source already has in
  another order or number: when the target wrote nothing but known chunks, the diff is empty even
  if the manifests differ.\<close>

theorem diff_ignores_rearranged:
  assumes "no_faults w" "run_state (ComputeDiff (Some c) to) w = (Inr res, w')"
    and "chunks_written (w_db w) (Some to) \<subseteq> chunks_written (w_db w) (Some c)"
  shows "dr_ChangedFiles res = []"
proof -
  let ?from = "sql_versions_by_commit c (w_db w)"
  have "diff_entry False (have_chunks ?from) fv = None" if "fv \<in> set (sql_versions_by_commit to (w_db w))" for fv
  proof -
    have "set (slice (fv_ChunkHashes fv)) \<subseteq> chunks_written (w_db w) (Some to)"
      using that by (auto simp: chunks_written_def sql_versions_by_commit_def)
    also have "\<dots> \<subseteq> set (have_chunks ?from)"
      using assms(3) by (auto simp: chunks_written_def sql_versions_by_commit_def have_chunks_def)
    finally show ?thesis by (auto simp: diff_entry_def Let_def filter_empty_conv)
  qed
  then have "set (List.map_filter (diff_entry False (have_chunks ?from)) (sql_versions_by_commit to (w_db w))) = {}"
    by (auto simp: set_map_filter)
  with ComputeDiff_run [OF assms(1,2)] show ?thesis by (simp add: diff_of_def)
qed

text \<open>A version of \<open>a.txt\<close> whose content is twice the content it had in the first commit.\<close>

definition demo_doubled :: world where
  "demo_doubled = demo\<lparr>w_db := demo_db\<lparr>file_versions := [demo_version ''a0'' ''fa'' ''c0'' ''h1'',
     (demo_version ''a1'' ''fa'' ''c1'' ''h1'')\<lparr>fv_ChunkHashes := Some [''h1'', ''h1'']\<rparr>]\<rparr>\<rparr>"

theorem diff_ignores_rearranged_witness:
  "\<exists>res w'. run_state (ComputeDiff (Some ''c0'') ''c1'') demo_doubled = (Inr res, w') \<and> dr_ChangedFiles res = []
    \<and> manifest (w_db demo_doubled) ''p'' ''c0'' ''a.txt'' \<noteq> manifest (w_db demo_doubled) ''p'' ''c1'' ''a.txt''"
proof -
  have run_ok: "no_faults demo_doubled" using demo_no_faults by (simp add: demo_doubled_def no_faults_def)
  then obtain res w' where run: "run_state (ComputeDiff (Some ''c0'') ''c1'') demo_doubled = (Inr res, w')"
    using ComputeDiff_returns by blast
  have "chunks_written (w_db demo_doubled) (Some ''c1'') \<subseteq> chunks_written (w_db demo_doubled) (Some ''c0'')"
    by (simp add: chunks_written_Some sql_versions_by_commit_def demo_doubled_def demo_def demo_db_def demo_version_def)
  from diff_ignores_rearranged [OF run_ok run this] have "dr_ChangedFiles res = []" .
  moreover have "manifest (w_db demo_doubled) ''p'' ''c0'' ''a.txt'' \<noteq> manifest (w_db demo_doubled) ''p'' ''c1'' ''a.txt''"
    by code_simp
  ultimately show ?thesis using run by blast
qed

text \<open>The diff for a client that has nothing lists only the files that the target commit wrote: a file
  of the snapshot that the commit inherited is not in it.\<close>

theorem clone_misses_inherited:
  "case fst (run_state (ComputeDiff None ''c1'') demo) of
     Inr res \<Rightarrow> manifest (w_db demo) ''p'' ''c1'' ''b.txt'' = Some [''h1'']
       \<and> map df_Path (dr_ChangedFiles res) = [''fa'']
   | Inl _ \<Rightarrow> False"
  by code_simp

section \<open>Listing\<close>

lemma concat_pages: "length xs \<le> n * l \<Longrightarrow> concat (map (\<lambda>i. take l (drop (i * l) xs)) [0..<n]) = xs"
proof (induction n arbitrary: xs)
  case 0
  then show ?case by simp
next
  case (Suc n)
  have "concat (map (\<lambda>i. take l (drop (i * l) xs)) [0..<Suc n]) =
      take l xs @ concat (map (\<lambda>i. take l (drop (i * l) (drop l xs))) [0..<n])"
    by (simp add: upt_conv_Cons map_Suc_upt [symmetric] comp_def add.commute del: upt_Suc)
  also have "\<dots> = take l xs @ drop l xs" using Suc.IH [of "drop l xs"] Suc.prems by simp
  finally show ?case by simp
qed

definition commit_page :: "string \<Rightarrow> int \<Rightarrow> int \<Rightarrow> world \<Rightarrow> Commit list" where
  "commit_page p limit offset w = (case fst (run_state (VersionService_ListCommits p limit offset) w) of
     Inr cs \<Rightarrow> cs | Inl _ \<Rightarrow> [])"

text \<open>Paging through the commits of a project is complete: the pages with a limit of at most 200
  are, one after the other, every commit of the project exactly once, newest first; no page is
  longer than 200, whatever limit is asked for.\<close>

theorem commit_pages_complete:
  assumes "no_faults w" "1 \<le> l" "l \<le> 200"
    and "length (filter (\<lambda>c. c_ProjectID c = p) (commits (w_db w))) \<le> n * l"
  shows "concat (map (\<lambda>i. commit_page p (int l) (int (i * l)) w) [0..<n]) =
      sort_key (\<lambda>c. - c_CreatedAt c) (filter (\<lambda>c. c_ProjectID c = p) (commits (w_db w)))
    \<and> length (commit_page p any offset w) \<le> 200"
proof -
  let ?all = "sort_key (\<lambda>c. - c_CreatedAt c) (filter (\<lambda>c. c_ProjectID c = p) (commits (w_db w)))"
  have page: "commit_page p limit offset w = (if offset < 0 then [] else take (nat (clamp_limit limit)) (drop (nat offset) ?all))"
    for limit offset
    using assms(1) clamp_limit_bounds [of limit]
    by (simp add: commit_page_def VersionService_ListCommits_def CommitStore_ListByProject_def db_query_def no_faults_def)
  have "commit_page p (int l) (int (i * l)) w = take l (drop (i * l) ?all)" for i
    using assms(2,3) by (simp add: page clamp_limit_id del: of_nat_mult)
  moreover have "concat (map (\<lambda>i. take l (drop (i * l) ?all)) [0..<n]) = ?all"
    using assms(4) by (intro concat_pages) simp
  moreover have "length (commit_page p any offset w) \<le> 200"
    using clamp_limit_bounds [of any] by (auto simp: page intro: min.coboundedI2)
  ultimately show ?thesis by simp
qed

theorem commit_pages_complete_witness:
  "map c_ID (concat (map (\<lambda>i. commit_page ''p'' 2 (int (i * 2)) demo) [0..<2])) = [''c2'', ''c1'', ''c0'']"
proof -
  have len: "length (filter (\<lambda>c. c_ProjectID c = ''p'') (commits (w_db demo))) \<le> 2 * 2" by code_simp
  have "map c_ID (sort_key (\<lambda>c. - c_CreatedAt c) (filter (\<lambda>c. c_ProjectID c = ''p'') (commits (w_db demo)))) =
      [''c2'', ''c1'', ''c0'']"
    by code_simp
  then show ?thesis
    using commit_pages_complete [of demo 2 "''p''" 2, OF demo_no_faults _ _ len, of 0 0] by simp
qed

end
