(* ===== verification/Merge_Properties.thy ===== *)
theory Merge_Properties
  imports Demo
begin

text \<open>
  The properties of branches and merges (\<^verbatim>\<open>internal/service/merge.go\<close>,
  \<^verbatim>\<open>internal/handler/merge.go\<close> and the queries under \<^verbatim>\<open>internal/store/postgres/commit.go\<close>).
\<close>

section \<open>The history graph\<close>

text \<open>C31: The recursive query of IsAncestor decides reachability along parents: it returns that one
  commit is an ancestor of another exactly when following parents leads from the second to the first.\<close>

theorem is_ancestor_reaches:
  assumes "db_ok (w_db w)" "no_faults w" "b \<in> c_ID ` set (commits (w_db w))"
  shows "fst (run_state (CommitStore_IsAncestor a b) w) = Inr (reaches (w_db w) b a)"
  using assms sql_is_ancestor_iff [of "w_db w" a b]
  by (simp add: CommitStore_IsAncestor_def db_query_def no_faults_def reaches_def db_ok_def schema_okD)

theorem is_ancestor_reaches_witness: "reaches (w_db demo) ''c2'' ''c0'' \<and> \<not> reaches (w_db demo) ''c2'' ''c1''"
proof -
  have "''c2'' \<in> c_ID ` set (commits (w_db demo))" by (simp add: demo_def demo_db_def demo_commit_def)
  note at = is_ancestor_reaches [OF demo_ok demo_no_faults this]
  have "fst (run_state (CommitStore_IsAncestor ''c0'' ''c2'') demo) = Inr True" by code_simp
  moreover have "fst (run_state (CommitStore_IsAncestor ''c1'' ''c2'') demo) = Inr False" by code_simp
  ultimately show ?thesis using at [of "''c0''"] at [of "''c1''"] by simp
qed

lemma cte_walk_distinct:
  "distinct res \<Longrightarrow> distinct (cte_walk rows work res)"
proof (induction rows work res rule: cte_walk.induct)
  case (1 rows work res)
  let ?new = "cte_round rows work res"
  have "distinct (res @ ?new)" using 1(2) by (auto simp: cte_round_def)
  with 1 show ?case by (subst cte_walk.simps) (simp add: Let_def)
qed

text \<open>C25: The recursive query over the parents ends, whatever the table holds: even if the merge parents, which have no foreign
  key, form cycles or point nowhere, its result lists no commit twice, is no longer than the table,
  contains what it starts from, and is complete: one more round finds nothing new.\<close>

theorem ancestor_query_ends:
  "distinct (ancestors_cte rows a) \<and> length (ancestors_cte rows a) \<le> length rows
    \<and> cte_round rows (ancestors_cte rows a) (ancestors_cte rows a) = []
    \<and> filter (\<lambda>c. c_ID c = a \<and> c \<notin> set (ancestors_cte rows a)) rows = []"
proof (intro conjI)
  let ?seed = "remdups (filter (\<lambda>c. c_ID c = a) rows)"
  have walk: "ancestors_cte rows a = cte_walk rows ?seed ?seed" by (simp add: ancestors_cte_def Let_def)
  show dist: "distinct (ancestors_cte rows a)" unfolding walk by (rule cte_walk_distinct) simp
  have "length (ancestors_cte rows a) = card (set (ancestors_cte rows a))" using dist by (simp add: distinct_card)
  also have "\<dots> \<le> card (set rows)" by (intro card_mono ancestors_cte_rows) simp
  also have "\<dots> \<le> length rows" by (rule card_length)
  finally show "length (ancestors_cte rows a) \<le> length rows" .
  have "c \<in> set (ancestors_cte rows a)"
    if "a' \<in> set (ancestors_cte rows a)" "c \<in> set rows" "c_ID c \<in> set (c_ParentIDs a')" for a' c
    unfolding walk by (rule cte_walk_closed) (use that walk in auto)
  then have "set (cte_round rows (ancestors_cte rows a) (ancestors_cte rows a)) = {}" unfolding set_cte_round by blast
  then show "cte_round rows (ancestors_cte rows a) (ancestors_cte rows a) = []" by simp
  show "filter (\<lambda>c. c_ID c = a \<and> c \<notin> set (ancestors_cte rows a)) rows = []"
    using cte_walk_extends [of ?seed rows ?seed] by (auto simp: walk filter_empty_conv)
qed

text \<open>Clocks under which every commit is younger than its parents.\<close>

definition aging :: "db \<Rightarrow> bool" where
  "aging d \<longleftrightarrow> (\<forall>c \<in> set (commits d). \<forall>q \<in> set (commits d). c_ID q \<in> set (c_ParentIDs c) \<longrightarrow> c_CreatedAt q < c_CreatedAt c)"

lemma aging_reaches:
  assumes "distinct (map c_ID (commits d))" "aging d" "(c_ID c, y) \<in> (parent_of (commits d))\<^sup>+"
    and "c \<in> set (commits d)" "q \<in> set (commits d)" "c_ID q = y"
  shows "c_CreatedAt q < c_CreatedAt c"
  using assms(3,5,6)
proof (induction arbitrary: q rule: trancl_induct)
  case (base y)
  then obtain a b where "a \<in> set (commits d)" "b \<in> set (commits d)" "c_ID a = c_ID c" "c_ID b = y" "y \<in> set (c_ParentIDs a)"
    by (auto simp: parent_of_def)
  moreover from this base assms(1,4) have "a = c" "b = q" by (auto simp: distinct_map inj_on_def)
  ultimately show ?case using assms(2) by (auto simp: aging_def)
next
  case (step y z)
  then obtain a b where ab: "a \<in> set (commits d)" "b \<in> set (commits d)" "c_ID a = y" "c_ID b = z" "z \<in> set (c_ParentIDs a)"
    by (auto simp: parent_of_def)
  with step.prems assms(1) have "b = q" by (auto simp: distinct_map inj_on_def)
  with ab assms(2) have "c_CreatedAt q < c_CreatedAt a" by (auto simp: aging_def)
  with step.IH [of a] ab show ?case by simp
qed

text \<open>C16: The query for the merge base finds a best common ancestor when every commit is younger than
  its parents: the result is an ancestor of both commits, no other common ancestor descends
  from it, and there is no result exactly when the two have no common ancestor.\<close>

theorem merge_base_best:
  assumes "db_ok d" "aging d" "a \<in> c_ID ` set (commits d)" "b \<in> c_ID ` set (commits d)"
  shows "(case sql_merge_base a b d of
      None \<Rightarrow> \<not> (\<exists>y. reaches d a y \<and> reaches d b y)
    | Some m \<Rightarrow> reaches d a m \<and> reaches d b m
        \<and> (\<forall>y. reaches d a y \<and> reaches d b y \<and> reaches d y m \<longrightarrow> y = m))"
proof -
  have dist: "distinct (map c_ID (commits d))" using assms(1) by (simp add: db_ok_def schema_okD)
  have common: "common_ancestor (commits d) a b y \<longleftrightarrow> reaches d a y \<and> reaches d b y" for y
    using assms(3,4) by (simp add: common_ancestor_def reaches_def)
  show ?thesis
  proof (cases "sql_merge_base a b d")
    case None
    then show ?thesis using sql_merge_base_None [OF dist, of a b] by (simp add: common)
  next
    case (Some m)
    then obtain c where c: "c \<in> set (commits d)" "c_ID c = m" "common_ancestor (commits d) a b m"
      and latest: "\<forall>c' \<in> set (commits d). common_ancestor (commits d) a b (c_ID c') \<longrightarrow> c_CreatedAt c' \<le> c_CreatedAt c"
      using sql_merge_base_Some [OF dist] by blast
    have "y = m" if y: "reaches d a y" "reaches d b y" "reaches d y m" for y
    proof (rule ccontr)
      assume "y \<noteq> m"
      with y(3) have path: "(y, m) \<in> (parent_of (commits d))\<^sup>+" by (simp add: reaches_def rtrancl_eq_or_trancl)
      from tranclD [OF this] obtain q where q: "q \<in> set (commits d)" "c_ID q = y" by (auto simp: parent_of_def)
      have "c_CreatedAt c < c_CreatedAt q" using aging_reaches [OF dist assms(2), of q m c] path q c by simp
      moreover have "c_CreatedAt q \<le> c_CreatedAt c" using latest q y common by blast
      ultimately show False by simp
    qed
    with Some c common show ?thesis by simp
  qed
qed

theorem merge_base_best_witness: "reaches demo_db ''c1'' ''c0'' \<and> reaches demo_db ''c2'' ''c0''"
proof -
  have "db_ok demo_db" using demo_ok by (simp add: demo_def)
  moreover have "aging demo_db" by (simp add: aging_def demo_db_def demo_commit_def)
  moreover have "''c1'' \<in> c_ID ` set (commits demo_db)" "''c2'' \<in> c_ID ` set (commits demo_db)"
    by (simp_all add: demo_db_def demo_commit_def)
  moreover have "sql_merge_base ''c1'' ''c2'' demo_db = Some ''c0''" by code_simp
  ultimately show ?thesis using merge_base_best [of demo_db "''c1''" "''c2''"] by simp
qed

section \<open>Analysis\<close>

text \<open>The analysis fails exactly for a reason that \<open>analyze_error\<close> lists.\<close>

lemma Analyze_errors:
  assumes "db_ok (w_db w)" "no_faults w" "run_state (Analyze p src tgt) w = (r, w')"
  shows "(\<forall>e. r = Inl e \<longrightarrow> analyze_error (w_db w) p src tgt e)
    \<and> ((\<exists>e. analyze_error (w_db w) p src tgt e) \<longrightarrow> isl r) \<and> w_db w' = w_db w"
proof -
  have sch: "distinct (map c_ID (commits (w_db w)))" using assms(1) by (simp add: db_ok_def schema_okD)
  have base: "\<exists>y. reaches (w_db w) sh y \<and> reaches (w_db w) th y" if "sql_merge_base sh th (w_db w) = Some b" for sh th b
    using sql_merge_base_Some [OF sch that] by (auto simp: common_ancestor_def reaches_def)
  have refl: "reaches (w_db w) x x" for x by (simp add: reaches_def)
  have "wp (Analyze p src tgt) (\<lambda>r w'. (\<forall>e. r = Inl e \<longrightarrow> analyze_error (w_db w) p src tgt e)
      \<and> ((\<exists>e. analyze_error (w_db w) p src tgt e) \<longrightarrow> isl r) \<and> w_db w' = w_db w) w"
  proof (rule wp_Analyze [OF assms(1)], goal_cases)
    case (1 e w')
    then show ?case using assms(2) by simp
  next
    case (2 sh th w')
    then show ?case using refl [of th] by (auto simp: analyze_error_def)
  next
    case (3 sh th b an w')
    then show ?case using base [of sh th b] by (auto simp: analyze_error_def)
  qed
  then show ?thesis using assms(3) by (rule wp_run)
qed

text \<open>C30: With a working store the analysis of two branches answers exactly: a fast-forward when the
  head of the source reaches the head of the target, otherwise the three snapshots compared file by
  file against the merge base: the conflicts are the files that both sides changed to different versions,
  the source and target lists are the files only that side changed and still has, and the rest is counted.\<close>

theorem analysis_exact:
  assumes "db_ok (w_db w)" "no_faults w" "run_state (Analyze p src tgt) w = (Inr an, w')"
  shows "\<exists>sh th. head_of (w_db w) p src = Some sh \<and> head_of (w_db w) p tgt = Some th \<and>
    (if reaches (w_db w) sh th then ma_Type an = MergeTypeFastForward \<and> ma_MergeBaseID an = th
     else \<exists>base. sql_merge_base sh th (w_db w) = Some base \<and> analysis_ok (w_db w) base sh th an)"
proof -
  have "wp (Analyze p src tgt) (\<lambda>r w'. \<forall>an. r = Inr an \<longrightarrow>
      (\<exists>sh th. head_of (w_db w) p src = Some sh \<and> head_of (w_db w) p tgt = Some th \<and>
        (if reaches (w_db w) sh th then ma_Type an = MergeTypeFastForward \<and> ma_MergeBaseID an = th
         else \<exists>base. sql_merge_base sh th (w_db w) = Some base \<and> analysis_ok (w_db w) base sh th an))) w"
    by (rule wp_Analyze [OF assms(1)]) (auto simp: new_analysis_def)
  from wp_run [OF this assms(3)] show ?thesis by simp
qed

lemma demo_heads: "head_of (w_db demo) ''p'' ''main'' = Some ''c1''" "head_of (w_db demo) ''p'' ''dev'' = Some ''c2''"
  by code_simp+

lemma demo_apart: "\<not> reaches (w_db demo) ''c2'' ''c1''"
proof -
  have "\<not> sql_is_ancestor ''c1'' ''c2'' (w_db demo)" by code_simp
  moreover have "''c2'' \<in> c_ID ` set (commits (w_db demo))" by (simp add: demo_def demo_db_def demo_commit_def)
  ultimately show ?thesis
    using demo_ok sql_is_ancestor_iff [of "w_db demo" "''c1''" "''c2''"]
    by (simp add: reaches_def db_ok_def schema_okD)
qed

theorem analysis_exact_witness:
  "\<exists>an w'. run_state (Analyze ''p'' ''dev'' ''main'') demo = (Inr an, w') \<and> ma_Type an = MergeTypeConflict"
proof -
  obtain r w' where r: "run_state (Analyze ''p'' ''dev'' ''main'') demo = (r, w')" by fastforce
  have base: "sql_merge_base ''c2'' ''c1'' (w_db demo) = Some ''c0''" by code_simp
  have "distinct (map c_ID (commits (w_db demo)))" using demo_ok by (simp add: db_ok_def schema_okD)
  from sql_merge_base_Some [OF this base] have "\<not> analyze_error (w_db demo) ''p'' ''dev'' ''main'' e" for e
    by (auto simp: analyze_error_def demo_heads reaches_def common_ancestor_def)
  with Analyze_errors [OF demo_ok demo_no_faults r] obtain an where "r = Inr an" by (cases r) auto
  with r have run: "run_state (Analyze ''p'' ''dev'' ''main'') demo = (Inr an, w')" by simp
  have "analysis_ok (w_db demo) ''c0'' ''c2'' ''c1'' an"
    using analysis_exact [OF demo_ok demo_no_faults run] demo_heads demo_apart base by auto
  moreover have "differs (snap (w_db demo) ''c0'') (snap (w_db demo) ''c2'') (snap (w_db demo) ''c1'') ''fa''"
    by code_simp
  ultimately have "ma_Type an = MergeTypeConflict" by (auto simp: analysis_ok_def)
  with run show ?thesis by blast
qed

text \<open>With a working store an analysis fails exactly for a reason of its own: the two names are
  the same branch, a branch has no head (the source is named first), or the heads have no common
  ancestor; it never changes the database.\<close>

theorem analysis_errors:
  assumes "db_ok (w_db w)" "no_faults w" "run_state (Analyze p src tgt) w = (r, w')"
  shows "(\<forall>e. r = Inl e \<longrightarrow> analyze_error (w_db w) p src tgt e)
    \<and> ((\<exists>e. analyze_error (w_db w) p src tgt e) \<longrightarrow> isl r) \<and> w_db w' = w_db w"
  using Analyze_errors [OF assms] .

theorem analysis_errors_witness:
  "fst (run_state (Analyze ''p'' ''dev'' ''gone'') demo) = Inl (Wrap ''target branch'' ErrBranchNotFound)"
proof -
  obtain r w' where run: "run_state (Analyze ''p'' ''dev'' ''gone'') demo = (r, w')" by fastforce
  have "head_of (w_db demo) ''p'' ''gone'' = None" by code_simp
  then have err: "analyze_error (w_db demo) ''p'' ''dev'' ''gone'' e \<longleftrightarrow> e = Wrap ''target branch'' ErrBranchNotFound" for e
    using demo_heads by (simp add: analyze_error_def)
  show ?thesis
    using analysis_errors [OF demo_ok demo_no_faults run] run err by (cases r) auto
qed

text \<open>C32: The resolutions of a conflicting merge are accepted exactly when they answer every conflict
  once and nothing else, each with one of the three versions of its file.\<close>

theorem resolutions_accepted_iff:
  assumes "distinct (map mc_FileID (ma_Conflicts an))" "ma_Type an = MergeTypeConflict"
  shows "validate_resolutions an rs = None \<longleftrightarrow>
    distinct (map mr_FileID rs) \<and> mr_FileID ` set rs = mc_FileID ` set (ma_Conflicts an) \<and>
    (\<forall>c \<in> set (ma_Conflicts an). \<forall>r \<in> set rs. mr_FileID r = mc_FileID c \<longrightarrow>
      mr_FileVersionID r \<in> {mc_SourceFileVersionID c, mc_TargetFileVersionID c, mc_BaseFileVersionID c})"
  using validate_resolutions_None [OF assms(1)] assms(2) by simp

theorem resolutions_accepted_iff_witness:
  "validate_resolutions ((new_analysis MergeTypeConflict ''c0'' ''dev'' ''main'')\<lparr>ma_Conflicts :=
      [conflict_at demo_db ''c0'' ''c2'' ''c1'' ''fa'']\<rparr>) [\<lparr>mr_FileID = ''fb'', mr_FileVersionID = ''a2''\<rparr>] \<noteq> None"
proof -
  let ?an = "(new_analysis MergeTypeConflict ''c0'' ''dev'' ''main'')\<lparr>ma_Conflicts :=
      [conflict_at demo_db ''c0'' ''c2'' ''c1'' ''fa'']\<rparr>"
  have "distinct (map mc_FileID (ma_Conflicts ?an))" "ma_Type ?an = MergeTypeConflict"
    by (simp_all add: new_analysis_def)
  from resolutions_accepted_iff [OF this] show ?thesis by (simp add: conflict_at_def)
qed

section \<open>Executing a merge\<close>

text \<open>What a merge that returned a commit has done, however the store behaved.\<close>

lemma Execute_returned:
  assumes "db_ok (w_db w)" "run_state (Execute p src tgt u msg rs) w = (Some (Inr c), w')"
  shows "(\<exists>sh th. forwarding (w_db w) p src tgt sh th) \<or> merge_done (w_db w) p src tgt u msg rs (w_db w') c"
proof -
  have "wp (Execute p src tgt u msg rs) (\<lambda>r w'. \<forall>c. r = Some (Inr c) \<longrightarrow>
      (\<exists>sh th. forwarding (w_db w) p src tgt sh th) \<or> merge_done (w_db w) p src tgt u msg rs (w_db w') c) w"
    by (rule wp_Execute [OF assms(1)]) auto
  from wp_run [OF this assms(2)] show ?thesis by simp
qed

lemma Execute_merged:
  assumes "db_ok (w_db w)" "head_of (w_db w) p src = Some sh" "head_of (w_db w) p tgt = Some th"
    and "\<not> reaches (w_db w) sh th" "run_state (Execute p src tgt u msg rs) w = (Some (Inr c), w')"
  obtains base s t now where "sql_merge_base sh th (w_db w) = Some base" "r_CommitID s = sh" "r_CommitID t = th"
    "c_ID c \<notin> c_ID ` set (commits (w_db w))"
    "commits (w_db w') = commits (w_db w) @ [merge_row p src tgt u msg s t now (c_ID c)]"
    "c_ParentID c = Some (c_ID c)"
    "snap (w_db w') (c_ID c) = merged (snap (w_db w) base) (snap (w_db w) sh) (snap (w_db w) th) rs"
    "ref_target (w_db w') = (ref_target (w_db w))((p, tgt, ''branch'') \<mapsto> c_ID c)"
proof -
  have done_: "merge_done (w_db w) p src tgt u msg rs (w_db w') c"
    using Execute_returned [OF assms(1,5)] assms(2-4) by (auto simp: forwarding_def)
  then obtain sh' th' base an s t now where d:
      "merging (w_db w) p src tgt sh' th' base an" "r_CommitID s = sh'" "r_CommitID t = th'"
      "c_ID c \<notin> c_ID ` set (commits (w_db w))"
      "commits (w_db w') = commits (w_db w) @ [merge_row p src tgt u msg s t now (c_ID c)]"
      "c = (merge_row p src tgt u msg s t now (c_ID c))\<lparr>c_ParentID := Some (c_ID c)\<rparr>"
      "snap (w_db w') (c_ID c) = merged (snap (w_db w) base) (snap (w_db w) sh') (snap (w_db w) th') rs"
      "ref_target (w_db w') = (ref_target (w_db w))((p, tgt, ''branch'') \<mapsto> c_ID c)"
    unfolding merge_done_def by blast
  then have "sh' = sh" "th' = th" "sql_merge_base sh th (w_db w) = Some base"
    using assms(2,3) by (auto simp: merging_def)
  moreover have "c_ParentID c = Some (c_ID c)" by (subst d(6)) simp
  ultimately show thesis using that d by blast
qed

text \<open>A merge of two branches that have diverged adds exactly one commit, with the head of the
  target as its first and the head of the source as its second parent, and moves the target branch,
  and no other ref, to it.\<close>

theorem merge_commits_once:
  assumes "db_ok (w_db w)" "head_of (w_db w) p src = Some sh" "head_of (w_db w) p tgt = Some th"
    and "\<not> reaches (w_db w) sh th" "run_state (Execute p src tgt u msg rs) w = (Some (Inr c), w')"
  shows "(\<exists>m. commits (w_db w') = commits (w_db w) @ [m] \<and> c_ID m = c_ID c \<and> c_ID m \<notin> c_ID ` set (commits (w_db w))
      \<and> c_ProjectID m = p \<and> c_ParentIDs m = [th, sh] \<and> c_ParentID m = Some th \<and> c_AuthorID m = u)
    \<and> ref_target (w_db w') = (ref_target (w_db w))((p, tgt, ''branch'') \<mapsto> c_ID c)"
  using assms by (rule Execute_merged) (auto simp: merge_row_def)

text \<open>The merge of the branch \<open>dev\<close> into \<open>main\<close> of the example, taking the source for \<open>a.txt\<close>.\<close>

lemma demo_merge_result:
  "\<exists>c w'. run_state (Execute ''p'' ''dev'' ''main'' ''bob'' '''' [\<lparr>mr_FileID = ''fa'', mr_FileVersionID = ''a2''\<rparr>]) demo
    = (Some (Inr c), w')"
  using demo_merge_run by (simp add: demo_merge_def)

theorem merge_commits_once_witness:
  "\<exists>c w'. run_state (Execute ''p'' ''dev'' ''main'' ''bob'' '''' [\<lparr>mr_FileID = ''fa'', mr_FileVersionID = ''a2''\<rparr>]) demo
      = (Some (Inr c), w')
    \<and> map c_ParentIDs (commits (w_db w')) = [[], [''c0''], [''c0''], [''c1'', ''c2'']]"
proof -
  obtain c w' where run: "run_state (Execute ''p'' ''dev'' ''main'' ''bob'' ''''
      [\<lparr>mr_FileID = ''fa'', mr_FileVersionID = ''a2''\<rparr>]) demo = (Some (Inr c), w')"
    using demo_merge_result by blast
  have "map c_ParentIDs (commits (w_db demo)) = [[], [''c0''], [''c0'']]"
    by (simp add: demo_def demo_db_def demo_commit_def)
  with merge_commits_once [OF demo_ok demo_heads(2,1) demo_apart run] run show ?thesis by auto
qed

text \<open>The reference: the usual three-way merge of maps, for any choice at the conflicts.\<close>

definition merge3 :: "('f \<rightharpoonup> 'v) \<Rightarrow> ('f \<rightharpoonup> 'v) \<Rightarrow> ('f \<rightharpoonup> 'v) \<Rightarrow> ('f \<rightharpoonup> 'v) \<Rightarrow> 'f \<rightharpoonup> 'v" where
  "merge3 base source target choice f =
     (if source f = target f then source f
      else if target f = base f then source f
      else if source f = base f then target f
      else choice f)"

lemma merged_merge3:
  "merged b s t rs f = (if s f = None \<and> t f = b f then t f else merge3 b s t (resolved rs) f)"
  by (auto simp: merged_def merge3_def differs_def one_sided_def)

text \<open>C2: The snapshot of a merge commit is the three-way merge of the snapshots of the merge base, the
  source and the target, with the resolutions at the conflicts, in every case but one: a file that the
  source has deleted and the target has left alone is kept.\<close>

theorem merge_is_three_way:
  assumes "db_ok (w_db w)" "head_of (w_db w) p src = Some sh" "head_of (w_db w) p tgt = Some th"
    and "\<not> reaches (w_db w) sh th" "run_state (Execute p src tgt u msg rs) w = (Some (Inr c), w')"
  shows "\<exists>base. sql_merge_base sh th (w_db w) = Some base \<and> (\<forall>f. snap (w_db w') (c_ID c) f =
    (if snap (w_db w) sh f = None \<and> snap (w_db w) th f = snap (w_db w) base f then snap (w_db w) th f
     else merge3 (snap (w_db w) base) (snap (w_db w) sh) (snap (w_db w) th) (resolved rs) f))"
  using assms by (rule Execute_merged) (auto simp: merged_merge3)

theorem merge_is_three_way_witness:
  "\<exists>c w'. run_state (Execute ''p'' ''dev'' ''main'' ''bob'' '''' [\<lparr>mr_FileID = ''fa'', mr_FileVersionID = ''a2''\<rparr>]) demo
      = (Some (Inr c), w')
    \<and> snap (w_db w') (c_ID c) ''fa'' = Some ''a2'' \<and> snap (w_db w') (c_ID c) ''fb'' = Some ''b2''"
proof -
  let ?rs = "[\<lparr>mr_FileID = ''fa'', mr_FileVersionID = ''a2''\<rparr>]"
  obtain c w' where run: "run_state (Execute ''p'' ''dev'' ''main'' ''bob'' '''' ?rs) demo = (Some (Inr c), w')"
    using demo_merge_result by blast
  have base: "sql_merge_base ''c2'' ''c1'' (w_db demo) = Some ''c0''" by code_simp
  have "map (\<lambda>f. (snap (w_db demo) ''c2'' f, merge3 (snap (w_db demo) ''c0'') (snap (w_db demo) ''c2'')
      (snap (w_db demo) ''c1'') (resolved ?rs) f)) [''fa'', ''fb''] = [(Some ''a2'', Some ''a2''), (Some ''b2'', Some ''b2'')]"
    by code_simp
  with merge_is_three_way [OF demo_ok demo_heads(2,1) demo_apart run] base run show ?thesis by auto
qed

text \<open>C11: However the store fails, and whatever is asked for, a merge loses nothing: the database stays
  consistent, the history that was there is unchanged, no ref other than the target moves, and the
  new head of the target still reaches the old one.\<close>

theorem merge_loses_nothing:
  assumes "db_ok (w_db w)" "run_state (Execute p src tgt u msg rs) w = (r, w')"
  shows "db_ok (w_db w') \<and> history_frame (w_db w) (w_db w')
    \<and> (\<forall>k. k \<noteq> (p, tgt, ''branch'') \<longrightarrow> ref_target (w_db w') k = ref_target (w_db w) k)
    \<and> (\<forall>th. head_of (w_db w) p tgt = Some th \<longrightarrow>
        (\<exists>h. head_of (w_db w') p tgt = Some h \<and> reaches (w_db w') h th))"
    (is "?safe w'")
proof -
  have "wp (Execute p src tgt u msg rs) (\<lambda>_. ?safe) w"
  proof (rule wp_Execute [OF assms(1)], goal_cases)
    case (4 r w' rows sh th)
    have "history_frame (w_db w) (w_db w')" using 4(3) by (simp add: history_frame_def snap_def)
    moreover have "reaches (w_db w') sh th" "head_of (w_db w) p tgt = Some th"
      using 4(3,4) by (simp_all add: forwarding_def reaches_def)
    ultimately show ?case using 4(1,5) by (simp add: head_of_ref_target)
  next
    case (5 c w')
    then obtain sh th base an s t now where d: "merging (w_db w) p src tgt sh th base an" "r_CommitID t = th"
        "commits (w_db w') = commits (w_db w) @ [merge_row p src tgt u msg s t now (c_ID c)]"
        "ref_target (w_db w') = (ref_target (w_db w))((p, tgt, ''branch'') \<mapsto> c_ID c)"
      unfolding merge_done_def by blast
    have heads: "head_of (w_db w) p tgt = Some th" using d(1) by (simp add: merging_def)
    then have "th \<in> c_ID ` set (commits (w_db w))" using head_is_commit assms(1) by (auto simp: db_ok_def)
    then have "reaches (w_db w') (c_ID c) th" using d(2,3) by (intro reaches_merge_row [OF d(3)]) auto
    with 5 d(4) heads show ?case by (simp add: head_of_ref_target)
  qed (use assms(1) in \<open>auto simp: head_of_ref_target\<close>)
  then show ?thesis using assms(2) by (rule wp_run)
qed

theorem merge_loses_nothing_witness:
  "\<exists>h. head_of (w_db (snd (run_state (Execute ''p'' ''dev'' ''main'' ''bob'' '''' []) demo))) ''p'' ''main'' = Some h"
proof -
  obtain r w' where run: "run_state (Execute ''p'' ''dev'' ''main'' ''bob'' '''' []) demo = (r, w')" by fastforce
  show ?thesis using merge_loses_nothing [OF demo_ok run] demo_heads run by auto
qed

text \<open>C33: When the source already contains the target, a merge with a working store succeeds as a
  fast-forward: it answers with the head of the source, moves the target to it and makes no commit.\<close>

theorem merge_fast_forwards:
  assumes "db_ok (w_db w)" "no_faults w" "forwarding (w_db w) p src tgt sh th"
    and "run_state (Execute p src tgt u msg rs) w = (r, w')"
  shows "(\<exists>c \<in> set (commits (w_db w)). c_ID c = sh \<and> r = Some (Inr c)) \<and> commits (w_db w') = commits (w_db w)
    \<and> ref_target (w_db w') = (ref_target (w_db w))((p, tgt, ''branch'') \<mapsto> sh)"
proof -
  have only: "\<not> merging (w_db w) p src tgt sh' th' base an" "\<not> analyze_error (w_db w) p src tgt e"
      for sh' th' base an e
    using assms(3) reaches_refl [of "w_db w" th] by (auto simp: merging_def forwarding_def analyze_error_def)
  have "wp (Execute p src tgt u msg rs) (\<lambda>r w'. (\<exists>c \<in> set (commits (w_db w)). c_ID c = sh \<and> r = Some (Inr c))
      \<and> commits (w_db w') = commits (w_db w)
      \<and> ref_target (w_db w') = (ref_target (w_db w))((p, tgt, ''branch'') \<mapsto> sh)) w"
  proof (rule wp_Execute [OF assms(1)], goal_cases)
    case (4 r w' rows sh' th')
    then have "sh' = sh" using assms(3) by (simp add: forwarding_def)
    with 4 assms(2) show ?case by auto
  next
    case (5 c w')
    then show ?case using only by (auto simp: merge_done_def)
  qed (use only assms(2) in auto)
  then show ?thesis using assms(4) by (rule wp_run)
qed

lemma demo_forwarding: "forwarding (w_db demo) ''p'' ''main'' ''old'' ''c1'' ''c0''"
proof -
  have "sql_is_ancestor ''c0'' ''c1'' (w_db demo)" "head_of (w_db demo) ''p'' ''old'' = Some ''c0''" by code_simp+
  then show ?thesis
    using demo_ok demo_heads sql_is_ancestor_iff [of "w_db demo" "''c0''" "''c1''"]
    by (simp add: forwarding_def reaches_def db_ok_def schema_okD)
qed

theorem merge_fast_forwards_witness:
  "head_of (w_db (snd (run_state (Execute ''p'' ''main'' ''old'' ''bob'' '''' []) demo))) ''p'' ''old'' = Some ''c1''"
proof -
  obtain r w' where run: "run_state (Execute ''p'' ''main'' ''old'' ''bob'' '''' []) demo = (r, w')" by fastforce
  show ?thesis
    using merge_fast_forwards [OF demo_ok demo_no_faults demo_forwarding run] run by (simp add: head_of_ref_target)
qed

text \<open>After a merge the merged branch can follow: the head of the target reaches the head of the
  source, so that merging the target back into the source is analyzed as a fast-forward.\<close>

theorem merge_back_is_fast_forward:
  assumes "db_ok (w_db w)" "no_faults w" "head_of (w_db w) p src = Some sh" "head_of (w_db w) p tgt = Some th"
    and "\<not> reaches (w_db w) sh th" "run_state (Execute p src tgt u msg rs) w = (Some (Inr c), w')"
  shows "\<exists>an. fst (run_state (Analyze p tgt src) w') = Inr an \<and> ma_Type an = MergeTypeFastForward"
proof -
  have post: "db_ok (w_db w')" "same_env w w'"
  proof -
    have "wp (Execute p src tgt u msg rs) (\<lambda>_ w'. db_ok (w_db w') \<and> same_env w w') w"
      by (rule wp_Execute [OF assms(1)]) (use assms(1) in auto)
    from wp_run [OF this assms(6)] show "db_ok (w_db w')" "same_env w w'" by blast+
  qed
  have neq: "src \<noteq> tgt" using assms(3,4,5) by auto
  have known: "sh \<in> c_ID ` set (commits (w_db w))" using assms(1,3) head_is_commit by (auto simp: db_ok_def)
  have heads: "head_of (w_db w') p tgt = Some (c_ID c) \<and> head_of (w_db w') p src = Some sh \<and> reaches (w_db w') (c_ID c) sh"
    using assms(1,3-6)
  proof (rule Execute_merged)
    fix base s t now
    assume m: "r_CommitID s = sh" "commits (w_db w') = commits (w_db w) @ [merge_row p src tgt u msg s t now (c_ID c)]"
      "ref_target (w_db w') = (ref_target (w_db w))((p, tgt, ''branch'') \<mapsto> c_ID c)"
    have "reaches (w_db w') (c_ID c) sh" using m(1) known by (intro reaches_merge_row [OF m(2)]) auto
    with m(3) neq assms(3) show ?thesis by (simp add: head_of_ref_target)
  qed
  have "no_faults w'" using post(2) assms(2) by (simp add: same_env_no_faults)
  have "wp (Analyze p tgt src) (\<lambda>r _. \<exists>an. r = Inr an \<and> ma_Type an = MergeTypeFastForward) w'"
  proof (rule wp_Analyze [OF post(1)], goal_cases)
    case (1 e w2)
    then show ?case
      using heads neq \<open>no_faults w'\<close> reaches_refl [of "w_db w'" sh] by (auto simp: analyze_error_def)
  next
    case (3 x y base an w2)
    then show ?case using heads by auto
  qed (simp add: new_analysis_def)
  then show ?thesis by (simp add: wp_iff)
qed

theorem merge_back_is_fast_forward_witness:
  "\<exists>c w' an. run_state (Execute ''p'' ''dev'' ''main'' ''bob'' '''' [\<lparr>mr_FileID = ''fa'', mr_FileVersionID = ''a2''\<rparr>]) demo
      = (Some (Inr c), w')
    \<and> fst (run_state (Analyze ''p'' ''main'' ''dev'') w') = Inr an \<and> ma_Type an = MergeTypeFastForward"
proof -
  obtain c w' where run: "run_state (Execute ''p'' ''dev'' ''main'' ''bob'' ''''
      [\<lparr>mr_FileID = ''fa'', mr_FileVersionID = ''a2''\<rparr>]) demo = (Some (Inr c), w')"
    using demo_merge_result by blast
  from merge_back_is_fast_forward [OF demo_ok demo_no_faults demo_heads(2,1) demo_apart run] run show ?thesis by blast
qed

section \<open>Replies and branches\<close>

text \<open>The reply to an analysis names the reason of a refusal: 400 for one and the same branch and 409
  for branches without a common ancestor; a branch that does not exist is answered as an
  internal error, 500.\<close>

theorem analyze_reply:
  assumes "db_ok (w_db w)" "no_faults w" "an_SourceBranch req \<noteq> ''''" "an_TargetBranch req \<noteq> ''''"
    and "analyze_error (w_db w) p (an_SourceBranch req) (an_TargetBranch req) e"
    and "run_state (MergeHandler_AnalyzeMerge p (Some req)) w = (r, w')"
  shows "status r = (if e = ErrSameBranch then StatusBadRequest else if e = ErrNoMergeBase then StatusConflict
    else StatusInternalServerError) \<and> is_error r"
proof -
  have determined: "x = e" if "analyze_error (w_db w) p (an_SourceBranch req) (an_TargetBranch req) x" for x
    using that assms(5) by (auto simp: analyze_error_def split: if_splits option.splits)
  obtain a wa where run: "run_state (Analyze p (an_SourceBranch req) (an_TargetBranch req)) w = (a, wa)" by fastforce
  note fails = Analyze_errors [OF assms(1,2) run]
  have a: "a = Inl e"
  proof (cases a)
    case (Inl x)
    with fails have "analyze_error (w_db w) p (an_SourceBranch req) (an_TargetBranch req) x" by blast
    with Inl determined show ?thesis by blast
  next
    case (Inr an)
    with fails assms(5) have "isl a" by blast
    with Inr show ?thesis by simp
  qed
  have wrapped: "e \<in> {ErrSameBranch, ErrNoMergeBase, Wrap ''source branch'' ErrBranchNotFound, Wrap ''target branch'' ErrBranchNotFound}"
    using assms(5) by (auto simp: analyze_error_def split: if_splits option.splits)
  have "wp (MergeHandler_AnalyzeMerge p (Some req)) (\<lambda>r _. status r = (if e = ErrSameBranch then StatusBadRequest
      else if e = ErrNoMergeBase then StatusConflict else StatusInternalServerError) \<and> is_error r) w"
    using assms(3,4) wrapped run a
    by (auto simp: MergeHandler_AnalyzeMerge_def wp_simps wp_iff [of "Analyze _ _ _"])
  then show ?thesis using assms(6) by (rule wp_run)
qed

theorem analyze_reply_witness:
  "status (fst (run_state (MergeHandler_AnalyzeMerge ''p'' (Some \<lparr>an_SourceBranch = ''dev'', an_TargetBranch = ''gone''\<rparr>)) demo))
    = StatusInternalServerError"
proof -
  let ?req = "\<lparr>an_SourceBranch = ''dev'', an_TargetBranch = ''gone''\<rparr>"
  obtain r w' where run: "run_state (MergeHandler_AnalyzeMerge ''p'' (Some ?req)) demo = (r, w')" by fastforce
  have "head_of (w_db demo) ''p'' ''gone'' = None" by code_simp
  then have "analyze_error (w_db demo) ''p'' (an_SourceBranch ?req) (an_TargetBranch ?req) (Wrap ''target branch'' ErrBranchNotFound)"
    using demo_heads by (simp add: analyze_error_def)
  from analyze_reply [OF demo_ok demo_no_faults _ _ this run] run show ?thesis by simp
qed

text \<open>With a working store a branch is created exactly when its name is given and free and the branch it starts from
  exists; it then points to the head of that branch and nothing else has changed.\<close>

theorem create_branch_exact:
  assumes "db_ok (w_db w)" "no_faults w" "br_Name req \<noteq> ''''" "br_FromRef req \<noteq> ''''"
    and "run_state (MergeHandler_CreateBranch p (Some req)) w = (r, w')"
  shows "if is_error r then w_db w' = w_db w
    else \<exists>h. head_of (w_db w) p (br_FromRef req) = Some h \<and> head_of (w_db w) p (br_Name req) = None
      \<and> (\<exists>rs. w_db w' = (w_db w)\<lparr>refs := rs\<rparr>)
      \<and> ref_target (w_db w') = (ref_target (w_db w))((p, br_Name req, ''branch'') \<mapsto> h)"
proof -
  have "wp (MergeHandler_CreateBranch p (Some req)) (\<lambda>r w'. if is_error r then w_db w' = w_db w
    else \<exists>h. head_of (w_db w) p (br_FromRef req) = Some h \<and> head_of (w_db w) p (br_Name req) = None
      \<and> (\<exists>rs. w_db w' = (w_db w)\<lparr>refs := rs\<rparr>)
      \<and> ref_target (w_db w') = (ref_target (w_db w))((p, br_Name req, ''branch'') \<mapsto> h)) w"
    using assms(2,4) by (intro wp_CreateBranch [OF assms(1,3) refl]) auto
  then show ?thesis using assms(5) by (rule wp_run)
qed

theorem create_branch_exact_witness:
  "head_of (w_db (snd (run_state (MergeHandler_CreateBranch ''p'' (Some \<lparr>br_Name = ''new'', br_FromRef = ''dev''\<rparr>)) demo)))
    ''p'' ''new'' = Some ''c2''"
proof -
  let ?req = "\<lparr>br_Name = ''new'', br_FromRef = ''dev''\<rparr>"
  obtain r w' where run: "run_state (MergeHandler_CreateBranch ''p'' (Some ?req)) demo = (r, w')" by fastforce
  have "\<not> is_error (fst (run_state (MergeHandler_CreateBranch ''p'' (Some ?req)) demo))" by code_simp
  then show ?thesis
    using create_branch_exact [OF demo_ok demo_no_faults _ _ run] run demo_heads by (auto simp: head_of_ref_target)
qed

text \<open>When the store fails at the wrong moment, creating a branch replaces a branch of that name: the
  existence check takes every error for absence.\<close>

theorem create_branch_overwrites:
  "case run_state (MergeHandler_CreateBranch ''p'' (Some \<lparr>br_Name = ''main'', br_FromRef = ''old''\<rparr>))
      (demo\<lparr>w_fault := \<lambda>n. n = 1\<rparr>) of
     (r, w') \<Rightarrow> status r = StatusCreated \<and> head_of demo_db ''p'' ''main'' = Some ''c1''
       \<and> head_of (w_db w') ''p'' ''main'' = Some ''c0''"
  by code_simp

text \<open>A fast-forward that reports an error may have happened: when the store fails on the last read,
  the branch has moved all the same.\<close>

theorem fast_forward_error_after_move:
  "case run_state (Execute ''p'' ''main'' ''old'' ''bob'' '''' []) (demo\<lparr>w_fault := \<lambda>n. n = 7\<rparr>) of
     (r, w') \<Rightarrow> r = Some (Inl Unavailable) \<and> head_of demo_db ''p'' ''old'' = Some ''c0''
       \<and> head_of (w_db w') ''p'' ''old'' = Some ''c1''"
  by code_simp

text \<open>The commit that a merge returns is not the commit it stored: its parent field shows the merge
  commit itself, because the returned record points to the ref that was moved meanwhile, while
  the stored row has the old head of the target there.\<close>

theorem merge_returns_wrong_parent:
  assumes "db_ok (w_db w)" "head_of (w_db w) p src = Some sh" "head_of (w_db w) p tgt = Some th"
    and "\<not> reaches (w_db w) sh th" "run_state (Execute p src tgt u msg rs) w = (Some (Inr c), w')"
  shows "c_ParentID c = Some (c_ID c) \<and> map_option c_ParentID (row_at c_ID (c_ID c) (commits (w_db w'))) = Some (Some th)"
  using assms
  by (rule Execute_merged) (simp add: row_at_append merge_row_def row_at_None [THEN iffD2])

theorem merge_returns_wrong_parent_witness:
  "\<exists>c w'. run_state (Execute ''p'' ''dev'' ''main'' ''bob'' '''' [\<lparr>mr_FileID = ''fa'', mr_FileVersionID = ''a2''\<rparr>]) demo
      = (Some (Inr c), w') \<and> c_ParentID c = Some (c_ID c)"
proof -
  obtain c w' where run: "run_state (Execute ''p'' ''dev'' ''main'' ''bob'' ''''
      [\<lparr>mr_FileID = ''fa'', mr_FileVersionID = ''a2''\<rparr>]) demo = (Some (Inr c), w')"
    using demo_merge_result by blast
  from merge_returns_wrong_parent [OF demo_ok demo_heads(2,1) demo_apart run] run show ?thesis by blast
qed

end
