(* ===== verification/Lock_Properties.thy ===== *)
theory Lock_Properties
  imports Demo
begin

text \<open>
  The properties of advisory file locks (\<^verbatim>\<open>internal/service/lock.go\<close>, \<^verbatim>\<open>internal/handler/lock.go\<close>,
  \<^verbatim>\<open>internal/store/postgres/lock.go\<close>) and of the check a push makes.
\<close>

section \<open>One holder\<close>

text \<open>C35: However the store behaves, a lock request that is answered with a lock has made the caller the
  holder of that path, and one that is answered with an error has changed nothing; with a working store a path that
  somebody else holds is refused as locked.\<close>

theorem acquire_makes_holder:
  assumes "db_ok (w_db w)" "run_state (LockService_Acquire p f b u) w = (r, w')"
  shows "(case r of
      Inr l \<Rightarrow> holder (w_db w') p f = Some u \<and> l_LockedBy l = u \<and> l_ProjectID l = p \<and> l_FilePath l = f
    | Inl e \<Rightarrow> w_db w' = w_db w)
    \<and> (no_faults w \<longrightarrow> (\<exists>v. holder (w_db w) p f = Some v \<and> v \<noteq> u) \<longrightarrow> (\<exists>e. r = Inl e \<and> errors_Is e ErrFileLocked))"
proof -
  let ?busy = "no_faults w \<and> (\<exists>v. holder (w_db w) p f = Some v \<and> v \<noteq> u)"
  have "wp (LockService_Acquire p f b u) (\<lambda>r w'. ?busy \<longrightarrow> (\<exists>e. r = Inl e \<and> errors_Is e ErrFileLocked)) w"
  proof (cases ?busy)
    case True
    then obtain e where e: "row_at l_key (p, f) (locks (w_db w)) = Some e" "l_LockedBy e \<noteq> u"
      by (auto simp: holder_def)
    then have "sql_lock_by_path p f (w_db w) = Some (lock_row (w_db w) e)"
      using sql_lock_by_path_row [of "w_db w" p f] assms(1) by (simp add: db_ok_def)
    then show ?thesis using e True by (simp add: LockService_Acquire_def wp_simps lock_row_def)
  qed (auto simp: wp_iff)
  from wp_run [OF this assms(2)] wp_run [OF wp_LockService_Acquire_any [OF assms(1)] assms(2)]
  show ?thesis by (simp split: sum.splits)
qed

theorem acquire_makes_holder_witness:
  "\<exists>e. fst (run_state (LockService_Acquire ''p'' ''a.txt'' ''main'' ''alice'') demo) = Inl e \<and> errors_Is e ErrFileLocked"
proof -
  obtain r w' where run: "run_state (LockService_Acquire ''p'' ''a.txt'' ''main'' ''alice'') demo = (r, w')" by fastforce
  have "holder (w_db demo) ''p'' ''a.txt'' = Some ''bob''" by code_simp
  with acquire_makes_holder [OF demo_ok run] demo_no_faults run show ?thesis by auto
qed



text \<open>C36: With a working store a lock is released by its holder, or by anybody with force, and then that lock, and
  only it, is gone; every other release is an error that changes nothing, and the reply to it is
  500, not the 403 of a request by somebody who is not the owner.\<close>

theorem release_exact:
  assumes "db_ok (w_db w)" "no_faults w" "rl_FilePath req \<noteq> ''''"
    and "run_state (LockHandler_Release p u (Some req)) w = (r, w')"
  shows "if rl_Force req \<or> holder (w_db w) p (rl_FilePath req) = Some u
    then status r = StatusOK \<and> w_db w' = (w_db w)\<lparr>locks := filter (\<lambda>l. l_key l \<noteq> (p, rl_FilePath req)) (locks (w_db w))\<rparr>
    else status r = StatusInternalServerError \<and> w_db w' = w_db w"
proof -
  let ?free = "rl_Force req \<or> holder (w_db w) p (rl_FilePath req) = Some u"
  have "wp (LockHandler_Release p u (Some req)) (\<lambda>r w'. if ?free
    then status r = StatusOK \<and> w_db w' = (w_db w)\<lparr>locks := filter (\<lambda>l. l_key l \<noteq> (p, rl_FilePath req)) (locks (w_db w))\<rparr>
    else status r = StatusInternalServerError \<and> w_db w' = w_db w) w"
    unfolding LockHandler_Release_def option.case if_not_P [OF assms(3)]
    by (intro wp_bindI, rule wp_mono [OF wp_LockService_Release [OF assms(1,2)]])
      (auto simp: wp_simps split: if_splits)
  then show ?thesis using assms(4) by (rule wp_run)
qed

theorem release_exact_witness:
  "status (fst (run_state (LockHandler_Release ''p'' ''alice'' (Some \<lparr>rl_FilePath = ''a.txt'', rl_Force = False\<rparr>)) demo))
    = StatusInternalServerError"
proof -
  let ?req = "\<lparr>rl_FilePath = ''a.txt'', rl_Force = False\<rparr>"
  obtain r w' where run: "run_state (LockHandler_Release ''p'' ''alice'' (Some ?req)) demo = (r, w')" by fastforce
  have "holder (w_db demo) ''p'' ''a.txt'' = Some ''bob''" by code_simp
  then show ?thesis using release_exact [OF demo_ok demo_no_faults _ run] run by simp
qed

section \<open>Locks and pushes\<close>

text \<open>C15: With a working store a push that touches a path somebody else holds is refused: the reply lists exactly
  those paths and nothing has changed.\<close>

theorem push_refused_when_locked:
  assumes "db_ok (w_db w)" "no_faults w" "pr_Message req \<noteq> ''''" "pr_Files req \<noteq> []"
    and "blocking (w_db w) p (map ce_Path (pr_Files req)) u \<noteq> {}"
    and "run_state (PushHandler_Commit p u (Some req)) w = (r, w')"
  shows "\<exists>info. r = Reply StatusConflict (FilesLocked info)
    \<and> fst ` set info = blocking (w_db w) p (map ce_Path (pr_Files req)) u \<and> w_db w' = w_db w"
proof -
  have "wp (PushHandler_Commit p u (Some req)) (\<lambda>r w'. \<exists>info. r = Reply StatusConflict (FilesLocked info)
    \<and> fst ` set info = blocking (w_db w) p (map ce_Path (pr_Files req)) u \<and> w_db w' = w_db w) w"
    by (rule wp_Push [OF assms(1-4)]) (use assms(5) in auto)
  then show ?thesis using assms(6) by (rule wp_run)
qed

theorem push_refused_when_locked_witness:
  "\<exists>info. fst (run_state (PushHandler_Commit ''p'' ''alice'' (Some demo_body)) demo) = Reply StatusConflict (FilesLocked info)
    \<and> fst ` set info = {''a.txt''}"
proof -
  obtain r w' where run: "run_state (PushHandler_Commit ''p'' ''alice'' (Some demo_body)) demo = (r, w')" by fastforce
  have "holder (w_db demo) ''p'' ''a.txt'' = Some ''bob''" by code_simp
  then have block: "blocking (w_db demo) ''p'' (map ce_Path (pr_Files demo_body)) ''alice'' = {''a.txt''}"
    by (auto simp: blocking_def demo_body_def)
  have "pr_Message demo_body \<noteq> ''''" "pr_Files demo_body \<noteq> []" by (simp_all add: demo_body_def)
  from push_refused_when_locked [OF demo_ok demo_no_faults this _ run] run block show ?thesis by auto
qed


section \<open>Two requests at the same time\<close>




end
