(* ===== verification/Content_Properties.thy ===== *)
theory Content_Properties
  imports Demo
begin

text \<open>
  The properties of chunks (\<^verbatim>\<open>internal/service/chunk.go\<close>, \<^verbatim>\<open>internal/store/minio/chunk.go\<close>,
  \<^verbatim>\<open>internal/store/postgres/chunk.go\<close>) and of the rate limiter
  (\<^verbatim>\<open>internal/middleware/ratelimit.go\<close>).
\<close>

section \<open>Chunks\<close>

text \<open>The example server after one upload.\<close>

definition demo_stored :: world where
  "demo_stored = snd (run_state (ChunkService_Upload 4 (hash_of [1, 2, 3]) [1, 2, 3]) demo_bare)"

lemma demo_bare_no_faults: "no_faults demo_bare"
  using demo_no_faults by (simp add: demo_bare_def no_faults_def)

lemma demo_stored_state:
  "system_ok demo_stored" "no_faults demo_stored" "hash_of [1, 2, 3] \<in> ch_Hash ` set (chunks (w_db demo_stored))"
proof -
  have "wp (ChunkService_Upload 4 (hash_of [1, 2, 3]) [1, 2, 3]) (\<lambda>_ w'. db_ok (w_db w')) demo_bare"
    using keeps_ChunkService(1) demo_bare_ok by (auto simp: keeps_def system_ok_def)
  moreover have "wp (ChunkService_Upload 4 (hash_of [1, 2, 3]) [1, 2, 3]) (\<lambda>_ w'. content_ok w') demo_bare"
    by (rule wp_mono [OF Upload_content_ok]) (use demo_bare_ok in \<open>simp_all add: system_ok_def\<close>)
  ultimately show "system_ok demo_stored" by (simp add: system_ok_def demo_stored_def wp_iff)
  have "wp (ChunkService_Upload 4 (hash_of [1, 2, 3]) [1, 2, 3])
      (\<lambda>_ w'. no_faults w' \<and> hash_of [1, 2, 3] \<in> ch_Hash ` set (chunks (w_db w'))) demo_bare"
    using demo_bare_no_faults by (intro wp_Upload) (simp_all add: no_faults_def ch_Hash_upsert)
  then show "no_faults demo_stored" "hash_of [1, 2, 3] \<in> ch_Hash ` set (chunks (w_db demo_stored))"
    by (simp_all add: demo_stored_def wp_iff)
qed

lemma demo_stored_run: "server_run 4 demo_stored [Elapsed] demo_stored"
  by (simp add: server_step.simps)

text \<open>C12: What is uploaded can be downloaded: with a working store, data no longer than the limit, uploaded under
  its own hash, is accepted, and a download of that hash then returns these bytes and their number.\<close>

theorem upload_download_roundtrip:
  assumes "no_faults w" "int (length data) \<le> maxSize"
    and "run_state (ChunkService_Upload maxSize (hash_of data) data) w = (r, w1)"
  shows "r = Some (Inr ()) \<and>
    fst (run_state (ChunkService_Download (hash_of data)) w1) = Some (Inr (data, int (length data)))"
proof -
  have "wp (ChunkService_Upload maxSize (hash_of data) data) (\<lambda>r w1. r = Some (Inr ()) \<and>
      wp (ChunkService_Download (hash_of data)) (\<lambda>r _. r = Some (Inr (data, int (length data)))) w1) w"
  proof (rule wp_Upload, goal_cases)
    case (5 k c w')
    have "ch_Hash c \<in> ch_Hash ` set (chunks (w_db w'))" using 5(2) ch_Hash_upsert [of c "chunks (w_db w)"] by simp
    then obtain row where "row_at ch_Hash (hash_of data) (chunks (w_db w')) = Some row"
      using 5(1) by (metis not_None_eq row_at_None)
    moreover have "no_faults w'" using assms(1) 5(7) by (simp add: no_faults_def)
    ultimately show ?case using 5 by (simp add: ChunkService_Download_def wp_simps no_faults_def)
  qed (use assms(1,2) in auto)
  from wp_run [OF this assms(3)] show ?thesis by (simp add: wp_iff)
qed

theorem upload_download_roundtrip_witness:
  "fst (run_state (ChunkService_Upload 4 (hash_of [1, 2, 3]) [1, 2, 3]) demo) = Some (Inr ())"
proof -
  obtain r w1 where run: "run_state (ChunkService_Upload 4 (hash_of [1, 2, 3]) [1, 2, 3]) demo = (r, w1)" by fastforce
  from upload_download_roundtrip [OF demo_no_faults _ run] run show ?thesis by simp
qed

text \<open>Nothing is stored under a wrong name: an upload is accepted only if the data is within the limit
  and its hash is the expected one, and a refusal for size or hash leaves the whole state as it is.\<close>

theorem upload_rejects:
  assumes "run_state (ChunkService_Upload maxSize h data) w = (r, w')"
  shows "(r = Some (Inr ()) \<longrightarrow> int (length data) \<le> maxSize \<and> hash_of data = h)
    \<and> (maxSize < int (length data) \<longrightarrow> r = Some (Inl ErrChunkTooLarge) \<and> w' = w)
    \<and> (int (length data) \<le> maxSize \<and> hash_of data \<noteq> h \<longrightarrow> r = Some (Inl ErrChunkHashMismatch) \<and> w' = w)"
proof -
  have "wp (ChunkService_Upload maxSize h data) (\<lambda>r w'.
      (r = Some (Inr ()) \<longrightarrow> int (length data) \<le> maxSize \<and> hash_of data = h)
      \<and> (maxSize < int (length data) \<longrightarrow> r = Some (Inl ErrChunkTooLarge) \<and> w' = w)
      \<and> (int (length data) \<le> maxSize \<and> hash_of data \<noteq> h \<longrightarrow> r = Some (Inl ErrChunkHashMismatch) \<and> w' = w)) w"
    by (rule wp_Upload) auto
  then show ?thesis using assms by (rule wp_run)
qed

theorem upload_rejects_witness:
  "run_state (ChunkService_Upload 2 ''h'' [1, 2, 3]) demo = (Some (Inl ErrChunkTooLarge), demo)"
proof -
  obtain r w' where run: "run_state (ChunkService_Upload 2 ''h'' [1, 2, 3]) demo = (r, w')" by fastforce
  from upload_rejects [OF run] run show ?thesis by simp
qed

lemma Download_available:
  assumes "content_ok w" "no_faults w" "h \<in> ch_Hash ` set (chunks (w_db w))"
  shows "\<exists>data w'. run_state (ChunkService_Download h) w = (Some (Inr (data, int (length data))), w') \<and> hash_of data = h"
proof -
  have row: "row_at ch_Hash h (chunks (w_db w)) \<noteq> None" using assms(3) by (simp add: row_at_None)
  have found: "wp (ChunkService_Download h) (\<lambda>r _. \<exists>data. r = Some (Inr (data, int (length data)))) w"
    by (rule wp_Download) (use row assms(1,2) in \<open>auto simp: content_ok_def\<close>)
  obtain r w' where run: "run_state (ChunkService_Download h) w = (r, w')" by fastforce
  obtain data where r: "r = Some (Inr (data, int (length data)))" using wp_run [OF found run] by blast
  moreover have "hash_of data = h" using wp_run [OF Download_content [OF assms(1)] run] r by blast
  ultimately show ?thesis using run by blast
qed

text \<open>A download never returns wrong content: in every state the server can be in, whatever a
  download answers with data, the data has the hash that was asked for and the length that is announced.\<close>

theorem download_integrity:
  assumes "system_ok w" "server_run maxSize w evs w1" "run_state (ChunkService_Download h) w1 = (Some (Inr (data, n)), w2)"
  shows "hash_of data = h \<and> n = int (length data)"
proof -
  have "content_ok w1" using system_ok_run(1) [OF assms(2,1)] by (simp add: system_ok_def)
  from wp_run [OF Download_content [OF this] assms(3)] show ?thesis by simp
qed

theorem download_integrity_witness:
  "\<exists>data n w2. run_state (ChunkService_Download (hash_of [1, 2, 3])) demo_stored = (Some (Inr (data, n)), w2)
    \<and> hash_of data = hash_of [1, 2, 3] \<and> n = int (length data)"
proof -
  have "content_ok demo_stored" using demo_stored_state(1) by (simp only: system_ok_def)
  from Download_available [OF this demo_stored_state(2,3)] obtain data w2
    where run: "run_state (ChunkService_Download (hash_of [1, 2, 3])) demo_stored = (Some (Inr (data, int (length data))), w2)"
    by blast
  from download_integrity [OF demo_stored_state(1) demo_stored_run run] run show ?thesis by blast
qed

text \<open>Chunks are durable: a chunk that the server has recorded stays available over any run, whatever the
  requests and failures; with a working store a download then returns data with its hash.\<close>

theorem chunk_stays_available:
  assumes "system_ok w" "h \<in> ch_Hash ` set (chunks (w_db w))" "server_run maxSize w evs w1" "no_faults w1"
  shows "\<exists>data. fst (run_state (ChunkService_Download h) w1) = Some (Inr (data, int (length data))) \<and> hash_of data = h"
proof -
  have ok: "content_ok w1" using system_ok_run(1) [OF assms(3,1)] by (simp add: system_ok_def)
  have "h \<in> ch_Hash ` set (chunks (w_db w1))"
    using assms(2) chunks_grow_run [OF assms(3)] by (auto simp: chunks_grow_def)
  from Download_available [OF ok assms(4) this] show ?thesis by auto
qed

theorem chunk_stays_available_witness:
  "\<exists>data. fst (run_state (ChunkService_Download (hash_of [1, 2, 3])) demo_stored) = Some (Inr (data, int (length data)))"
  using chunk_stays_available [OF demo_stored_state(1,3) demo_stored_run demo_stored_state(2)] by blast

text \<open>The check for known chunks is exact with a working store: it never panics, the hashes it says are missing are
  those of the request that have no row, in the order and number of the request, and the ones it says exist are the others.\<close>

theorem check_existing_exact:
  assumes "db_ok (w_db w)" "no_faults w" "run_state (ChunkService_CheckExisting hashes) w = (r, w')"
  shows "\<exists>existing. r = Some (Inr (existing, filter (\<lambda>h. h \<notin> ch_Hash ` set (chunks (w_db w))) hashes))
    \<and> set existing = set hashes \<inter> ch_Hash ` set (chunks (w_db w)) \<and> w_db w' = w_db w"
proof -
  have "set (sql_existing_chunks hashes (w_db w)) = set hashes \<inter> ch_Hash ` set (chunks (w_db w))"
    by (auto simp: set_existing_chunks)
  then have "wp (ChunkService_CheckExisting hashes) (\<lambda>r w'.
      \<exists>existing. r = Some (Inr (existing, filter (\<lambda>h. h \<notin> ch_Hash ` set (chunks (w_db w))) hashes))
      \<and> set existing = set hashes \<inter> ch_Hash ` set (chunks (w_db w)) \<and> w_db w' = w_db w) w"
    unfolding wp_CheckExisting [OF assms(1,2)] by simp
  then show ?thesis using assms(3) by (rule wp_run)
qed

theorem check_existing_exact_witness:
  "\<exists>existing. fst (run_state (ChunkService_CheckExisting [''h2'', ''h1'', ''h2'']) demo) = Some (Inr (existing, [''h2'', ''h2'']))"
proof -
  obtain r w' where run: "run_state (ChunkService_CheckExisting [''h2'', ''h1'', ''h2'']) demo = (r, w')" by fastforce
  have "filter (\<lambda>h. h \<notin> ch_Hash ` set (chunks (w_db demo))) [''h2'', ''h1'', ''h2''] = [''h2'', ''h2'']"
    by (simp add: demo_def demo_db_def)
  with check_existing_exact [OF demo_ok demo_no_faults run] run show ?thesis by auto
qed

section \<open>The rate limiter\<close>

text \<open>C37: The limiter bounds the load: from any state it can get into, in any stretch of time no longer than its window a key
  is granted fewer than twice the limit of requests, whatever the other keys do.\<close>

theorem rate_limit_bound:
  assumes "1 \<le> limit" "hi \<le> lo + interval" "sorted (map snd (before @ cs))"
  shows "int (granted key lo hi cs (snd (allow_all before (NewRateLimiter limit interval)))) \<le> 2 * limit - 1"
proof -
  have "counted (snd (allow_all bs rl)) \<and> rl_limit (snd (allow_all bs rl)) = rl_limit rl
      \<and> rl_interval (snd (allow_all bs rl)) = rl_interval rl" if "counted rl" for bs and rl :: RateLimiter
    using that
  proof (induction bs arbitrary: rl)
    case (Cons b bs)
    have step: "snd (allow_all (b # bs) rl) = snd (allow_all bs (snd (allow (fst b) (snd b) rl)))"
      by (simp add: Let_def split: prod.splits)
    show ?case
      unfolding step using Cons counted_allow [of rl "fst b" "snd b"] by (simp only: allow_frame)
  qed simp
  from this [OF counted_new, of before limit interval] show ?thesis
    using assms granted_bound [of "snd (allow_all before (NewRateLimiter limit interval))" hi lo cs key]
    by (simp add: NewRateLimiter_def sorted_append)
qed

theorem rate_limit_bound_witness:
  "int (granted ''k'' 60 70 [(''k'', 60), (''k'', 61)] (snd (allow_all [(''k'', 0)] (NewRateLimiter 3 60)))) \<le> 5"
  using rate_limit_bound [of 3 70 60 60 "[(''k'', 0)]" "[(''k'', 60), (''k'', 61)]" "''k''"] by simp

text \<open>The bound is met: a client that waits for the end of a window gets twice the limit less one in
  the time of a single window, so the limiter counts in fixed windows and not, as its comment says, in a sliding one.\<close>

theorem rate_limit_not_sliding:
  "granted ''k'' 60 120 [(''k'', 60), (''k'', 60), (''k'', 61), (''k'', 61), (''k'', 61)]
    (snd (allow_all [(''k'', 0)] (NewRateLimiter 3 60))) = 5"
  by code_simp

end
