(* ===== verification/Project_Store.thy ===== *)
theory Project_Store
  imports Schema
begin

text \<open>
  \<^verbatim>\<open>internal/store/postgres/project.go\<close>: the projects, and what their deletion takes with it by
  the foreign keys of \<^verbatim>\<open>migrations/\<close>.
\<close>

section \<open>Statements and methods\<close>

definition sql_insert_project :: "Project \<Rightarrow> db \<Rightarrow> error + unit \<times> db" where
  "sql_insert_project p d =
     (if 128 < char_count (p_Name p) then Inl (Violation ''value too long'')
      else if p_ID p \<in> p_ID ` set (projects d) then Inl (Violation ''projects_pkey'')
      else if p_Name p \<in> p_Name ` set (projects d) then Inl (Violation ''projects_name_key'')
      else if p_CreatedBy p \<notin> u_ID ` set (users d) then Inl (Violation ''projects_created_by_fkey'')
      else Inr ((), d\<lparr>projects := projects d @ [p]\<rparr>))"

definition ProjectStore_Create :: "Project \<Rightarrow> unit result io" where
  "ProjectStore_Create p = db_exec (sql_insert_project p)"

definition ProjectStore_GetByID :: "string \<Rightarrow> Project result io" where
  "ProjectStore_GetByID pid = db_query (\<lambda>d.
     case row_at p_ID pid (projects d) of None \<Rightarrow> Inl ErrNoRows | Some p \<Rightarrow> Inr p)"

text \<open>\<open>ORDER BY updated_at DESC\<close>\<close>

definition ProjectStore_ListByUser :: "string \<Rightarrow> Project list result io" where
  "ProjectStore_ListByUser userID = db_query (\<lambda>d.
     Inr (sort_key (\<lambda>p. - p_UpdatedAt p) (filter (\<lambda>p. p_CreatedBy p = userID) (projects d))))"

text \<open>
  \<open>ON DELETE CASCADE\<close>: commits, refs, files and locks go with their project, versions with
  their file or commit, snapshot rows with their commit, file or version.
\<close>

definition in_project :: "string \<Rightarrow> db \<Rightarrow> string \<Rightarrow> bool" where
  "in_project pid d cid \<longleftrightarrow> list_ex (\<lambda>c. c_ID c = cid \<and> c_ProjectID c = pid) (commits d)"

definition file_in_project :: "string \<Rightarrow> db \<Rightarrow> string \<Rightarrow> bool" where
  "file_in_project pid d fid \<longleftrightarrow> list_ex (\<lambda>f. f_ID f = fid \<and> f_ProjectID f = pid) (files d)"

definition version_in_project :: "string \<Rightarrow> db \<Rightarrow> FileVersion \<Rightarrow> bool" where
  "version_in_project pid d fv \<longleftrightarrow>
     file_in_project pid d (fv_FileID fv) \<or> in_project pid d (fv_CommitID fv)"

definition row_in_project :: "string \<Rightarrow> db \<Rightarrow> CommitFile \<Rightarrow> bool" where
  "row_in_project pid d cf \<longleftrightarrow> in_project pid d (cf_CommitID cf) \<or> file_in_project pid d (cf_FileID cf)
     \<or> list_ex (\<lambda>fv. fv_ID fv = cf_FileVersionID cf \<and> version_in_project pid d fv) (file_versions d)"

definition cascade_project :: "string \<Rightarrow> db \<Rightarrow> db" where
  "cascade_project pid d = d\<lparr>
     projects := filter (\<lambda>p. p_ID p \<noteq> pid) (projects d),
     commits := filter (\<lambda>c. c_ProjectID c \<noteq> pid) (commits d),
     refs := filter (\<lambda>r. r_ProjectID r \<noteq> pid) (refs d),
     files := filter (\<lambda>f. f_ProjectID f \<noteq> pid) (files d),
     file_versions := filter (\<lambda>fv. \<not> version_in_project pid d fv) (file_versions d),
     commit_files := filter (\<lambda>cf. \<not> row_in_project pid d cf) (commit_files d),
     locks := filter (\<lambda>l. l_ProjectID l \<noteq> pid) (locks d)\<rparr>"

text \<open>
  The references of \<open>commits.parent_id\<close> and \<open>refs.commit_id\<close> do not cascade: when one is left
  dangling, the statement fails and has no effect.
\<close>

definition sql_delete_project :: "string \<Rightarrow> db \<Rightarrow> error + unit \<times> db" where
  "sql_delete_project pid d =
     (if pid \<notin> p_ID ` set (projects d) then Inr ((), d)
      else if list_ex (\<lambda>c. c_ProjectID c \<noteq> pid \<and>
          (case c_ParentID c of None \<Rightarrow> False | Some p \<Rightarrow> in_project pid d p)) (commits d)
        then Inl (Violation ''commits_parent_id_fkey'')
      else if list_ex (\<lambda>r. r_ProjectID r \<noteq> pid \<and> in_project pid d (r_CommitID r)) (refs d)
        then Inl (Violation ''refs_commit_id_fkey'')
      else Inr ((), cascade_project pid d))"

definition ProjectStore_Delete :: "string \<Rightarrow> unit result io" where
  "ProjectStore_Delete pid = db_exec (sql_delete_project pid)"

lemmas project_store_calls [wp_simps] = ProjectStore_GetByID_def ProjectStore_ListByUser_def

section \<open>Effects\<close>

lemma sql_insert_project_Inr:
  "sql_insert_project p d = Inr (x, d') \<longleftrightarrow>
    d' = d\<lparr>projects := projects d @ [p]\<rparr> \<and> p_ID p \<notin> p_ID ` set (projects d)
    \<and> p_Name p \<notin> p_Name ` set (projects d) \<and> p_CreatedBy p \<in> u_ID ` set (users d)
    \<and> char_count (p_Name p) \<le> 128"
  by (auto simp: sql_insert_project_def)

lemma insert_project_ok:
  assumes "db_ok d" "sql_insert_project p d = Inr (x, d')"
  shows "db_ok d'"
proof -
  have d': "d' = d\<lparr>projects := projects d @ [p]\<rparr>" and p: "p_ID p \<notin> p_ID ` set (projects d)"
    "p_Name p \<notin> p_Name ` set (projects d)" "p_CreatedBy p \<in> u_ID ` set (users d)"
    using assms(2) by (auto simp: sql_insert_project_Inr)
  have parts: "projects_ok d" "commits_ok d" "refs_ok d" "files_ok d" "locks_ok d"
    using assms(1) by (simp_all add: db_ok_def schema_ok_def)
  have "projects_ok d'" "commits_ok d'" "refs_ok d'" "files_ok d'" "locks_ok d'"
    using parts p unfolding d' table_ok_defs by auto
  with assms(1) show ?thesis
    unfolding db_ok_def schema_ok_def d' by (simp add: table_ok_defs history_defs)
qed

lemma in_project_iff: "in_project pid d cid \<longleftrightarrow> (\<exists>c \<in> set (commits d). c_ID c = cid \<and> c_ProjectID c = pid)"
  by (auto simp: in_project_def list_ex_iff)

lemma file_in_project_iff:
  "file_in_project pid d fid \<longleftrightarrow> (\<exists>f \<in> set (files d). f_ID f = fid \<and> f_ProjectID f = pid)"
  by (auto simp: file_in_project_def list_ex_iff)

lemma sql_delete_project_Inr:
  "sql_delete_project pid d = Inr (x, d') \<longleftrightarrow>
    (if pid \<notin> p_ID ` set (projects d) then d' = d
     else d' = cascade_project pid d
       \<and> (\<forall>c \<in> set (commits d). c_ProjectID c \<noteq> pid \<longrightarrow> (\<forall>p. c_ParentID c = Some p \<longrightarrow> \<not> in_project pid d p))
       \<and> (\<forall>r \<in> set (refs d). r_ProjectID r \<noteq> pid \<longrightarrow> \<not> in_project pid d (r_CommitID r)))"
  by (auto simp: sql_delete_project_def list_ex_iff split: option.splits)

end
