(* ===== verification/Origin.thy ===== *)
theory Origin
  imports Server Project_Store
begin

text \<open>
  Where the content of a commit comes from: every version in a snapshot was written by the commit or
  one of its ancestors, a version belongs to the project of the commit that wrote it, and a merge
  joins commits of one project. These invariants span the version and the merge service; they are
  what makes the deletion of a project safe for the others.
\<close>

section \<open>Invariants\<close>

text \<open>The parents of a merge other than the first are in its project; the first has a foreign key.\<close>

definition merges_local :: "db \<Rightarrow> bool" where
  "merges_local d \<longleftrightarrow> (\<forall>c \<in> set (commits d). \<forall>p \<in> set (tl (c_ParentIDs c)).
     \<exists>c' \<in> set (commits d). c_ID c' = p \<and> c_ProjectID c' = c_ProjectID c)"

definition versions_local :: "db \<Rightarrow> bool" where
  "versions_local d \<longleftrightarrow> (\<forall>fv \<in> set (file_versions d). \<exists>f \<in> set (files d). \<exists>c \<in> set (commits d).
     f_ID f = fv_FileID fv \<and> c_ID c = fv_CommitID fv \<and> f_ProjectID f = c_ProjectID c)"

definition written_by :: "db \<Rightarrow> string \<Rightarrow> string \<Rightarrow> bool" where
  "written_by d c v \<longleftrightarrow> (\<exists>fv \<in> set (file_versions d). fv_ID fv = v \<and> reaches d c (fv_CommitID fv))"

definition provenance :: "db \<Rightarrow> bool" where
  "provenance d \<longleftrightarrow> (\<forall>cf \<in> set (commit_files d). written_by d (cf_CommitID cf) (cf_FileVersionID cf))"

definition origin_ok :: "db \<Rightarrow> bool" where
  "origin_ok d \<longleftrightarrow> merges_local d \<and> versions_local d \<and> provenance d"

lemmas origin_defs = origin_ok_def merges_local_def versions_local_def provenance_def

lemma origin_ok_empty: "origin_ok empty_db"
  by (simp add: origin_defs empty_db_def)

lemma written_by_mono:
  assumes "commits d' = commits d @ cs" "set (file_versions d) \<subseteq> set (file_versions d')" "written_by d c v"
  shows "written_by d' c v"
proof -
  from assms(3) obtain fv where "fv \<in> set (file_versions d)" "fv_ID fv = v" "reaches d c (fv_CommitID fv)"
    unfolding written_by_def by blast
  moreover from this have "reaches d' c (fv_CommitID fv)" using reaches_append [OF assms(1)] by blast
  ultimately show ?thesis using assms(2) unfolding written_by_def by blast
qed

lemma written_by_reaches: "reaches d x y \<Longrightarrow> written_by d y v \<Longrightarrow> written_by d x v"
  unfolding written_by_def reaches_def by (blast intro: rtrancl_trans)

text \<open>The tables grow; what has to be shown of the new rows.\<close>

lemma origin_grow:
  assumes ok: "origin_ok d" and cs: "commits d' = commits d @ cs"
    and fs: "set (files d) \<subseteq> set (files d')" and vs: "set (file_versions d) \<subseteq> set (file_versions d')"
    and new_commits: "\<And>c p. c \<in> set cs \<Longrightarrow> p \<in> set (tl (c_ParentIDs c)) \<Longrightarrow>
      \<exists>c' \<in> set (commits d'). c_ID c' = p \<and> c_ProjectID c' = c_ProjectID c"
    and new_versions: "\<And>fv. fv \<in> set (file_versions d') \<Longrightarrow> fv \<notin> set (file_versions d) \<Longrightarrow>
      \<exists>f \<in> set (files d'). \<exists>c \<in> set (commits d').
        f_ID f = fv_FileID fv \<and> c_ID c = fv_CommitID fv \<and> f_ProjectID f = c_ProjectID c"
    and new_rows: "\<And>cf. cf \<in> set (commit_files d') \<Longrightarrow> cf \<notin> set (commit_files d) \<Longrightarrow>
      written_by d' (cf_CommitID cf) (cf_FileVersionID cf)"
  shows "origin_ok d'"
  unfolding origin_ok_def
proof (intro conjI)
  have parts: "merges_local d" "versions_local d" "provenance d" using ok by (simp_all add: origin_ok_def)
  have sub: "set (commits d) \<subseteq> set (commits d')" using cs by auto
  show "merges_local d'"
    unfolding merges_local_def
  proof (intro ballI)
    fix c p
    assume "c \<in> set (commits d')" and p: "p \<in> set (tl (c_ParentIDs c))"
    then consider "c \<in> set (commits d)" | "c \<in> set cs" using cs by auto
    then show "\<exists>c' \<in> set (commits d'). c_ID c' = p \<and> c_ProjectID c' = c_ProjectID c"
    proof cases
      case 1
      with parts(1) p obtain c' where "c' \<in> set (commits d)" "c_ID c' = p" "c_ProjectID c' = c_ProjectID c"
        unfolding merges_local_def by blast
      then show ?thesis using sub by blast
    qed (rule new_commits [OF _ p])
  qed
  show "versions_local d'"
    unfolding versions_local_def
  proof
    fix fv
    assume fv: "fv \<in> set (file_versions d')"
    show "\<exists>f \<in> set (files d'). \<exists>c \<in> set (commits d').
        f_ID f = fv_FileID fv \<and> c_ID c = fv_CommitID fv \<and> f_ProjectID f = c_ProjectID c"
    proof (cases "fv \<in> set (file_versions d)")
      case True
      with parts(2) obtain f c where "f \<in> set (files d)" "c \<in> set (commits d)"
          "f_ID f = fv_FileID fv" "c_ID c = fv_CommitID fv" "f_ProjectID f = c_ProjectID c"
        unfolding versions_local_def by blast
      then show ?thesis using sub fs by blast
    qed (rule new_versions [OF fv])
  qed
  show "provenance d'"
    unfolding provenance_def
  proof
    fix cf
    assume cf: "cf \<in> set (commit_files d')"
    show "written_by d' (cf_CommitID cf) (cf_FileVersionID cf)"
    proof (cases "cf \<in> set (commit_files d)")
      case True
      with parts(3) have "written_by d (cf_CommitID cf) (cf_FileVersionID cf)" by (simp add: provenance_def)
      with cs vs show ?thesis by (rule written_by_mono)
    qed (rule new_rows [OF cf])
  qed
qed

lemma origin_cong:
  "origin_ok d \<Longrightarrow> commits d' = commits d \<Longrightarrow> files d' = files d \<Longrightarrow> file_versions d' = file_versions d \<Longrightarrow>
    commit_files d' = commit_files d \<Longrightarrow> origin_ok d'"
  by (rule origin_grow [of d d' "[]"]) simp_all

text \<open>The new rows of a snapshot, one for each entry of a map.\<close>

lemma origin_upsert_commit_files:
  assumes "origin_ok d" "sql_upsert_commit_files rows d = Inr (x, d')"
    and "\<And>cf. cf \<in> set rows \<Longrightarrow> written_by d (cf_CommitID cf) (cf_FileVersionID cf)"
  shows "origin_ok d'"
proof -
  have d': "d' = d\<lparr>commit_files := fold (upsert_row cf_key cf_overwrite) rows (commit_files d)\<rparr>"
    using assms(2) by (simp add: sql_upsert_commit_files_Inr)
  have w: "written_by d' = written_by d" unfolding d' by (simp add: fun_eq_iff written_by_def reaches_def)
  have "cf \<in> set (commit_files d) \<or> cf \<in> set rows" if "cf \<in> set (commit_files d')" for cf
    using that unfolding d' by (auto dest: set_fold_upsert [rotated] intro: cf_overwrite_eq)
  then show ?thesis
    using assms(3) w by (intro origin_grow [OF assms(1), of d' "[]"]) (auto simp: d')
qed

section \<open>A commit\<close>

text \<open>Calls that touch none of the four tables.\<close>

definition same_history :: "world \<Rightarrow> world \<Rightarrow> bool" where
  "same_history w w' \<longleftrightarrow> commits (w_db w') = commits (w_db w) \<and> files (w_db w') = files (w_db w)
     \<and> file_versions (w_db w') = file_versions (w_db w) \<and> commit_files (w_db w') = commit_files (w_db w)"

interpretation same_history: frame_relation same_history
  by unfold_locales (simp_all add: same_history_def)

lemma wp_preserves: "preserves R m \<Longrightarrow> (\<And>r w'. R w w' \<Longrightarrow> Q r w') \<Longrightarrow> wp m Q w"
  unfolding preserves_def by (blast intro: wp_mono)

lemma same_history_origin: "same_history w w' \<Longrightarrow> origin_ok (w_db w) \<Longrightarrow> origin_ok (w_db w')"
  by (auto simp: same_history_def intro: origin_cong)

lemma same_history_statements:
  "preserves same_history (count_chunks hs)" "preserves same_history (CommitStore_UpsertRef r)"
  "preserves same_history (advance_ref req cid now)"
proof -
  show "preserves same_history (count_chunks hs)"
    unfolding count_chunks_def ChunkStore_IncrementRefCount_def
    by (intro same_history.frame_if same_history.frame_return same_history.frame_db_exec)
      (auto simp: same_history_def dest!: sql_add_ref_count_Inr)
  show ref: "preserves same_history (CommitStore_UpsertRef r)" for r
    unfolding CommitStore_UpsertRef_def
    by (rule same_history.frame_db_exec) (auto simp: same_history_def sql_upsert_ref_Inr)
  show "preserves same_history (advance_ref req cid now)"
    unfolding advance_ref_def by (auto intro!: frame_intros ref)
qed

text \<open>Every version that a snapshot map names was written by an ancestor of the commit.\<close>

definition map_written :: "db \<Rightarrow> string \<Rightarrow> (string, CommitFile) gomap \<Rightarrow> bool" where
  "map_written d c m \<longleftrightarrow> (\<forall>x \<in> set m. written_by d c (cf_FileVersionID (snd x)))"

lemma set_update_subset: "set (AList.update k v m) \<subseteq> insert (k, v) (set m)"
  by (induction m) auto

lemma set_gomap_of: "x \<in> set (gomap_of key val xs m) \<Longrightarrow> x \<in> set m \<or> (\<exists>y \<in> set xs. x = (key y, val y))"
proof (induction xs arbitrary: m)
  case Nil
  then show ?case by simp
next
  case (Cons y ys)
  from Cons.IH [of "AList.update (key y) (val y) m"] Cons.prems
  show ?case using set_update_subset [of "key y" "val y" m] by auto
qed

lemma map_written_update:
  "map_written d c m \<Longrightarrow> written_by d c (cf_FileVersionID cf) \<Longrightarrow> map_written d c (AList.update k cf m)"
  unfolding map_written_def using set_update_subset [of k cf m] by fastforce

lemma map_written_mono:
  "map_written d c m \<Longrightarrow> commits d' = commits d \<Longrightarrow> set (file_versions d) \<subseteq> set (file_versions d') \<Longrightarrow> map_written d' c m"
  unfolding map_written_def using written_by_mono [of d' d "[]"] by auto

lemma map_written_snapshot_map:
  assumes "origin_ok d" "reaches d c p"
  shows "map_written d c (snapshot_map d p)"
  unfolding map_written_def
proof
  fix x
  assume "x \<in> set (snapshot_map d p)"
  then have "snd x \<in> set (commit_files d)" "cf_CommitID (snd x) = p"
    unfolding snapshot_map_def by (auto dest: set_gomap_of)
  then have "written_by d p (cf_FileVersionID (snd x))" using assms(1) by (auto simp: origin_ok_def provenance_def)
  with assms(2) show "written_by d c (cf_FileVersionID (snd x))" by (rule written_by_reaches)
qed

lemma origin_upsert_file:
  assumes "origin_ok d" "sql_upsert_file f d = Inr (x, d')"
  shows "origin_ok d'"
  using assms(2)
  by (intro origin_grow [OF assms(1), of d' "[]"]) (auto simp: sql_upsert_file_Inr upsert_keep_row)

lemma origin_insert_version:
  assumes "origin_ok d" "sql_insert_version fv d = Inr (x, d')"
    and "\<exists>f \<in> set (files d). \<exists>c \<in> set (commits d).
      f_ID f = fv_FileID fv \<and> c_ID c = fv_CommitID fv \<and> f_ProjectID f = c_ProjectID c"
  shows "origin_ok d'" "written_by d' (fv_CommitID fv) (fv_ID fv)"
proof -
  have d': "d' = d\<lparr>file_versions := file_versions d @ [fv]\<rparr>" using assms(2) by (simp add: sql_insert_version_Inr)
  show "origin_ok d'" using assms(3) by (intro origin_grow [OF assms(1), of d' "[]"]) (auto simp: d')
  show "written_by d' (fv_CommitID fv) (fv_ID fv)" by (auto simp: d' written_by_def)
qed

lemma commit_files_loop_origin:
  assumes "origin_ok (w_db w)" "map_written (w_db w) cid m"
    and "\<exists>c \<in> set (commits (w_db w)). c_ID c = cid \<and> c_ProjectID c = p"
  shows "wp (commit_files_loop p cid now fs m hs) (\<lambda>r w'. origin_ok (w_db w') \<and> commits (w_db w') = commits (w_db w)
    \<and> (case r of Inl _ \<Rightarrow> True | Inr (m', _) \<Rightarrow> map_written (w_db w') cid m')) w"
  using assms
proof (induction fs arbitrary: m hs w)
  case Nil
  then show ?case by (simp add: wp_simps)
next
  case (Cons f fs)
  show ?case
    unfolding commit_files_loop.simps FileStore_Upsert_def FileStore_GetByPath_def FileStore_CreateVersion_def
  proof (intro wp_bindI wp_generateUUIDI wp_go_tryI wp_db_execI, goal_cases)
    case (1 fid w0 e w1)
    with Cons.prems show ?case by simp
  next
    case (2 fid w0 u w1)
    have up: "sql_upsert_file \<lparr>f_ID = fid, f_ProjectID = p, f_Path = ce_Path f, f_CreatedAt = now\<rparr> (w_db w)
        = Inr (u, w_db w1)"
      using 2 by simp
    have ok1: "origin_ok (w_db w1)" using Cons.prems(1) up by (rule origin_upsert_file)
    have c1: "commits (w_db w1) = commits (w_db w)" "file_versions (w_db w1) = file_versions (w_db w)"
      using up by (simp_all add: sql_upsert_file_Inr)
    show ?case
      unfolding sum.case
    proof (intro wp_go_tryI wp_db_queryI, goal_cases)
      case (1 e w2)
      with ok1 c1 show ?case by simp
    next
      case (2 row w2)
      have "row_at f_key (p, ce_Path f) (files (w_db w1)) = Some row" using 2(1) by (simp split: option.splits)
      then have row: "row \<in> set (files (w_db w1))" "f_ProjectID row = p"
        by (auto dest!: row_at_SomeD simp: f_key_def)
      show ?case
        unfolding sum.case
      proof (intro wp_bindI wp_generateUUIDI wp_go_tryI wp_db_execI, goal_cases)
        case (1 vid w3 e w4)
        with 2 ok1 c1 show ?case by simp
      next
        case (2 vid w3 y w4)
        let ?fv = "\<lparr>fv_ID = vid, fv_FileID = f_ID row, fv_CommitID = cid, fv_TotalSize = ce_TotalSize f,
          fv_ChunkCount = int (length (slice (ce_ChunkHashes f))), fv_ChunkHashes = ce_ChunkHashes f,
          fv_CreatedAt = now\<rparr>"
        let ?cf = "\<lparr>cf_CommitID = cid, cf_FileID = f_ID row, cf_FileVersionID = vid\<rparr>"
        have ins: "sql_insert_version ?fv (w_db w1) = Inr (y, w_db w4)"
          using 2 \<open>w_db w2 = w_db w1\<close> by simp
        have "\<exists>f \<in> set (files (w_db w1)). \<exists>c \<in> set (commits (w_db w1)).
            f_ID f = fv_FileID ?fv \<and> c_ID c = fv_CommitID ?fv \<and> f_ProjectID f = c_ProjectID c"
          using row Cons.prems(3) c1 by (intro bexI [of _ row]) auto
        note new = origin_insert_version [OF ok1 ins this]
        have ok4: "origin_ok (w_db w4)" "written_by (w_db w4) cid vid" using new by simp_all
        have c4: "commits (w_db w4) = commits (w_db w)" using ins c1 by (simp add: sql_insert_version_Inr)
        have "map_written (w_db w4) cid m"
          using Cons.prems(2) c4 by (rule map_written_mono) (use ins c1 in \<open>auto simp: sql_insert_version_Inr\<close>)
        then have "map_written (w_db w4) cid (AList.update (f_ID row) ?cf m)"
          by (rule map_written_update) (simp add: ok4)
        from Cons.IH [OF ok4(1) this] Cons.prems(3) c4 show ?case by simp
      qed
    qed
  qed
qed

text \<open>Writing a snapshot map whose versions are all written by ancestors.\<close>

lemma wp_SetCommitFiles_origin:
  assumes ok: "origin_ok (w_db w)" and m: "map_written (w_db w) cid m" and ks: "mset ks = mset (map fst m)"
    and post: "\<And>r w'. origin_ok (w_db w') \<Longrightarrow> Q r w'"
  shows "wp (CommitStore_SetCommitFiles cid (snapshot_rows cid m ks)) Q w"
proof -
  let ?rows = "map (\<lambda>e. \<lparr>cf_CommitID = cid, cf_FileID = cf_FileID e, cf_FileVersionID = cf_FileVersionID e\<rparr>)
    (snapshot_rows cid m ks)"
  have keys: "set ks = fst ` set m" using ks by (metis set_map set_mset_mset)
  have rows: "written_by (w_db w) (cf_CommitID cf) (cf_FileVersionID cf)" if "cf \<in> set ?rows" for cf
  proof -
    from that obtain k where k: "k \<in> set ks" "cf_CommitID cf = cid"
        "cf_FileVersionID cf = cf_FileVersionID (the (map_of m k))"
      by (auto simp: snapshot_rows_def)
    from k(1) keys obtain x where "map_of m k = Some x" by (metis domD dom_map_of_conv_image_fst)
    moreover from this have "(k, x) \<in> set m" by (rule map_of_SomeD)
    ultimately show ?thesis using m k by (auto simp: map_written_def)
  qed
  have "wp (db_exec (sql_upsert_commit_files ?rows)) Q w"
  proof (rule wp_db_execI)
    fix x and w' :: world
    assume up: "sql_upsert_commit_files ?rows (w_db w) = Inr (x, w_db w')"
    show "Q (Inr x) w'" by (rule post) (rule origin_upsert_commit_files [OF ok up rows])
  qed (simp add: post ok)
  then show ?thesis
    using ok by (auto simp: CommitStore_SetCommitFiles_def wp_simps intro!: post)
qed

lemma commit_finish_origin:
  assumes "origin_ok (w_db w)" "map_written (w_db w) cid m"
  shows "wp (commit_finish req cid now m hs) (\<lambda>_ w'. origin_ok (w_db w')) w"
  unfolding commit_finish_def
proof (intro wp_bindI wp_go_rangeI wp_go_tryI wp_SetCommitFiles_origin, goal_cases)
  case (4 ks w1 r w2)
  have count: "preserves same_history (go_try (count_chunks hs) e1 (\<lambda>_. go_try (advance_ref req cid now) e2 (\<lambda>_. ret x)))"
    for e1 e2 and x :: "CommitResult result"
    by (auto intro!: frame_intros same_history_statements)
  show ?case
    using 4 by (auto split: sum.splits intro!: wp_preserves [OF count] intro: same_history_origin)
qed (use assms in auto)

lemma parent_snapshot_cases:
  "(\<And>w' m. w_db w' = w_db w \<Longrightarrow> m = [] \<or> (\<exists>q. cr_ParentCommitID req = Some q \<and> m = snapshot_map (w_db w) q) \<Longrightarrow> Q m w') \<Longrightarrow>
    wp (parent_snapshot req) Q w"
  by (auto simp: parent_snapshot_def wp_simps snapshot_map_def split: option.splits)

lemma commit_write_origin:
  assumes ok: "origin_ok (w_db w)"
  shows "wp (commit_write req) (\<lambda>_ w'. origin_ok (w_db w')) w"
  unfolding commit_write_def Let_def CommitStore_Create_def
proof (intro wp_bindI wp_time_NowI wp_generateUUIDI wp_go_tryI wp_db_execI, goal_cases)
  case (1 now w1 cid w2 e w3)
  then show ?case using ok by simp
next
  case (2 now w1 cid w2 x w3)
  let ?c = "new_commit req cid now"
  have ins: "sql_insert_commit ?c (w_db w) = Inr (x, w_db w3)" using 2 by (simp add: new_commit_def)
  then have d3: "w_db w3 = (w_db w)\<lparr>commits := commits (w_db w) @ [?c]\<rparr>"
    and parent: "\<And>q. cr_ParentCommitID req = Some q \<Longrightarrow> q \<in> insert cid (c_ID ` set (commits (w_db w)))"
    by (auto simp: sql_insert_commit_Inr new_commit_def)
  have ok3: "origin_ok (w_db w3)"
    using ok by (rule origin_grow) (auto simp: d3 new_commit_def split: option.splits)
  have commit3: "\<exists>c \<in> set (commits (w_db w3)). c_ID c = cid \<and> c_ProjectID c = cr_ProjectID req"
    by (auto simp: d3 new_commit_def)
  show ?case
    unfolding sum.case
  proof (intro wp_bindI parent_snapshot_cases wp_go_tryI, goal_cases)
    case (1 w4 m)
    have "map_written (w_db w4) cid m"
      using 1(2)
    proof (elim disjE exE conjE)
      fix q
      assume q: "cr_ParentCommitID req = Some q" "m = snapshot_map (w_db w3) q"
      have "reaches (w_db w3) cid q"
        using parent [OF q(1)] q(1) by (auto simp: reaches_def parent_of_def d3 new_commit_def)
      with ok3 q(2) 1(1) show ?thesis by (simp add: map_written_snapshot_map)
    qed (simp add: map_written_def)
    with ok3 commit3 1(1) have "wp (commit_files_loop (cr_ProjectID req) cid now (cr_Files req) m [])
        (\<lambda>r w'. origin_ok (w_db w') \<and> commits (w_db w') = commits (w_db w4)
          \<and> (case r of Inl _ \<Rightarrow> True | Inr (m', _) \<Rightarrow> map_written (w_db w') cid m')) w4"
      by (intro commit_files_loop_origin) simp_all
    then show ?case
      by (rule wp_mono) (auto split: sum.splits intro: commit_finish_origin)
  qed
qed

lemma CreateCommit_origin:
  assumes "origin_ok (w_db w)"
  shows "wp (CreateCommit req) (\<lambda>_ w'. origin_ok (w_db w')) w"
  unfolding CreateCommit_def
  by (intro wp_go_tryI wp_verify_parent) (use assms in \<open>auto intro: commit_write_origin\<close>)

section \<open>A merge\<close>

lemma snap_written:
  assumes "origin_ok d" "distinct (map cf_key (commit_files d))" "snap d c f = Some v"
  shows "written_by d c v"
  using assms by (auto simp: origin_ok_def provenance_def snap_Some)

lemma merged_written:
  assumes ok: "origin_ok d" "schema_ok d" and m: "merging d p src tgt sh th base an"
    and valid: "validate_resolutions an rs = None"
    and v: "merged (snap d base) (snap d sh) (snap d th) rs f = Some v" "v \<noteq> []"
  shows "written_by d sh v \<or> written_by d th v"
proof -
  have keys: "distinct (map cf_key (commit_files d))" using ok(2) by (rule schema_okD)
  have "reaches d sh base"
    using m sql_merge_base_Some [of d sh th base] ok(2)
    by (auto simp: merging_def schema_okD reaches_def common_ancestor_def)
  then have base: "written_by d sh u" if "snap d base f = Some u" for u
    using snap_written [OF ok(1) keys that] by (rule written_by_reaches)
  have sides: "snap d sh f = Some u \<Longrightarrow> written_by d sh u" "snap d th f = Some u \<Longrightarrow> written_by d th u" for u
    using snap_written [OF ok(1) keys] by blast+
  have an: "analysis_ok d base sh th an" using m by (simp add: merging_def)
  show ?thesis
  proof (cases "differs (snap d base) (snap d sh) (snap d th) f")
    case True
    then have "ma_Type an = MergeTypeConflict" "resolved rs f = Some v"
      using analysis_resolutions(1) [OF an valid] v(1) by (auto simp: merged_def)
    from analysis_resolutions(4) [OF an valid this] v(2) base sides show ?thesis
      by (auto simp: opt_name_def split: option.splits)
  next
    case False
    with v(1) sides show ?thesis by (auto simp: merged_def split: if_splits)
  qed
qed

lemma head_local:
  assumes "db_ok d" "head_of d p n = Some h"
  shows "\<exists>c \<in> set (commits d). c_ID c = h \<and> c_ProjectID c = p"
proof -
  from assms(2) obtain r where r: "row_at r_key (p, n, ''branch'') (refs d) = Some r" "h = r_CommitID r"
    by (auto simp: head_of_def)
  from row_at_SomeD [OF r(1)] have "r \<in> set (refs d)" "r_ProjectID r = p" by (auto simp: r_key_def)
  with assms(1) r(2) show ?thesis by (force simp: db_ok_def history_ok_def refs_local_def)
qed

text \<open>A merge commit, whole or left behind.\<close>

lemma origin_merge:
  assumes ok: "origin_ok d" "db_ok d" "db_ok d'" and frame: "history_frame d d'"
    and m: "merging d p src tgt (r_CommitID s) (r_CommitID t) base an"
    and valid: "validate_resolutions an rs = None"
    and d': "commits d' = commits d @ [merge_row p src tgt u msg s t now cid]"
      "files d' = files d" "file_versions d' = file_versions d"
    and snap: "snap d' cid = Map.empty \<or>
      snap d' cid = merged (snap d base) (snap d (r_CommitID s)) (snap d (r_CommitID t)) rs"
  shows "origin_ok d'"
proof (rule origin_grow [OF ok(1) d'(1)])
  have sch: "schema_ok d" "schema_ok d'" using ok by (simp_all add: db_ok_def)
  have heads: "head_of d p src = Some (r_CommitID s)" "head_of d p tgt = Some (r_CommitID t)"
    using m by (simp_all add: merging_def)
  show "\<exists>c' \<in> set (commits d'). c_ID c' = q \<and> c_ProjectID c' = c_ProjectID c"
    if "c \<in> set [merge_row p src tgt u msg s t now cid]" "q \<in> set (tl (c_ParentIDs c))" for c q
    using that head_local [OF ok(2) heads(1)] by (auto simp: merge_row_def d'(1))
  fix cf
  assume cf: "cf \<in> set (commit_files d')"
  let ?c = "cf_CommitID cf" and ?v = "cf_FileVersionID cf"
  have keys: "distinct (map cf_key (commit_files d'))" "distinct (map cf_key (commit_files d))"
    using sch by (auto intro: schema_okD)
  from cf have v: "snap d' ?c (cf_FileID cf) = Some ?v" unfolding snap_Some [OF keys(1)] by blast
  have fk: "?c \<in> c_ID ` set (commits d')" "?v \<in> fv_ID ` set (file_versions d')"
    using sch(2) cf by (auto simp: schema_ok_def snapshots_ok_def)
  then have named: "?v \<noteq> []" using ok(3) by (auto simp: db_ok_def history_ok_def versions_named_def)
  have grow: "written_by d' c v" if "written_by d c v" for c v
    using written_by_mono [OF d'(1) _ that] d'(3) by simp
  show "written_by d' ?c ?v"
  proof (cases "?c \<in> c_ID ` set (commits d)")
    case True
    then have "snap d' ?c = snap d ?c" using frame by (auto simp: history_frame_def)
    then show ?thesis using v snap_written [OF ok(1) keys(2)] grow by simp
  next
    case False
    then have c: "?c = cid" using fk(1) by (auto simp: d'(1) merge_row_def)
    with v snap have "merged (snap d base) (snap d (r_CommitID s)) (snap d (r_CommitID t)) rs (cf_FileID cf) = Some ?v"
      by auto
    from merged_written [OF ok(1) sch(1) m valid this named]
    obtain x where x: "x \<in> {r_CommitID s, r_CommitID t}" "written_by d x ?v" by blast
    then have "x \<in> c_ID ` set (commits d)" using heads head_is_commit [OF sch(1)] by auto
    then have "reaches d' ?c x" using reaches_merge_row [OF d'(1) x(1)] c by simp
    then show ?thesis using grow [OF x(2)] by (rule written_by_reaches)
  qed
qed (use d' in simp_all)

lemma Execute_origin:
  assumes ok: "db_ok (w_db w)" and origin: "origin_ok (w_db w)"
  shows "wp (Execute p src tgt u msg rs) (\<lambda>_ w'. origin_ok (w_db w')) w"
proof (rule wp_Execute [OF ok], goal_cases)
  case (3 e w' sh th base an)
  from 3(7) obtain base an s t now cid where m: "merging (w_db w) p src tgt (r_CommitID s) (r_CommitID t) base an"
      "validate_resolutions an rs = None"
      "left_behind (w_db w) (merge_row p src tgt u msg s t now cid)
         (merged (snap (w_db w) base) (snap (w_db w) (r_CommitID s)) (snap (w_db w) (r_CommitID t)) rs) (w_db w')"
    unfolding merge_stopped_def by blast
  show ?case
  proof (cases "w_db w' = w_db w")
    case False
    with m(3) obtain rows where
      "w_db w' = (w_db w)\<lparr>commits := commits (w_db w) @ [merge_row p src tgt u msg s t now cid], commit_files := rows\<rparr>"
      "snap (w_db w') cid = Map.empty \<or> snap (w_db w') cid =
        merged (snap (w_db w) base) (snap (w_db w) (r_CommitID s)) (snap (w_db w) (r_CommitID t)) rs"
      by (auto simp: left_behind_def merge_row_def)
    then show ?thesis using 3 by (intro origin_merge [OF origin ok 3(1) 3(3) m(1,2)]) simp_all
  qed (use origin in simp)
next
  case (4 r w' rows sh th)
  then show ?case using origin by (auto intro: origin_cong)
next
  case (5 c w')
  then obtain base an s t now where m:
      "merging (w_db w) p src tgt (r_CommitID s) (r_CommitID t) base an" "validate_resolutions an rs = None"
      "commits (w_db w') = commits (w_db w) @ [merge_row p src tgt u msg s t now (c_ID c)]"
      "snap (w_db w') (c_ID c) = merged (snap (w_db w) base) (snap (w_db w) (r_CommitID s)) (snap (w_db w) (r_CommitID t)) rs"
      "files (w_db w') = files (w_db w)" "file_versions (w_db w') = file_versions (w_db w)"
    unfolding merge_done_def by blast
  show ?case
    by (rule origin_merge [OF origin ok 5(1) 5(3) m(1,2,3,5,6)]) (use m(4) in blast)
qed (use origin in simp_all)

end
