(* ===== verification/Deletion.thy ===== *)
theory Deletion
  imports Origin
begin

text \<open>
  Deleting a project: the cascade keeps every constraint and invariant, and, because content never
  crosses from one project to another without a parent that the foreign keys protect, a deletion
  that succeeds leaves the other projects as they are.
\<close>

section \<open>The history of the other projects is closed\<close>

text \<open>What a successful statement has checked, with the invariants.\<close>

definition deletable :: "string \<Rightarrow> db \<Rightarrow> bool" where
  "deletable pid d \<longleftrightarrow> db_ok d \<and> origin_ok d
     \<and> (\<forall>c \<in> set (commits d). c_ProjectID c \<noteq> pid \<longrightarrow> (\<forall>p. c_ParentID c = Some p \<longrightarrow> \<not> in_project pid d p))
     \<and> (\<forall>r \<in> set (refs d). r_ProjectID r \<noteq> pid \<longrightarrow> \<not> in_project pid d (r_CommitID r))"

lemma commit_unique:
  "schema_ok d \<Longrightarrow> c \<in> set (commits d) \<Longrightarrow> c' \<in> set (commits d) \<Longrightarrow> c_ID c = c_ID c' \<Longrightarrow> c = c'"
  using schema_okD(1) [of d] by (auto simp: distinct_map inj_on_def)

lemma file_unique:
  "schema_ok d \<Longrightarrow> f \<in> set (files d) \<Longrightarrow> f' \<in> set (files d) \<Longrightarrow> f_ID f = f_ID f' \<Longrightarrow> f = f'"
  using schema_okD(3) [of d] by (auto simp: distinct_map inj_on_def)

lemma version_unique:
  "schema_ok d \<Longrightarrow> v \<in> set (file_versions d) \<Longrightarrow> v' \<in> set (file_versions d) \<Longrightarrow> fv_ID v = fv_ID v' \<Longrightarrow> v = v'"
  using schema_okD(6) [of d] by (auto simp: distinct_map inj_on_def)

lemma in_project_commit:
  "schema_ok d \<Longrightarrow> c \<in> set (commits d) \<Longrightarrow> in_project pid d (c_ID c) \<longleftrightarrow> c_ProjectID c = pid"
  unfolding in_project_iff using commit_unique by metis

lemma file_in_project_file:
  "schema_ok d \<Longrightarrow> f \<in> set (files d) \<Longrightarrow> file_in_project pid d (f_ID f) \<longleftrightarrow> f_ProjectID f = pid"
  unfolding file_in_project_iff using file_unique by metis

lemma deletable_schema:
  assumes "deletable pid d"
  shows "schema_ok d" "history_ok d" "origin_ok d"
  using assms by (simp_all add: deletable_def db_ok_def)

lemma parents_outside:
  assumes del: "deletable pid d"
    and c: "c \<in> set (commits d)" "c_ProjectID c \<noteq> pid" "p \<in> set (c_ParentIDs c)"
  shows "\<not> in_project pid d p"
proof (cases "c_ParentIDs c")
  case (Cons q qs)
  have "c_ParentID c = Some q"
    using deletable_schema(2) [OF del] c(1) Cons by (auto simp: history_ok_def parent_compat_def)
  then have "\<not> in_project pid d q" using del c(1,2) by (auto simp: deletable_def)
  moreover have "\<not> in_project pid d p" if tail: "p \<in> set qs"
  proof -
    have "p \<in> set (tl (c_ParentIDs c))" using tail Cons by simp
    moreover have "merges_local d" using deletable_schema(3) [OF del] by (simp add: origin_ok_def)
    ultimately obtain c' where "c' \<in> set (commits d)" "c_ID c' = p" "c_ProjectID c' = c_ProjectID c"
      using c(1) unfolding merges_local_def by blast
    then show ?thesis using in_project_commit [OF deletable_schema(1) [OF del], of c' pid] c(2) by simp
  qed
  ultimately show ?thesis using c(3) Cons by auto
qed (use c in simp)

lemma edges_outside:
  assumes "deletable pid d" "(x, y) \<in> parent_of (commits d)" "\<not> in_project pid d x"
  shows "\<not> in_project pid d y"
proof -
  from assms(2) obtain c where c: "c \<in> set (commits d)" "c_ID c = x" "y \<in> set (c_ParentIDs c)"
    unfolding parent_of_def by blast
  then have "c_ProjectID c \<noteq> pid"
    using in_project_commit [OF deletable_schema(1) [OF assms(1)], of c pid] assms(3) by simp
  with c show ?thesis by (intro parents_outside [OF assms(1)])
qed

lemma ancestors_outside:
  assumes "deletable pid d" "reaches d x y" "\<not> in_project pid d x"
  shows "\<not> in_project pid d y"
  using assms(2,3) unfolding reaches_def
  by (induction rule: rtrancl_induct) (auto dest: edges_outside [OF assms(1)])

lemma version_outside:
  assumes "deletable pid d" "fv \<in> set (file_versions d)" "\<not> in_project pid d (fv_CommitID fv)"
  shows "\<not> version_in_project pid d fv"
proof -
  note sch = deletable_schema [OF assms(1)]
  have "versions_local d" using sch(3) by (simp add: origin_ok_def)
  then obtain f c where fc: "f \<in> set (files d)" "c \<in> set (commits d)" "f_ID f = fv_FileID fv"
      "c_ID c = fv_CommitID fv" "f_ProjectID f = c_ProjectID c"
    using assms(2) unfolding versions_local_def by blast
  then have "c_ProjectID c \<noteq> pid" using assms(3) in_project_commit [OF sch(1), of c pid] by simp
  then have "\<not> file_in_project pid d (fv_FileID fv)" using fc file_in_project_file [OF sch(1), of f pid] by simp
  with assms(3) show ?thesis by (simp add: version_in_project_def)
qed

text \<open>A snapshot row goes exactly when its commit goes.\<close>

lemma row_version:
  assumes del: "deletable pid d" and cf: "cf \<in> set (commit_files d)" "\<not> in_project pid d (cf_CommitID cf)"
  obtains fv where "fv \<in> set (file_versions d)" "fv_ID fv = cf_FileVersionID cf" "fv_FileID fv = cf_FileID cf"
    "reaches d (cf_CommitID cf) (fv_CommitID fv)" "\<not> version_in_project pid d fv"
proof -
  note sch = deletable_schema [OF del]
  have "provenance d" "snapshot_typed d" using sch(2,3) by (simp_all add: origin_ok_def history_ok_def)
  then obtain fv fv' where fv: "fv \<in> set (file_versions d)" "fv_ID fv = cf_FileVersionID cf"
      "reaches d (cf_CommitID cf) (fv_CommitID fv)"
    and fv': "fv' \<in> set (file_versions d)" "fv_ID fv' = cf_FileVersionID cf" "fv_FileID fv' = cf_FileID cf"
    using cf(1) unfolding provenance_def snapshot_typed_def written_by_def by blast
  have "fv = fv'" using fv fv' version_unique [OF sch(1)] by simp
  then show ?thesis
    using that [of fv] fv fv' version_outside [OF del fv(1)] ancestors_outside [OF del fv(3) cf(2)] by simp
qed

lemma row_in_project_commit:
  assumes del: "deletable pid d" and "cf \<in> set (commit_files d)"
  shows "row_in_project pid d cf \<longleftrightarrow> in_project pid d (cf_CommitID cf)"
proof (cases "in_project pid d (cf_CommitID cf)")
  case False
  with assms obtain fv where fv: "fv \<in> set (file_versions d)" "fv_ID fv = cf_FileVersionID cf"
      "fv_FileID fv = cf_FileID cf" "\<not> version_in_project pid d fv"
    by (rule row_version)
  have "v = fv" if "v \<in> set (file_versions d)" "fv_ID v = cf_FileVersionID cf" for v
    using that fv version_unique [OF deletable_schema(1) [OF del]] by simp
  then have "\<not> list_ex (\<lambda>v. fv_ID v = cf_FileVersionID cf \<and> version_in_project pid d v) (file_versions d)"
    using fv(4) by (auto simp: list_ex_iff)
  with fv False show ?thesis by (simp add: row_in_project_def version_in_project_def)
qed (simp add: row_in_project_def)

section \<open>The state after a deletion\<close>

lemma cascade_fields [simp]:
  "users (cascade_project pid d) = users d" "chunks (cascade_project pid d) = chunks d"
  "projects (cascade_project pid d) = filter (\<lambda>p. p_ID p \<noteq> pid) (projects d)"
  "commits (cascade_project pid d) = filter (\<lambda>c. c_ProjectID c \<noteq> pid) (commits d)"
  "refs (cascade_project pid d) = filter (\<lambda>r. r_ProjectID r \<noteq> pid) (refs d)"
  "files (cascade_project pid d) = filter (\<lambda>f. f_ProjectID f \<noteq> pid) (files d)"
  "file_versions (cascade_project pid d) = filter (\<lambda>fv. \<not> version_in_project pid d fv) (file_versions d)"
  "commit_files (cascade_project pid d) = filter (\<lambda>cf. \<not> row_in_project pid d cf) (commit_files d)"
  "locks (cascade_project pid d) = filter (\<lambda>l. l_ProjectID l \<noteq> pid) (locks d)"
  by (simp_all add: cascade_project_def)

lemma commit_stays: "x \<in> c_ID ` set (commits d) \<Longrightarrow> \<not> in_project pid d x \<Longrightarrow>
    x \<in> c_ID ` set (commits (cascade_project pid d))"
  by (auto simp: in_project_iff)

lemma file_stays: "x \<in> f_ID ` set (files d) \<Longrightarrow> \<not> file_in_project pid d x \<Longrightarrow>
    x \<in> f_ID ` set (files (cascade_project pid d))"
  by (auto simp: file_in_project_iff)

lemma distinct_filter_key: "distinct (map key xs) \<Longrightarrow> distinct (map key (filter P xs))"
  by (induction xs) auto

lemma cascade_schema:
  assumes "deletable pid d"
  shows "schema_ok (cascade_project pid d)"
proof -
  let ?d = "cascade_project pid d"
  have sch: "schema_ok d" using assms by (simp add: deletable_def db_ok_def)
  then have parts: "users_ok d" "projects_ok d" "chunks_ok d" "commits_ok d" "refs_ok d" "files_ok d"
    "versions_ok d" "snapshots_ok d" "locks_ok d"
    by (simp_all add: schema_ok_def)
  have "users_ok ?d" "chunks_ok ?d" "projects_ok ?d" "files_ok ?d" "locks_ok ?d"
    using parts(1,2,3,6,9) by (auto simp: table_ok_defs distinct_filter_key)
  moreover have "commits_ok ?d"
    unfolding commits_ok_def
  proof (intro conjI ballI allI impI)
    fix c p
    assume c: "c \<in> set (commits ?d)" "c_ParentID c = Some p"
    then have "p \<in> c_ID ` set (commits d)" using parts(4) by (auto simp: commits_ok_def)
    moreover have "\<not> in_project pid d p" using assms c by (auto simp: deletable_def)
    ultimately show "p \<in> c_ID ` set (commits ?d)" by (rule commit_stays)
  qed (use parts(4) in \<open>auto simp: commits_ok_def distinct_filter_key\<close>)
  moreover have "refs_ok ?d"
    unfolding refs_ok_def
  proof (intro conjI ballI)
    show "r_CommitID ` set (refs ?d) \<subseteq> c_ID ` set (commits ?d)"
    proof
      fix x
      assume "x \<in> r_CommitID ` set (refs ?d)"
      then have "x \<in> c_ID ` set (commits d)" "\<not> in_project pid d x"
        using assms parts(5) by (auto simp: deletable_def refs_ok_def)
      then show "x \<in> c_ID ` set (commits ?d)" by (rule commit_stays)
    qed
  qed (use parts(5) in \<open>auto simp: refs_ok_def distinct_filter_key\<close>)
  moreover have "versions_ok ?d"
    unfolding versions_ok_def
    using parts(7) commit_stays [of _ d pid] file_stays [of _ d pid]
    by (auto simp: versions_ok_def distinct_filter_key version_in_project_def)
  moreover have "snapshots_ok ?d"
    unfolding snapshots_ok_def
    using parts(8) commit_stays [of _ d pid] file_stays [of _ d pid]
    by (auto simp: snapshots_ok_def distinct_filter_key row_in_project_def list_ex_iff)
  ultimately show ?thesis by (simp add: schema_ok_def)
qed

lemma parents_before_filter:
  assumes "parents_before seen cs" "\<And>x. x \<in> seen \<Longrightarrow> x \<in> seen' \<or> R x"
    "\<And>c. c \<in> set cs \<Longrightarrow> P c \<or> R (c_ID c)"
    "\<And>c p. c \<in> set cs \<Longrightarrow> P c \<Longrightarrow> p \<in> set (c_ParentIDs c) \<Longrightarrow> \<not> R p"
  shows "parents_before seen' (filter P cs)"
  using assms
proof (induction cs arbitrary: seen seen')
  case Nil
  then show ?case by simp
next
  case (Cons c cs)
  show ?case
  proof (cases "P c")
    case True
    have "parents_before (insert (c_ID c) seen') (filter P cs)"
      by (rule Cons.IH [of "insert (c_ID c) seen"]) (use Cons.prems in auto)
    moreover have "set (c_ParentIDs c) \<subseteq> insert (c_ID c) seen'"
      using Cons.prems(1,2,4) True by fastforce
    ultimately show ?thesis using True by simp
  next
    case False
    then have "R (c_ID c)" using Cons.prems(3) by auto
    have "parents_before seen' (filter P cs)"
      by (rule Cons.IH [of "insert (c_ID c) seen"]) (use Cons.prems \<open>R (c_ID c)\<close> in auto)
    with False show ?thesis by simp
  qed
qed

lemma cascade_history:
  assumes del: "deletable pid d"
  shows "history_ok (cascade_project pid d)"
proof -
  let ?d = "cascade_project pid d"
  note sch = deletable_schema [OF del]
  have h: "parents_before {} (commits d)" "\<forall>c \<in> set (commits d). parent_compat c" "snapshot_typed d"
      "refs_local d" "versions_named d"
    using sch(2) by (simp_all add: history_ok_def)
  have "parents_before {} (commits ?d)"
    unfolding cascade_fields
    by (rule parents_before_filter [OF h(1), where R = "in_project pid d"])
      (use parents_outside [OF del] in_project_commit [OF sch(1)] in auto)
  moreover have "snapshot_typed ?d"
    unfolding snapshot_typed_def
  proof
    fix cf
    assume "cf \<in> set (commit_files ?d)"
    then have cf: "cf \<in> set (commit_files d)" "\<not> in_project pid d (cf_CommitID cf)"
      by (auto simp: row_in_project_commit [OF del])
    then obtain fv where "fv \<in> set (file_versions d)" "fv_ID fv = cf_FileVersionID cf"
        "fv_FileID fv = cf_FileID cf" "\<not> version_in_project pid d fv"
      by (rule row_version [OF del])
    then show "\<exists>fv \<in> set (file_versions ?d). fv_ID fv = cf_FileVersionID cf \<and> fv_FileID fv = cf_FileID cf"
      by auto
  qed
  moreover have "refs_local ?d" using h(4) by (fastforce simp: refs_local_def)
  ultimately show ?thesis using h by (simp add: history_ok_def versions_named_def)
qed

lemma reaches_cascade:
  assumes del: "deletable pid d" and "reaches d x y" "\<not> in_project pid d x"
  shows "reaches (cascade_project pid d) x y"
  using assms(2,3) unfolding reaches_def
proof (induction rule: rtrancl_induct)
  case (step y z)
  have y: "\<not> in_project pid d y" "\<not> in_project pid d z"
    using ancestors_outside [OF del _ step.prems] step.hyps by (auto simp: reaches_def intro: rtrancl_into_rtrancl)
  then have "(y, z) \<in> parent_of (commits (cascade_project pid d))"
    using step.hyps(2) in_project_commit [OF deletable_schema(1) [OF del]] by (fastforce simp: parent_of_def)
  with step show ?case by (meson rtrancl.rtrancl_into_rtrancl)
qed simp

lemma cascade_origin:
  assumes del: "deletable pid d"
  shows "origin_ok (cascade_project pid d)"
  unfolding origin_ok_def
proof (intro conjI)
  let ?d = "cascade_project pid d"
  note sch = deletable_schema [OF del]
  have o: "merges_local d" "versions_local d" using sch(3) by (simp_all add: origin_ok_def)
  show "merges_local ?d" using o(1) by (fastforce simp: merges_local_def)
  show "versions_local ?d"
    unfolding versions_local_def
  proof
    fix fv
    assume "fv \<in> set (file_versions ?d)"
    then have fv: "fv \<in> set (file_versions d)" "\<not> in_project pid d (fv_CommitID fv)"
      by (auto simp: version_in_project_def)
    with o(2) obtain f c where "f \<in> set (files d)" "c \<in> set (commits d)" "f_ID f = fv_FileID fv"
        "c_ID c = fv_CommitID fv" "f_ProjectID f = c_ProjectID c"
      unfolding versions_local_def by blast
    moreover from this have "c_ProjectID c \<noteq> pid" using fv(2) in_project_commit [OF sch(1)] by metis
    ultimately show "\<exists>f \<in> set (files ?d). \<exists>c \<in> set (commits ?d).
        f_ID f = fv_FileID fv \<and> c_ID c = fv_CommitID fv \<and> f_ProjectID f = c_ProjectID c"
      by (intro bexI [of _ f] bexI [of _ c]) simp_all
  qed
  show "provenance ?d"
    unfolding provenance_def
  proof
    fix cf
    assume "cf \<in> set (commit_files ?d)"
    then have cf: "cf \<in> set (commit_files d)" "\<not> in_project pid d (cf_CommitID cf)"
      by (auto simp: row_in_project_commit [OF del])
    then obtain fv where "fv \<in> set (file_versions d)" "fv_ID fv = cf_FileVersionID cf"
        "reaches d (cf_CommitID cf) (fv_CommitID fv)" "\<not> version_in_project pid d fv"
      by (rule row_version [OF del])
    then show "written_by ?d (cf_CommitID cf) (cf_FileVersionID cf)"
      unfolding written_by_def using reaches_cascade [OF del _ cf(2)]
      by (intro bexI [of _ fv]) simp_all
  qed
qed

section \<open>The statement\<close>

lemma delete_project_deletable:
  assumes "db_ok d" "origin_ok d" "sql_delete_project pid d = Inr (x, d')"
  shows "d' = d \<and> pid \<notin> p_ID ` set (projects d) \<or> d' = cascade_project pid d \<and> deletable pid d"
  using assms by (auto simp: sql_delete_project_Inr deletable_def split: if_splits)

lemma delete_project_ok:
  assumes "db_ok d" "origin_ok d" "sql_delete_project pid d = Inr (x, d')"
  shows "db_ok d'" "origin_ok d'"
  using delete_project_deletable [OF assms] cascade_schema cascade_history cascade_origin assms(1,2)
  by (auto simp: db_ok_def)

lemma delete_project_snap:
  assumes "db_ok d" "origin_ok d" "sql_delete_project pid d = Inr (x, d')" "\<not> in_project pid d c"
  shows "snap d' c = snap d c"
  using delete_project_deletable [OF assms(1-3)]
proof
  assume del: "d' = cascade_project pid d \<and> deletable pid d"
  have eq: "filter (\<lambda>cf. \<not> row_in_project pid d cf) (commit_files d) =
      filter (\<lambda>cf. \<not> in_project pid d (cf_CommitID cf)) (commit_files d)"
    by (rule filter_cong) (use row_in_project_commit del in auto)
  have "row_at cf_key (c, f) (filter (\<lambda>cf. \<not> in_project pid d (cf_CommitID cf)) (commit_files d)) =
      row_at cf_key (c, f) (commit_files d)" for f
    by (rule row_at_filter_key) (use assms(4) in \<open>auto simp: cf_key_def\<close>)
  with del eq show ?thesis by (simp add: snap_def fun_eq_iff)
qed simp

lemma delete_project_heads:
  assumes "sql_delete_project pid d = Inr (x, d')" "p \<noteq> pid"
  shows "head_of d' p n = head_of d p n"
  using assms row_at_filter_key [of r_key "(p, n, ''branch'')" "\<lambda>r. r_ProjectID r \<noteq> pid" "refs d"]
  by (auto simp: sql_delete_project_Inr head_of_def r_key_def split: if_splits)

lemma delete_project_manifest:
  assumes ok: "db_ok d" "origin_ok d" and run: "sql_delete_project pid d = Inr (x, d')" and c: "\<not> in_project pid d c"
  shows "manifest d' p c path = manifest d p c path"
  using delete_project_deletable [OF ok run]
proof
  assume "d' = cascade_project pid d \<and> deletable pid d"
  then have d': "d' = cascade_project pid d" and del: "deletable pid d" by simp_all
  note sch = deletable_schema [OF del]
  have snap: "snap d' c = snap d c" by (rule delete_project_snap [OF ok run c])
  have known: "\<not> file_in_project pid d f \<and> version_manifest d' v = version_manifest d v" if "snap d c f = Some v" for f v
  proof -
    have "distinct (map cf_key (commit_files d))" using schema_okD [OF sch(1)] by blast
    with that obtain cf where cf: "cf \<in> set (commit_files d)" "cf_CommitID cf = c" "cf_FileID cf = f" "cf_FileVersionID cf = v"
      by (auto simp: snap_Some)
    then obtain fv where fv: "fv \<in> set (file_versions d)" "fv_ID fv = v" "fv_FileID fv = f" "\<not> version_in_project pid d fv"
      using row_version [OF del cf(1)] c by metis
    have dist: "distinct (map fv_ID (file_versions d))" using schema_okD [OF sch(1)] by blast
    then have row: "row_at fv_ID v (file_versions d) = Some fv" using fv(1,2) row_at_unique by metis
    then have "row_at fv_ID v (file_versions d') = Some fv"
      unfolding d' cascade_fields using fv(4) by (rule row_at_filter)
    with row fv show ?thesis by (simp add: version_manifest_def version_in_project_def)
  qed
  show ?thesis
  proof (cases "p = pid")
    case False
    then have "row_at f_key (p, path) (files d') = row_at f_key (p, path) (files d)"
      unfolding d' cascade_fields by (intro row_at_filter_key) (auto simp: f_key_def)
    then show ?thesis
      using known by (auto simp: manifest_def manifest_by_def snap intro!: bind_option_cong)
  next
    case True
    have gone: "row_at f_key (p, path) (files d') = None"
      unfolding d' cascade_fields row_at_None using True by (auto simp: f_key_def)
    have "snap d c (f_ID f) = None" if "row_at f_key (p, path) (files d) = Some f" for f
    proof -
      have "f \<in> set (files d) \<and> f_key f = (p, path)" using row_at_SomeD [OF that] .
      then have "file_in_project pid d (f_ID f)" using True by (auto simp: file_in_project_iff f_key_def)
      then show ?thesis using known by (cases "snap d c (f_ID f)") auto
    qed
    with gone show ?thesis
      by (cases "row_at f_key (p, path) (files d)") (simp_all add: manifest_def manifest_by_def)
  qed
qed simp

end
