(* ===== verification/Project_Service.thy ===== *)
theory Project_Service
  imports Project_Store Http
begin

text \<open>\<^verbatim>\<open>internal/service/project.go\<close> and \<^verbatim>\<open>internal/handler/project.go\<close>.\<close>

section \<open>Service\<close>

definition ProjectService_Create :: "string \<Rightarrow> string \<Rightarrow> string \<Rightarrow> Project result io" where
  "ProjectService_Create name description userID = do {
     now \<leftarrow> time_Now;
     projectID \<leftarrow> generateUUID;
     let p = \<lparr>p_ID = projectID, p_Name = name, p_Description = description, p_CreatedBy = userID,
       p_CreatedAt = now, p_UpdatedAt = now\<rparr>;
     go_try (ProjectStore_Create p) (\<lambda>_. ErrProjectExists) (\<lambda>_. ret (Inr p))
   }"

definition ProjectService_Get :: "string \<Rightarrow> Project result io" where
  "ProjectService_Get pid =
     go_try (ProjectStore_GetByID pid) (\<lambda>_. ErrProjectNotFound) (\<lambda>p. ret (Inr p))"

definition ProjectService_List :: "string \<Rightarrow> Project list result io" where
  "ProjectService_List userID = ProjectStore_ListByUser userID"

definition ProjectService_Delete :: "string \<Rightarrow> unit result io" where
  "ProjectService_Delete pid = ProjectStore_Delete pid"

section \<open>Handlers\<close>

record CreateProjectRequest =
  cp_Name :: string
  cp_Description :: string

definition ProjectHandler_Create :: "string \<Rightarrow> CreateProjectRequest option \<Rightarrow> Project reply io" where
  "ProjectHandler_Create userID body = (case body of
     None \<Rightarrow> writeErrorJSON StatusBadRequest ''INVALID_REQUEST'' ''Invalid JSON body''
   | Some req \<Rightarrow>
       if cp_Name req = ''''
       then writeErrorJSON StatusBadRequest ''MISSING_FIELDS'' ''name is required''
       else reply_result (ProjectService_Create (cp_Name req) (cp_Description req) userID)
         (\<lambda>err. if errors_Is err ErrProjectExists
           then writeErrorJSON StatusConflict ''PROJECT_EXISTS'' ''Project name already exists''
           else writeErrorJSON StatusInternalServerError ''INTERNAL_ERROR'' ''Failed to create project'')
         (\<lambda>p. writeJSON StatusCreated p))"

definition ProjectHandler_List :: "string \<Rightarrow> Project list reply io" where
  "ProjectHandler_List userID = reply_result (ProjectService_List userID)
     (\<lambda>_. writeErrorJSON StatusInternalServerError ''INTERNAL_ERROR'' ''Failed to list projects'')
     (\<lambda>ps. writeJSON StatusOK ps)"

definition ProjectHandler_Get :: "string \<Rightarrow> Project reply io" where
  "ProjectHandler_Get projectID = reply_result (ProjectService_Get projectID)
     (\<lambda>err. if errors_Is err ErrProjectNotFound
       then writeErrorJSON StatusNotFound ''PROJECT_NOT_FOUND'' ''Project not found''
       else writeErrorJSON StatusInternalServerError ''INTERNAL_ERROR'' ''Failed to get project'')
     (\<lambda>p. writeJSON StatusOK p)"

definition ProjectHandler_Delete :: "string \<Rightarrow> string reply io" where
  "ProjectHandler_Delete projectID = reply_result (ProjectService_Delete projectID)
     (\<lambda>_. writeErrorJSON StatusInternalServerError ''INTERNAL_ERROR'' ''Failed to delete project'')
     (\<lambda>_. writeJSON StatusOK ''deleted'')"

section \<open>Creating a project\<close>

lemma wp_ProjectService_Create:
  assumes err: "\<And>w'. w_db w' = w_db w \<Longrightarrow> same_env w w' \<Longrightarrow>
      (no_faults w \<Longrightarrow> \<exists>p. p_Name p = name \<and> p_CreatedBy p = u \<and> \<not> (\<exists>d'. sql_insert_project p (w_db w) = Inr ((), d'))) \<Longrightarrow>
      Q (Inl ErrProjectExists) w'"
    and don: "\<And>p w'. sql_insert_project p (w_db w) = Inr ((), w_db w') \<Longrightarrow> same_env w w' \<Longrightarrow>
      p_Name p = name \<Longrightarrow> p_Description p = descr \<Longrightarrow> p_CreatedBy p = u \<Longrightarrow> Q (Inr p) w'"
  shows "wp (ProjectService_Create name descr u) Q w"
  unfolding ProjectService_Create_def Let_def ProjectStore_Create_def
proof (intro wp_bindI wp_time_NowI wp_generateUUIDI wp_go_tryI wp_db_execI, goal_cases)
  case (1 now w1 pid w2 e w3)
  let ?p = "\<lparr>p_ID = pid, p_Name = name, p_Description = descr, p_CreatedBy = u, p_CreatedAt = now, p_UpdatedAt = now\<rparr>"
  have env: "same_env w w3" "w_db w3 = w_db w" using 1 by (auto intro: same_env_trans)
  have "\<not> (\<exists>d'. sql_insert_project ?p (w_db w) = Inr ((), d'))" if "no_faults w"
    using 1 that by (simp add: same_env_no_faults)
  then have "Q (Inl ErrProjectExists) w3"
    using env by (intro err) (auto intro!: exI [of _ ?p])
  then show ?case by simp
next
  case (2 now w1 pid w2 x w3)
  then show ?case by (auto simp: wp_simps intro!: don intro: same_env_trans)
qed

end
