(* ===== verification/User_Store.thy ===== *)
theory User_Store
  imports Schema
begin

text \<open>\<^verbatim>\<open>internal/store/postgres/user.go\<close>: the accounts. No statement of the server deletes one.\<close>

section \<open>Statements and methods\<close>

definition sql_insert_user :: "User \<Rightarrow> db \<Rightarrow> error + unit \<times> db" where
  "sql_insert_user u d =
     (if 64 < char_count (u_Username u) \<or> 256 < char_count (u_Email u) \<or> 32 < char_count (u_Role u)
        then Inl (Violation ''value too long'')
      else if u_ID u \<in> u_ID ` set (users d) then Inl (Violation ''users_pkey'')
      else if u_Username u \<in> u_Username ` set (users d) then Inl (Violation ''users_username_key'')
      else if u_Email u \<in> u_Email ` set (users d) then Inl (Violation ''users_email_key'')
      else Inr ((), d\<lparr>users := users d @ [u]\<rparr>))"

definition UserStore_Create :: "User \<Rightarrow> unit result io" where
  "UserStore_Create u = db_exec (sql_insert_user u)"

definition UserStore_GetByUsername :: "string \<Rightarrow> User result io" where
  "UserStore_GetByUsername username = db_query (\<lambda>d.
     case row_at u_Username username (users d) of None \<Rightarrow> Inl ErrNoRows | Some u \<Rightarrow> Inr u)"

definition UserStore_GetByID :: "string \<Rightarrow> User result io" where
  "UserStore_GetByID uid = db_query (\<lambda>d.
     case row_at u_ID uid (users d) of None \<Rightarrow> Inl ErrNoRows | Some u \<Rightarrow> Inr u)"

lemmas user_store_calls [wp_simps] = UserStore_GetByUsername_def UserStore_GetByID_def

section \<open>Effects and invariants\<close>

lemma sql_insert_user_Inr:
  "sql_insert_user u d = Inr (x, d') \<longleftrightarrow>
    d' = d\<lparr>users := users d @ [u]\<rparr> \<and> u_ID u \<notin> u_ID ` set (users d)
    \<and> u_Username u \<notin> u_Username ` set (users d) \<and> u_Email u \<notin> u_Email ` set (users d)
    \<and> char_count (u_Username u) \<le> 64 \<and> char_count (u_Email u) \<le> 256 \<and> char_count (u_Role u) \<le> 32"
  by (auto simp: sql_insert_user_def)

lemma insert_user_ok:
  assumes "db_ok d" "sql_insert_user u d = Inr (x, d')"
  shows "db_ok d'"
proof -
  have d': "d' = d\<lparr>users := users d @ [u]\<rparr>" and u: "u_ID u \<notin> u_ID ` set (users d)"
    "u_Username u \<notin> u_Username ` set (users d)" "u_Email u \<notin> u_Email ` set (users d)"
    using assms(2) by (auto simp: sql_insert_user_Inr)
  have parts: "users_ok d" "projects_ok d" "commits_ok d" "locks_ok d"
    using assms(1) by (simp_all add: db_ok_def schema_ok_def)
  have "users_ok d'" "projects_ok d'" "commits_ok d'" "locks_ok d'"
    using parts u unfolding d' table_ok_defs by auto
  with assms(1) show ?thesis
    unfolding db_ok_def schema_ok_def d' by (simp add: table_ok_defs history_defs)
qed

lemma user_found:
  "users_ok d \<Longrightarrow> u \<in> set (users d) \<Longrightarrow>
    row_at u_Username (u_Username u) (users d) = Some u \<and> row_at u_ID (u_ID u) (users d) = Some u"
  by (simp add: users_ok_def row_at_unique)

lemma keeps_user_store [keeps_intros]:
  "keeps db_ok (UserStore_Create u)" "keeps I (UserStore_GetByUsername n)" "keeps I (UserStore_GetByID i)"
  unfolding UserStore_Create_def UserStore_GetByUsername_def UserStore_GetByID_def
  by (auto intro: keeps_db_query keeps_db_exec insert_user_ok)

end
