(* ===== verification/Config.thy ===== *)
theory Config
  imports Strconv World
begin

text \<open>
  \<^verbatim>\<open>internal/config/config.go\<close>: the configuration read from the environment. \<open>os.Getenv\<close> is a
  function from names to text, with the empty text for a variable that is not set; durations are
  nanoseconds.
\<close>

section \<open>The configuration\<close>

record ServerConfig =
  sc_Host :: string
  sc_Port :: int

definition Addr :: "ServerConfig \<Rightarrow> string" where
  "Addr s = sc_Host s @ '':'' @ show_int (sc_Port s)"

record DatabaseConfig =
  dc_Host :: string
  dc_Port :: int
  dc_Name :: string
  dc_User :: string
  dc_Password :: string
  dc_MaxConns :: int

definition DSN :: "DatabaseConfig \<Rightarrow> string" where
  "DSN d = ''postgres://'' @ dc_User d @ '':'' @ dc_Password d @ ''@'' @ dc_Host d @ '':'' @
     show_int (dc_Port d) @ ''/'' @ dc_Name d @ ''?sslmode=disable''"

record MinIOConfig =
  mn_Endpoint :: string
  mn_AccessKey :: string
  mn_SecretKey :: string
  mn_UseSSL :: bool
  mn_ChunkBucket :: string

record AuthConfig =
  ac_JWTSecret :: string
  ac_AccessTokenTTL :: int
  ac_RefreshTokenTTL :: int

record ChunkConfig =
  kc_MaxSize :: int
  kc_UploadConcurrency :: int
  kc_DownloadConcurrency :: int

record Config =
  cfg_Server :: ServerConfig
  cfg_Database :: DatabaseConfig
  cfg_MinIO :: MinIOConfig
  cfg_Auth :: AuthConfig
  cfg_Chunks :: ChunkConfig

section \<open>Reading it\<close>

type_synonym env = "string \<Rightarrow> string"

definition envStr :: "env \<Rightarrow> string \<Rightarrow> string \<Rightarrow> string" where
  "envStr getenv key fallback = (let v = getenv key in if v \<noteq> '''' then v else fallback)"

definition envInt :: "env \<Rightarrow> string \<Rightarrow> int \<Rightarrow> int" where
  "envInt getenv key fallback = (let v = getenv key in
     if v \<noteq> '''' then let (i, ok) = strconv_Atoi v in if ok then i else fallback else fallback)"

text \<open>\<open>strconv.ParseInt(v, 10, 64)\<close> is \<open>strconv.Atoi\<close> where an \<open>int\<close> has 64 bits.\<close>

definition envInt64 :: "env \<Rightarrow> string \<Rightarrow> int \<Rightarrow> int" where
  "envInt64 getenv key fallback = (let v = getenv key in
     if v \<noteq> '''' then let (i, ok) = strconv_Atoi v in if ok then i else fallback else fallback)"

definition envBool :: "env \<Rightarrow> string \<Rightarrow> bool \<Rightarrow> bool" where
  "envBool getenv key fallback = (let v = getenv key in
     if v \<noteq> '''' then case ParseBool v of Some b \<Rightarrow> b | None \<Rightarrow> fallback else fallback)"

definition envDuration :: "fscale \<Rightarrow> env \<Rightarrow> string \<Rightarrow> int \<Rightarrow> int" where
  "envDuration fscale getenv key fallback = (let v = getenv key in
     if v \<noteq> '''' then case ParseDuration fscale v of Some d \<Rightarrow> d | None \<Rightarrow> fallback else fallback)"

definition Second :: int where "Second = 10 ^ 9"
definition Minute :: int where "Minute = 60 * Second"
definition Hour :: int where "Hour = 60 * Minute"

definition validate :: "Config \<Rightarrow> unit result" where
  "validate c =
     (if dc_Password (cfg_Database c) = '''' then Inl (NewError ''STRATA_DB_PASSWORD is required'')
      else if ac_JWTSecret (cfg_Auth c) = ''''
        then Inl (NewError ''STRATA_JWT_SECRET is required (generate with: openssl rand -hex 32)'')
      else if length (ac_JWTSecret (cfg_Auth c)) < 32
        then Inl (NewError ''STRATA_JWT_SECRET must be at least 32 characters'')
      else Inr ())"

definition read_config :: "fscale \<Rightarrow> env \<Rightarrow> Config" where
  "read_config fscale getenv =
     \<lparr>cfg_Server = \<lparr>sc_Host = envStr getenv ''STRATA_HOST'' ''0.0.0.0'',
        sc_Port = envInt getenv ''STRATA_PORT'' 8080\<rparr>,
      cfg_Database = \<lparr>dc_Host = envStr getenv ''STRATA_DB_HOST'' ''localhost'',
        dc_Port = envInt getenv ''STRATA_DB_PORT'' 5432,
        dc_Name = envStr getenv ''STRATA_DB_NAME'' ''strata'',
        dc_User = envStr getenv ''STRATA_DB_USER'' ''strata'',
        dc_Password = envStr getenv ''STRATA_DB_PASSWORD'' '''',
        dc_MaxConns = envInt getenv ''STRATA_DB_MAX_CONNS'' 25\<rparr>,
      cfg_MinIO = \<lparr>mn_Endpoint = envStr getenv ''STRATA_MINIO_ENDPOINT'' ''localhost:9000'',
        mn_AccessKey = envStr getenv ''STRATA_MINIO_ACCESS_KEY'' ''minioadmin'',
        mn_SecretKey = envStr getenv ''STRATA_MINIO_SECRET_KEY'' ''minioadmin'',
        mn_UseSSL = envBool getenv ''STRATA_MINIO_USE_SSL'' False,
        mn_ChunkBucket = envStr getenv ''STRATA_MINIO_CHUNK_BUCKET'' ''chunks''\<rparr>,
      cfg_Auth = \<lparr>ac_JWTSecret = envStr getenv ''STRATA_JWT_SECRET'' '''',
        ac_AccessTokenTTL = envDuration fscale getenv ''STRATA_ACCESS_TOKEN_TTL'' (15 * Minute),
        ac_RefreshTokenTTL = envDuration fscale getenv ''STRATA_REFRESH_TOKEN_TTL'' (30 * 24 * Hour)\<rparr>,
      cfg_Chunks = \<lparr>kc_MaxSize = envInt64 getenv ''STRATA_MAX_CHUNK_SIZE'' (4 * 1024 * 1024),
        kc_UploadConcurrency = envInt getenv ''STRATA_UPLOAD_CONCURRENCY'' 32,
        kc_DownloadConcurrency = envInt getenv ''STRATA_DOWNLOAD_CONCURRENCY'' 64\<rparr>\<rparr>"

definition Load :: "fscale \<Rightarrow> env \<Rightarrow> Config result" where
  "Load fscale getenv = (let cfg = read_config fscale getenv in
     case validate cfg of Inl err \<Rightarrow> Inl err | Inr _ \<Rightarrow> Inr cfg)"

section \<open>What it gives\<close>

lemma read_config_secrets [simp]:
  "dc_Password (cfg_Database (read_config fscale getenv)) = getenv ''STRATA_DB_PASSWORD''"
  "ac_JWTSecret (cfg_Auth (read_config fscale getenv)) = getenv ''STRATA_JWT_SECRET''"
  by (simp_all add: read_config_def envStr_def Let_def)

lemma validate_Inr: "validate c = Inr () \<longleftrightarrow>
  dc_Password (cfg_Database c) \<noteq> [] \<and> 32 \<le> length (ac_JWTSecret (cfg_Auth c))"
  by (simp add: validate_def linorder_not_less [symmetric] del: linorder_not_less)

lemma Load_Inr: "Load fscale getenv = Inr cfg \<longleftrightarrow>
  cfg = read_config fscale getenv \<and> getenv ''STRATA_DB_PASSWORD'' \<noteq> [] \<and> 32 \<le> length (getenv ''STRATA_JWT_SECRET'')"
  using validate_Inr [of "read_config fscale getenv"]
  by (cases "validate (read_config fscale getenv)") (auto simp: Load_def)

lemma envInt_range:
  "- (2 ^ 63) \<le> fallback \<Longrightarrow> fallback < 2 ^ 63 \<Longrightarrow> - (2 ^ 63) \<le> envInt g k fallback \<and> envInt g k fallback < 2 ^ 63"
  using strconv_Atoi_range [of "g k"] by (auto simp: envInt_def Let_def split: prod.splits)

lemma show_int_nonempty [simp]: "show_int n \<noteq> []"
  using show_nat_correct [of "nat n"] by (simp add: show_int_def)

lemma envInt_show: "g k = show_int n \<Longrightarrow> - (2 ^ 63) \<le> n \<Longrightarrow> n < 2 ^ 63 \<Longrightarrow> envInt g k fallback = n"
  by (simp add: envInt_def Atoi_show_int)

lemma envInt64_show: "g k = show_int n \<Longrightarrow> - (2 ^ 63) \<le> n \<Longrightarrow> n < 2 ^ 63 \<Longrightarrow> envInt64 g k fallback = n"
  using envInt_show [of g k n fallback] by (simp add: envInt_def envInt64_def)

end
