(* ===== verification/Auth_Service.thy ===== *)
theory Auth_Service
  imports User_Store Sha256 Config Http
begin

text \<open>
  \<^verbatim>\<open>internal/service/auth.go\<close>: registration, login and tokens. The two libraries it calls,
  \<^verbatim>\<open>golang.org/x/crypto/bcrypt\<close> and \<^verbatim>\<open>github.com/golang-jwt/jwt\<close>, are not part of the
  repository: they are a parameter of type \<open>auth_lib\<close>, and what their documentation promises is
  stated below as predicates that the properties take as hypotheses.
\<close>

section \<open>The libraries\<close>

datatype jwt_method = SigningMethodHMAC string | OtherMethod string

abbreviation SigningMethodHS256 :: jwt_method where
  "SigningMethodHS256 \<equiv> SigningMethodHMAC ''HS256''"

text \<open>The value of a claim: a string, a number, or any other JSON value.\<close>

datatype claim = StringClaim string | NumberClaim int | OtherClaim

type_synonym MapClaims = "(string, claim) gomap"

text \<open>A claim that is a string, \<open>v, ok := claims[key].(string)\<close>.\<close>

definition string_claim :: "MapClaims \<Rightarrow> string \<Rightarrow> string option" where
  "string_claim claims key = (case map_of claims key of Some (StringClaim v) \<Rightarrow> Some v | _ \<Rightarrow> None)"

record jwt_token =
  t_Valid :: bool
  t_Claims :: "MapClaims option"

text \<open>
  \<open>bcrypt.GenerateFromPassword\<close> as a function of the salt it draws, the password and the cost;
  \<open>bcrypt.CompareHashAndPassword\<close>, true when its error is nil; \<open>SignedString\<close> of a new token; and
  \<open>jwt.Parse\<close>, a function of the clock, the text of the token and the function that gives the key
  for a signing method. \<open>t_Claims\<close> is \<open>None\<close> when the claims are not \<open>MapClaims\<close>.
\<close>

record auth_lib =
  bcrypt_Generate :: "bytes \<Rightarrow> string \<Rightarrow> nat \<Rightarrow> string result"
  bcrypt_Compare :: "string \<Rightarrow> string \<Rightarrow> bool"
  jwt_Sign :: "jwt_method \<Rightarrow> MapClaims \<Rightarrow> string \<Rightarrow> string result"
  jwt_Parse :: "int \<Rightarrow> string \<Rightarrow> (jwt_method \<Rightarrow> string result) \<Rightarrow> jwt_token result"

definition bcrypt_DefaultCost :: nat where
  "bcrypt_DefaultCost = 10"

text \<open>
  Documented behaviour of bcrypt: it hashes passwords of at most 72 bytes, and a hash fits the
  password it was made from. Among the passwords it does not truncate or repeat (shorter than 72
  bytes, no zero byte) a hash fits no other: this idealises that collisions are not found.
\<close>

definition plain_password :: "string \<Rightarrow> bool" where
  "plain_password pw \<longleftrightarrow> length pw < 72 \<and> CHR 0x00 \<notin> set pw"

definition bcrypt_total :: "auth_lib \<Rightarrow> bool" where
  "bcrypt_total lib \<longleftrightarrow> (\<forall>salt pw. length pw \<le> 72 \<longrightarrow> (\<exists>h. bcrypt_Generate lib salt pw bcrypt_DefaultCost = Inr h))"

definition bcrypt_exact :: "auth_lib \<Rightarrow> bool" where
  "bcrypt_exact lib \<longleftrightarrow> (\<forall>salt pw pw' h. bcrypt_Generate lib salt pw bcrypt_DefaultCost = Inr h \<longrightarrow>
     plain_password pw \<longrightarrow> plain_password pw' \<longrightarrow> (bcrypt_Compare lib h pw' \<longleftrightarrow> pw' = pw))"

text \<open>
  Documented behaviour of jwt: signing with HS256 and a byte key does not fail, and a token is read
  back as valid, with its text claims, exactly until the second in its \<open>exp\<close> claim begins, by whoever
  gives the key it was signed with for its method. (Numbers are read back as floating point, hence the
  bound; a token with an \<open>nbf\<close> claim would have to wait for it.)
\<close>

definition jwt_signs :: "auth_lib \<Rightarrow> bool" where
  "jwt_signs lib \<longleftrightarrow> (\<forall>claims key. \<exists>tok. jwt_Sign lib SigningMethodHS256 claims key = Inr tok)"

definition jwt_verifies :: "auth_lib \<Rightarrow> bool" where
  "jwt_verifies lib \<longleftrightarrow> (\<forall>claims key tok now keyfunc exp.
     jwt_Sign lib SigningMethodHS256 claims key = Inr tok \<longrightarrow> keyfunc SigningMethodHS256 = Inr key \<longrightarrow>
     map_of claims ''exp'' = Some (NumberClaim exp) \<longrightarrow> map_of claims ''nbf'' = None \<longrightarrow> 0 < exp \<longrightarrow> exp < 2 ^ 53 \<longrightarrow>
     (if now < exp * Second
      then \<exists>t c. jwt_Parse lib now tok keyfunc = Inr t \<and> t_Valid t \<and> t_Claims t = Some c
        \<and> string_claim c = string_claim claims
      else \<exists>e. jwt_Parse lib now tok keyfunc = Inl e))"

text \<open>Whenever a signed token is read back, its text claims are those that were signed.\<close>

definition jwt_faithful :: "auth_lib \<Rightarrow> bool" where
  "jwt_faithful lib \<longleftrightarrow> (\<forall>claims key tok now keyfunc t c.
     jwt_Sign lib SigningMethodHS256 claims key = Inr tok \<longrightarrow> jwt_Parse lib now tok keyfunc = Inr t \<longrightarrow>
     t_Claims t = Some c \<longrightarrow> string_claim c = string_claim claims)"

section \<open>The service\<close>

record AuthService =
  as_jwtSecret :: string
  as_accessTokenTTL :: int
  as_refreshTokenTTL :: int

definition NewAuthService :: "string \<Rightarrow> int \<Rightarrow> int \<Rightarrow> AuthService" where
  "NewAuthService jwtSecret accessTTL refreshTTL = \<lparr>as_jwtSecret = jwtSecret,
     as_accessTokenTTL = accessTTL, as_refreshTokenTTL = refreshTTL\<rparr>"

record TokenPair =
  tp_AccessToken :: string
  tp_RefreshToken :: string
  tp_ExpiresIn :: int

definition AuthService_Register :: "auth_lib \<Rightarrow> string \<Rightarrow> string \<Rightarrow> string \<Rightarrow> User result io" where
  "AuthService_Register lib username email password = do {
     salt \<leftarrow> rand_Read 16;
     case bcrypt_Generate lib salt password bcrypt_DefaultCost of
       Inl err \<Rightarrow> ret (Inl (Wrap ''hash password'' err))
     | Inr hash \<Rightarrow> do {
         now \<leftarrow> time_Now;
         userID \<leftarrow> generateUUID;
         let user = \<lparr>u_ID = userID, u_Username = username, u_Email = email, u_PasswordHash = hash,
           u_Role = ''member'', u_CreatedAt = now, u_UpdatedAt = now\<rparr>;
         go_try (UserStore_Create user) (\<lambda>_. ErrUserExists) (\<lambda>_. ret (Inr user))
       }
   }"

text \<open>\<open>t.Unix()\<close>, and \<open>int(d.Seconds())\<close>, which truncates towards zero (exact below \<open>2 ^ 23\<close> seconds).\<close>

definition time_Unix :: "int \<Rightarrow> int" where
  "time_Unix t = t div Second"

definition whole_seconds :: "int \<Rightarrow> int" where
  "whole_seconds d = (if d < 0 then - ((- d) div Second) else d div Second)"

definition access_claims :: "User \<Rightarrow> int \<Rightarrow> int \<Rightarrow> MapClaims" where
  "access_claims user now ttl = [(''sub'', StringClaim (u_ID user)), (''username'', StringClaim (u_Username user)),
     (''role'', StringClaim (u_Role user)), (''iat'', NumberClaim (time_Unix now)),
     (''exp'', NumberClaim (time_Unix (now + ttl))), (''type'', StringClaim ''access'')]"

definition refresh_claims :: "User \<Rightarrow> int \<Rightarrow> int \<Rightarrow> MapClaims" where
  "refresh_claims user now ttl = [(''sub'', StringClaim (u_ID user)), (''iat'', NumberClaim (time_Unix now)),
     (''exp'', NumberClaim (time_Unix (now + ttl))), (''type'', StringClaim ''refresh'')]"

definition generateTokenPair :: "auth_lib \<Rightarrow> AuthService \<Rightarrow> User \<Rightarrow> TokenPair result io" where
  "generateTokenPair lib s user = do {
     now \<leftarrow> time_Now;
     case jwt_Sign lib SigningMethodHS256 (access_claims user now (as_accessTokenTTL s)) (as_jwtSecret s) of
       Inl err \<Rightarrow> ret (Inl (Wrap ''sign access token'' err))
     | Inr accessStr \<Rightarrow>
         (case jwt_Sign lib SigningMethodHS256 (refresh_claims user now (as_refreshTokenTTL s)) (as_jwtSecret s) of
            Inl err \<Rightarrow> ret (Inl (Wrap ''sign refresh token'' err))
          | Inr refreshStr \<Rightarrow> ret (Inr \<lparr>tp_AccessToken = accessStr, tp_RefreshToken = refreshStr,
              tp_ExpiresIn = whole_seconds (as_accessTokenTTL s)\<rparr>))
   }"

definition AuthService_Login :: "auth_lib \<Rightarrow> AuthService \<Rightarrow> string \<Rightarrow> string \<Rightarrow> TokenPair result io" where
  "AuthService_Login lib s username password =
     go_try (UserStore_GetByUsername username) (\<lambda>_. ErrInvalidCredentials) (\<lambda>user.
       if \<not> bcrypt_Compare lib (u_PasswordHash user) password then ret (Inl ErrInvalidCredentials)
       else generateTokenPair lib s user)"

text \<open>The key for a token: only HMAC methods get the secret.\<close>

definition hmac_key :: "string \<Rightarrow> jwt_method \<Rightarrow> string result" where
  "hmac_key secret m = (case m of
     SigningMethodHMAC _ \<Rightarrow> Inr secret | OtherMethod _ \<Rightarrow> Inl (NewError ''signature is invalid''))"

definition RefreshAccessToken :: "auth_lib \<Rightarrow> AuthService \<Rightarrow> string \<Rightarrow> TokenPair result io" where
  "RefreshAccessToken lib s refreshToken = do {
     now \<leftarrow> time_Now;
     case jwt_Parse lib now refreshToken (hmac_key (as_jwtSecret s)) of
       Inl _ \<Rightarrow> ret (Inl (NewError ''invalid refresh token''))
     | Inr token \<Rightarrow>
         if \<not> t_Valid token then ret (Inl (NewError ''invalid refresh token''))
         else (case t_Claims token of
             None \<Rightarrow> ret (Inl (NewError ''invalid token claims''))
           | Some claims \<Rightarrow>
               let userID = (case string_claim claims ''sub'' of Some v \<Rightarrow> v | None \<Rightarrow> '''') in
               go_try (UserStore_GetByID userID) (\<lambda>_. NewError ''user not found'')
                 (generateTokenPair lib s))
   }"

text \<open>The hash under which a token would be stored; nothing calls it yet.\<close>

definition hashToken :: "string \<Rightarrow> string" where
  "hashToken token = hex_string (Sum256 (map of_char token))"

section \<open>Execution\<close>

lemma hmac_key_HS256 [simp]: "hmac_key secret SigningMethodHS256 = Inr secret"
  by (simp add: hmac_key_def)

lemma claims_simps [simp]:
  "map_of (access_claims u now ttl) ''exp'' = Some (NumberClaim (time_Unix (now + ttl)))"
  "map_of (access_claims u now ttl) ''nbf'' = None"
  "string_claim (access_claims u now ttl) ''sub'' = Some (u_ID u)"
  "string_claim (access_claims u now ttl) ''username'' = Some (u_Username u)"
  "string_claim (access_claims u now ttl) ''role'' = Some (u_Role u)"
  "map_of (refresh_claims u now ttl) ''exp'' = Some (NumberClaim (time_Unix (now + ttl)))"
  "map_of (refresh_claims u now ttl) ''nbf'' = None"
  "string_claim (refresh_claims u now ttl) ''sub'' = Some (u_ID u)"
  "string_claim (refresh_claims u now ttl) ''username'' = None"
  "string_claim (refresh_claims u now ttl) ''role'' = None"
  by (simp_all add: access_claims_def refresh_claims_def string_claim_def)

text \<open>What a pair of tokens is.\<close>

definition issued_to :: "auth_lib \<Rightarrow> AuthService \<Rightarrow> User \<Rightarrow> int \<Rightarrow> TokenPair \<Rightarrow> bool" where
  "issued_to lib s u now tp \<longleftrightarrow>
     jwt_Sign lib SigningMethodHS256 (access_claims u now (as_accessTokenTTL s)) (as_jwtSecret s) = Inr (tp_AccessToken tp)
     \<and> jwt_Sign lib SigningMethodHS256 (refresh_claims u now (as_refreshTokenTTL s)) (as_jwtSecret s) = Inr (tp_RefreshToken tp)
     \<and> tp_ExpiresIn tp = whole_seconds (as_accessTokenTTL s)"

text \<open>Calls that change no table and no object.\<close>

definition only_reads :: "world \<Rightarrow> world \<Rightarrow> bool" where
  "only_reads w w' \<longleftrightarrow> w_db w' = w_db w \<and> w_blobs w' = w_blobs w"

interpretation reads: frame_relation only_reads
  by unfold_locales (simp_all add: only_reads_def)

context frame_relation
begin

lemma frame_generateTokenPair [frame_intros]: "preserves R (generateTokenPair lib s u)"
  unfolding generateTokenPair_def by (auto intro!: frame_intros split: sum.splits)

lemma frame_Login: "preserves R (AuthService_Login lib s n pw)"
  unfolding AuthService_Login_def UserStore_GetByUsername_def by (auto intro!: frame_intros)

lemma frame_RefreshAccessToken: "preserves R (RefreshAccessToken lib s tok)"
  unfolding RefreshAccessToken_def UserStore_GetByID_def Let_def
  by (auto intro!: frame_intros split: sum.splits option.splits)

end

lemma wp_generateTokenPair:
  assumes "\<And>e w'. w_db w' = w_db w \<Longrightarrow> same_env w w' \<Longrightarrow> \<not> jwt_signs lib \<Longrightarrow> e \<noteq> ErrInvalidCredentials \<Longrightarrow> Q (Inl e) w'"
    and "\<And>tp w'. w_db w' = w_db w \<Longrightarrow> same_env w w' \<Longrightarrow> issued_to lib s u (w_clock w (w_tick w)) tp \<Longrightarrow> Q (Inr tp) w'"
  shows "wp (generateTokenPair lib s u) Q w"
proof -
  have no: "\<not> jwt_signs lib" if "jwt_Sign lib SigningMethodHS256 c k = Inl e" for c k e
    using that unfolding jwt_signs_def by (metis sum.distinct(1))
  show ?thesis
    using assms no
    by (auto simp: generateTokenPair_def wp_simps issued_to_def split: sum.splits)
qed

text \<open>A valid token of the service, at a time before its end.\<close>

lemma parse_signed:
  assumes "jwt_verifies lib" "jwt_Sign lib SigningMethodHS256 claims secret = Inr tok"
    "map_of claims ''exp'' = Some (NumberClaim exp)" "map_of claims ''nbf'' = None" "0 < exp" "exp < 2 ^ 53"
  shows "now < exp * Second \<Longrightarrow> \<exists>t c. jwt_Parse lib now tok (hmac_key secret) = Inr t \<and> t_Valid t
      \<and> t_Claims t = Some c \<and> string_claim c = string_claim claims"
    and "exp * Second \<le> now \<Longrightarrow> \<exists>e. jwt_Parse lib now tok (hmac_key secret) = Inl e"
  using assms hmac_key_HS256 [of secret] unfolding jwt_verifies_def by (metis not_le)+

end
