(* ===== verification/Auth_Middleware.thy ===== *)
theory Auth_Middleware
  imports Auth_Service Http Rate_Limit
begin

text \<open>
  \<^verbatim>\<open>internal/middleware/auth.go\<close>: the check of the access token and the identity it puts in the
  request context; and the \<open>Limit\<close> middleware of \<^verbatim>\<open>internal/middleware/ratelimit.go\<close>, which reads it.
\<close>

section \<open>The context\<close>

record Context =
  ctx_UserID :: "string option"
  ctx_Username :: "string option"
  ctx_Role :: "string option"

definition FromContext :: "string option \<Rightarrow> string" where
  "FromContext v = (case v of Some s \<Rightarrow> s | None \<Rightarrow> '''')"

definition UserIDFromContext :: "Context \<Rightarrow> string" where
  "UserIDFromContext ctx = FromContext (ctx_UserID ctx)"

definition UsernameFromContext :: "Context \<Rightarrow> string" where
  "UsernameFromContext ctx = FromContext (ctx_Username ctx)"

definition RoleFromContext :: "Context \<Rightarrow> string" where
  "RoleFromContext ctx = FromContext (ctx_Role ctx)"

definition writeError :: "nat \<Rightarrow> string \<Rightarrow> string \<Rightarrow> 'a reply io" where
  "writeError st c msg = ret (ErrorReply st c msg)"

section \<open>Bearer tokens\<close>

text \<open>\<open>strings.EqualFold\<close> with a word in which every letter has only its two ASCII cases.\<close>

definition ascii_lower :: "char \<Rightarrow> char" where
  "ascii_lower c = (let n = of_char c :: nat in if 65 \<le> n \<and> n \<le> 90 then char_of (n + 32) else c)"

definition EqualFold :: "string \<Rightarrow> string \<Rightarrow> bool" where
  "EqualFold s t \<longleftrightarrow> map ascii_lower s = map ascii_lower t"

text \<open>\<open>strings.SplitN(s, " ", 2)\<close>\<close>

definition SplitN2 :: "string \<Rightarrow> string list" where
  "SplitN2 s = (case dropWhile (\<lambda>c. c \<noteq> CHR '' '') s of
     [] \<Rightarrow> [s]
   | _ # rest \<Rightarrow> [takeWhile (\<lambda>c. c \<noteq> CHR '' '') s, rest])"

definition claims_context :: "MapClaims \<Rightarrow> Context" where
  "claims_context claims = \<lparr>ctx_UserID = string_claim claims ''sub'',
     ctx_Username = string_claim claims ''username'', ctx_Role = string_claim claims ''role''\<rparr>"

definition check_token :: "auth_lib \<Rightarrow> string \<Rightarrow> string \<Rightarrow> (Context \<Rightarrow> 'a reply io) \<Rightarrow> 'a reply io" where
  "check_token lib jwtSecret tokenStr next_handler = do {
     now \<leftarrow> time_Now;
     case jwt_Parse lib now tokenStr (hmac_key jwtSecret) of
       Inl _ \<Rightarrow> writeError StatusUnauthorized ''AUTH_TOKEN_INVALID'' ''Invalid or expired access token''
     | Inr token \<Rightarrow>
         if \<not> t_Valid token
         then writeError StatusUnauthorized ''AUTH_TOKEN_INVALID'' ''Invalid or expired access token''
         else (case t_Claims token of
             None \<Rightarrow> writeError StatusUnauthorized ''AUTH_TOKEN_INVALID'' ''Could not parse token claims''
           | Some claims \<Rightarrow> next_handler (claims_context claims))
   }"

definition Auth :: "auth_lib \<Rightarrow> string \<Rightarrow> string \<Rightarrow> (Context \<Rightarrow> 'a reply io) \<Rightarrow> 'a reply io" where
  "Auth lib jwtSecret authHeader next_handler =
     (if authHeader = ''''
      then writeError StatusUnauthorized ''AUTH_MISSING_TOKEN'' ''Authorization header is required''
      else case SplitN2 authHeader of
          [scheme, tokenStr] \<Rightarrow>
            if \<not> EqualFold scheme ''bearer''
            then writeError StatusUnauthorized ''AUTH_INVALID_FORMAT'' ''Authorization header must be: Bearer <token>''
            else check_token lib jwtSecret tokenStr next_handler
        | _ \<Rightarrow> writeError StatusUnauthorized ''AUTH_INVALID_FORMAT'' ''Authorization header must be: Bearer <token>'')"

section \<open>The rate limit in front of a handler\<close>

definition Limit :: "RateLimiter \<Rightarrow> Context \<Rightarrow> string \<Rightarrow> int \<Rightarrow> 'a reply io \<Rightarrow> 'a reply io \<times> RateLimiter" where
  "Limit rl ctx remoteAddr now next_handler =
     (let key = (if UserIDFromContext ctx = '''' then remoteAddr else UserIDFromContext ctx);
          (ok, rl') = allow key now rl
      in (if \<not> ok then writeError StatusTooManyRequests ''RATE_LIMITED'' ''Too many requests, please slow down''
          else next_handler, rl'))"

section \<open>What gets through\<close>

text \<open>The token of a header of the right form.\<close>

definition bearer_token :: "string \<Rightarrow> string option" where
  "bearer_token h = (case SplitN2 h of
     [scheme, tok] \<Rightarrow> if h \<noteq> [] \<and> EqualFold scheme ''bearer'' then Some tok else None | _ \<Rightarrow> None)"

text \<open>The identity a header proves at a time, if it does.\<close>

definition identity :: "auth_lib \<Rightarrow> string \<Rightarrow> int \<Rightarrow> string \<Rightarrow> Context option" where
  "identity lib secret now tok = (case jwt_Parse lib now tok (hmac_key secret) of
     Inl _ \<Rightarrow> None
   | Inr t \<Rightarrow> if t_Valid t then map_option claims_context (t_Claims t) else None)"

lemma wp_writeError [wp_simps]: "wp (writeError st c m) Q w = Q (ErrorReply st c m) w"
  by (simp add: writeError_def wp_simps)

lemma bearer_header: "bearer_token (''Bearer '' @ tok) = Some tok"
proof -
  have "EqualFold ''Bearer'' ''bearer''" by code_simp
  then show ?thesis by (simp add: bearer_token_def SplitN2_def)
qed

lemma wp_check_token:
  assumes "\<And>c m w'. w_db w' = w_db w \<Longrightarrow> same_env w w' \<Longrightarrow> identity lib secret (w_clock w (w_tick w)) tok = None \<Longrightarrow>
      Q (ErrorReply StatusUnauthorized c m) w'"
    and "\<And>ctx. identity lib secret (w_clock w (w_tick w)) tok = Some ctx \<Longrightarrow> wp (h ctx) Q (next_tick w)"
  shows "wp (check_token lib secret tok h) Q w"
proof (cases "jwt_Parse lib (w_clock w (w_tick w)) tok (hmac_key secret)")
  case (Inl e)
  then show ?thesis using assms(1) by (simp add: check_token_def wp_simps identity_def)
next
  case (Inr t)
  show ?thesis
  proof (cases "t_Valid t")
    case valid: True
    with Inr assms show ?thesis
      by (cases "t_Claims t") (simp_all add: check_token_def wp_simps identity_def)
  next
    case False
    with Inr assms(1) show ?thesis by (simp add: check_token_def wp_simps identity_def)
  qed
qed

lemma wp_Auth:
  assumes "\<And>c m w'. w_db w' = w_db w \<Longrightarrow> same_env w w' \<Longrightarrow>
      (\<And>tok. bearer_token header = Some tok \<Longrightarrow> identity lib secret (w_clock w (w_tick w)) tok = None) \<Longrightarrow>
      Q (ErrorReply StatusUnauthorized c m) w'"
    and "\<And>tok ctx. bearer_token header = Some tok \<Longrightarrow> identity lib secret (w_clock w (w_tick w)) tok = Some ctx \<Longrightarrow>
      wp (h ctx) Q (next_tick w)"
  shows "wp (Auth lib secret header h) Q w"
proof (cases "bearer_token header")
  case None
  then show ?thesis
    using assms(1) [of w]
    by (auto simp: Auth_def bearer_token_def wp_simps split: list.splits if_splits)
next
  case (Some tok)
  then obtain scheme where "header \<noteq> []" "SplitN2 header = [scheme, tok]" "EqualFold scheme ''bearer''"
    by (auto simp: bearer_token_def split: list.splits if_splits)
  then have "Auth lib secret header h = check_token lib secret tok h" by (simp add: Auth_def)
  then show ?thesis using assms Some by (simp add: wp_check_token)
qed

context frame_relation
begin

lemma frame_Auth: "(\<And>ctx. preserves R (h ctx)) \<Longrightarrow> preserves R (Auth lib secret header h)"
  unfolding Auth_def check_token_def writeError_def
  by (auto intro!: frame_intros split: list.splits sum.splits option.splits)

end

end
