(* ===== verification/Auth_Handler.thy ===== *)
theory Auth_Handler
  imports Auth_Middleware
begin

text \<open>\<^verbatim>\<open>internal/handler/auth.go\<close>: the public routes for accounts.\<close>

section \<open>Handlers\<close>

record RegisterRequest =
  rq_Username :: string
  rq_Email :: string
  rq_Password :: string

text \<open>The JSON form of a user leaves out the password hash (tag \<open>json:"-"\<close>).\<close>

definition public_user :: "User \<Rightarrow> User" where
  "public_user u = u\<lparr>u_PasswordHash := ''''\<rparr>"

definition AuthHandler_Register :: "auth_lib \<Rightarrow> RegisterRequest option \<Rightarrow> User reply io" where
  "AuthHandler_Register lib body = (case body of
     None \<Rightarrow> writeErrorJSON StatusBadRequest ''INVALID_REQUEST'' ''Invalid JSON body''
   | Some req \<Rightarrow>
       if rq_Username req = '''' \<or> rq_Email req = '''' \<or> rq_Password req = ''''
       then writeErrorJSON StatusBadRequest ''MISSING_FIELDS'' ''username, email, and password are required''
       else if length (rq_Password req) < 8
       then writeErrorJSON StatusBadRequest ''WEAK_PASSWORD'' ''Password must be at least 8 characters''
       else reply_result (AuthService_Register lib (rq_Username req) (rq_Email req) (rq_Password req))
         (\<lambda>err. if errors_Is err ErrUserExists
           then writeErrorJSON StatusConflict ''USER_EXISTS'' ''Username or email already exists''
           else writeErrorJSON StatusInternalServerError ''INTERNAL_ERROR'' ''Failed to create user'')
         (\<lambda>user. writeJSON StatusCreated (public_user user)))"

record LoginRequest =
  lr_Username :: string
  lr_Password :: string

definition AuthHandler_Login :: "auth_lib \<Rightarrow> AuthService \<Rightarrow> LoginRequest option \<Rightarrow> TokenPair reply io" where
  "AuthHandler_Login lib s body = (case body of
     None \<Rightarrow> writeErrorJSON StatusBadRequest ''INVALID_REQUEST'' ''Invalid JSON body''
   | Some req \<Rightarrow> reply_result (AuthService_Login lib s (lr_Username req) (lr_Password req))
       (\<lambda>err. if errors_Is err ErrInvalidCredentials
         then writeErrorJSON StatusUnauthorized ''AUTH_INVALID_CREDENTIALS'' ''Invalid username or password''
         else writeErrorJSON StatusInternalServerError ''INTERNAL_ERROR'' ''Login failed'')
       (\<lambda>tokens. writeJSON StatusOK tokens))"

text \<open>The body of a refresh has one field, the token.\<close>

definition AuthHandler_Refresh :: "auth_lib \<Rightarrow> AuthService \<Rightarrow> string option \<Rightarrow> TokenPair reply io" where
  "AuthHandler_Refresh lib s body = (case body of
     None \<Rightarrow> writeErrorJSON StatusBadRequest ''INVALID_REQUEST'' ''Invalid JSON body''
   | Some refreshToken \<Rightarrow> reply_result (RefreshAccessToken lib s refreshToken)
       (\<lambda>_. writeErrorJSON StatusUnauthorized ''AUTH_REFRESH_EXPIRED'' ''Invalid or expired refresh token'')
       (\<lambda>tokens. writeJSON StatusOK tokens))"

definition AuthHandler_Logout :: "string reply io" where
  "AuthHandler_Logout = writeJSON StatusOK ''logged out''"

section \<open>Registration\<close>

text \<open>What a registration that is not refused for its form does.\<close>

definition new_user :: "User \<Rightarrow> string \<Rightarrow> string \<Rightarrow> bool" where
  "new_user u username email \<longleftrightarrow> u_Username u = username \<and> u_Email u = email \<and> u_Role u = ''member''"

lemma wp_AuthService_Register:
  assumes hash: "\<And>e w'. w_db w' = w_db w \<Longrightarrow> same_env w w' \<Longrightarrow> (bcrypt_total lib \<Longrightarrow> 72 < length pw) \<Longrightarrow>
      Q (Inl (Wrap ''hash password'' e)) w'"
    and err: "\<And>u w'. w_db w' = w_db w \<Longrightarrow> same_env w w' \<Longrightarrow> new_user u n e \<Longrightarrow>
      u_ID u = uuid_at w (w_tick w + 2) \<Longrightarrow> (no_faults w \<Longrightarrow> \<not> (\<exists>d'. sql_insert_user u (w_db w) = Inr ((), d'))) \<Longrightarrow> Q (Inl ErrUserExists) w'"
    and don: "\<And>u w' salt. sql_insert_user u (w_db w) = Inr ((), w_db w') \<Longrightarrow> same_env w w' \<Longrightarrow> new_user u n e \<Longrightarrow>
      bcrypt_Generate lib salt pw bcrypt_DefaultCost = Inr (u_PasswordHash u) \<Longrightarrow> Q (Inr u) w'"
  shows "wp (AuthService_Register lib n e pw) Q w"
proof -
  let ?salt = "take 16 (w_rand w (w_tick w) @ replicate 16 0)"
  show ?thesis
  proof (cases "bcrypt_Generate lib ?salt pw bcrypt_DefaultCost")
    case (Inl x)
    have "72 < length pw" if "bcrypt_total lib"
      using that Inl unfolding bcrypt_total_def by (metis not_le sum.distinct(1))
    with Inl show ?thesis
      using hash by (simp add: AuthService_Register_def wp_simps)
  next
    case (Inr h)
    have create: "wp (go_try (UserStore_Create u) (\<lambda>_. ErrUserExists) (\<lambda>_. ret (Inr u))) Q w1"
      if u: "new_user u n e" "u_PasswordHash u = h" "u_ID u = uuid_at w (w_tick w + 2)" and w1: "w_db w1 = w_db w" "same_env w w1" for u w1
      unfolding UserStore_Create_def
    proof (intro wp_go_tryI wp_db_execI, goal_cases)
      case (1 x w2)
      have "Q (Inl ErrUserExists) w2"
        by (rule err [of _ u]) (use 1 u w1 in \<open>auto intro: same_env_trans simp: same_env_no_faults\<close>)
      then show ?case by simp
    next
      case (2 x w2)
      have "Q (Inr u) w2"
        by (rule don [of _ _ ?salt]) (use 2 u w1 Inr in \<open>auto intro: same_env_trans\<close>)
      then show ?case by (simp add: wp_simps)
    qed
    show ?thesis
      unfolding AuthService_Register_def wp_bind wp_rand_Read Inr sum.case wp_time_Now wp_generateUUID Let_def
      by (rule create) (simp_all add: new_user_def same_env_def uuid_at_next)
  qed
qed

end
