(* ===== verification/Api.thy ===== *)
theory Api
  imports Deletion Project_Service Auth_Handler
begin

text \<open>
  The whole router of \<^verbatim>\<open>cmd/server/main.go\<close>: the public routes for accounts, the auth middleware,
  and behind it the projects and everything in them. The requests of theory \<open>Server\<close> get their user
  from the token here.
\<close>

section \<open>Routes\<close>

datatype protected_request =
    CreateProject "CreateProjectRequest option"
  | ListProjects
  | GetProject string
  | DeleteProject string
  | InProject request

text \<open>\<open>middleware.UserIDFromContext(r.Context())\<close> in the handlers that ask for the user.\<close>

fun as_user :: "string \<Rightarrow> request \<Rightarrow> request" where
  "as_user u (PushCommit p _ body) = PushCommit p u body"
| "as_user u (ExecuteMerge p _ body) = ExecuteMerge p u body"
| "as_user u (AcquireLock p _ body) = AcquireLock p u body"
| "as_user u (ReleaseLock p _ body) = ReleaseLock p u body"
| "as_user u req = req"

primrec protected_route :: "int \<Rightarrow> string \<Rightarrow> protected_request \<Rightarrow> nat io" where
  "protected_route maxSize u (CreateProject body) = status_of (ProjectHandler_Create u body)"
| "protected_route maxSize u ListProjects = status_of (ProjectHandler_List u)"
| "protected_route maxSize u (GetProject p) = status_of (ProjectHandler_Get p)"
| "protected_route maxSize u (DeleteProject p) = status_of (ProjectHandler_Delete p)"
| "protected_route maxSize u (InProject req) = route maxSize (as_user u req)"

datatype api_request =
    Register "RegisterRequest option"
  | Login "LoginRequest option"
  | Refresh "string option"
  | Logout
  | Protected string protected_request

text \<open>The wiring: the services get their parameters from the configuration.\<close>

definition auth_service :: "Config \<Rightarrow> AuthService" where
  "auth_service cfg = NewAuthService (ac_JWTSecret (cfg_Auth cfg)) (ac_AccessTokenTTL (cfg_Auth cfg))
     (ac_RefreshTokenTTL (cfg_Auth cfg))"

abbreviation secret_of :: "Config \<Rightarrow> string" where
  "secret_of cfg \<equiv> ac_JWTSecret (cfg_Auth cfg)"

abbreviation max_size :: "Config \<Rightarrow> int" where
  "max_size cfg \<equiv> kc_MaxSize (cfg_Chunks cfg)"

definition tokens_of :: "TokenPair reply \<Rightarrow> TokenPair option" where
  "tokens_of r = (case r of Reply _ tp \<Rightarrow> Some tp | ErrorReply _ _ _ \<Rightarrow> None)"

text \<open>The status of the reply and the tokens in it.\<close>

primrec api :: "auth_lib \<Rightarrow> Config \<Rightarrow> api_request \<Rightarrow> (nat \<times> TokenPair option) io" where
  "api lib cfg (Register body) = do { r \<leftarrow> AuthHandler_Register lib body; ret (status r, None) }"
| "api lib cfg (Login body) = do { r \<leftarrow> AuthHandler_Login lib (auth_service cfg) body; ret (status r, tokens_of r) }"
| "api lib cfg (Refresh body) = do { r \<leftarrow> AuthHandler_Refresh lib (auth_service cfg) body; ret (status r, tokens_of r) }"
| "api lib cfg Logout = do { r \<leftarrow> AuthHandler_Logout; ret (status r, None) }"
| "api lib cfg (Protected header req) = do {
     r \<leftarrow> Auth lib (secret_of cfg) header (\<lambda>ctx. do {
       st \<leftarrow> protected_route (max_size cfg) (UserIDFromContext ctx) req;
       ret (Reply st ())
     });
     ret (status r, None)
   }"

datatype api_event = ApiServed api_request nat "TokenPair option" | ApiElapsed

inductive api_step :: "auth_lib \<Rightarrow> Config \<Rightarrow> world \<Rightarrow> api_event \<Rightarrow> world \<Rightarrow> bool" for lib cfg where
  api_served: "run_state (api lib cfg req) w = ((st, tp), w') \<Longrightarrow> api_step lib cfg w (ApiServed req st tp) w'"
| api_elapsed: "w_db w' = w_db w \<Longrightarrow> w_blobs w' = w_blobs w \<Longrightarrow> api_step lib cfg w ApiElapsed w'"

inductive_cases api_stepE: "api_step lib cfg w ev w'"

inductive api_run :: "auth_lib \<Rightarrow> Config \<Rightarrow> world \<Rightarrow> api_event list \<Rightarrow> world \<Rightarrow> bool" for lib cfg where
  api_Nil: "api_run lib cfg w [] w"
| api_Cons: "api_step lib cfg w ev w1 \<Longrightarrow> api_run lib cfg w1 evs w2 \<Longrightarrow> api_run lib cfg w (ev # evs) w2"

inductive_simps api_run_simps [simp]: "api_run lib cfg w [] w'" "api_run lib cfg w (ev # evs) w'"

section \<open>The auth gate\<close>

text \<open>
  A protected request is refused without effect, or handled for the user in the token.
\<close>

lemma wp_Protected:
  assumes refuse: "\<And>w'. w_db w' = w_db w \<Longrightarrow> w_blobs w' = w_blobs w \<Longrightarrow>
      (\<And>tok. bearer_token header = Some tok \<Longrightarrow> identity lib (secret_of cfg) (w_clock w (w_tick w)) tok = None) \<Longrightarrow>
      Q (401, None) w'"
    and pass: "\<And>tok ctx. bearer_token header = Some tok \<Longrightarrow>
      identity lib (secret_of cfg) (w_clock w (w_tick w)) tok = Some ctx \<Longrightarrow>
      wp (protected_route (max_size cfg) (UserIDFromContext ctx) req) (\<lambda>st. Q (st, None)) (next_tick w)"
  shows "wp (api lib cfg (Protected header req)) Q w"
  unfolding api.simps
proof (intro wp_bindI wp_Auth, goal_cases)
  case (1 c m w')
  then show ?case by (simp add: wp_simps refuse same_env_def)
next
  case (2 tok ctx)
  show ?case
    using pass [OF 2] by (simp add: wp_bind wp_return_eta)
qed

section \<open>What a request inside a project keeps\<close>

text \<open>Origin of content: only a commit and a merge write the tables it is about.\<close>

lemma same_history_requests:
  "preserves same_history (PushHandler_UploadChunk maxSize h data)"
  "preserves same_history (LockHandler_Acquire p u body3)"
  "preserves same_history (LockHandler_Release p u body4)"
  "preserves same_history (MergeHandler_CreateBranch p body5)"
proof -
  have put: "preserves same_history (MinioStore_Put k data)" for k
    by (auto simp: preserves_def wp_simps same_history_def split: option.splits)
  have insert_chunk: "preserves same_history (ChunkStore_Insert c)" for c
    unfolding ChunkStore_Insert_def
    by (rule same_history.frame_db_exec) (auto simp: same_history_def sql_insert_chunk_Inr)
  have insert_lock: "preserves same_history (LockStore_Acquire_insert l)" for l
    unfolding LockStore_Acquire_insert_def
    by (rule same_history.frame_db_exec) (auto simp: same_history_def sql_insert_lock_Inr split: if_splits)
  have delete: "preserves same_history (db_exec (sql_delete_locks P))" for P
    by (rule same_history.frame_db_exec) (auto simp: same_history_def sql_delete_locks_Inr)
  have acquire: "preserves same_history (LockStore_Acquire l)" for l
    unfolding LockStore_Acquire_def LockStore_GetByPath_def
    by (auto intro!: frame_intros insert_lock split: option.splits sum.splits)
  show "preserves same_history (PushHandler_UploadChunk maxSize h data)"
    unfolding PushHandler_UploadChunk_def ChunkService_Upload_def Let_def
    by (auto intro!: frame_intros put insert_chunk split: option.splits)
  show "preserves same_history (LockHandler_Acquire p u body3)"
    unfolding LockHandler_Acquire_def LockService_Acquire_def LockStore_GetByPath_def Let_def
    by (auto intro!: frame_intros acquire split: option.splits sum.splits)
  show "preserves same_history (LockHandler_Release p u body4)"
    unfolding LockHandler_Release_def LockService_Release_def LockStore_Release_def Let_def
    by (auto intro!: frame_intros delete split: option.splits sum.splits)
  show "preserves same_history (MergeHandler_CreateBranch p body5)"
    unfolding MergeHandler_CreateBranch_def CommitStore_GetRef_def Let_def GenerateUUID_def
    by (auto intro!: frame_intros same_history_statements split: option.splits)
qed

definition origin_grows :: "world \<Rightarrow> world \<Rightarrow> bool" where
  "origin_grows w w' \<longleftrightarrow> (db_ok (w_db w) \<and> origin_ok (w_db w) \<longrightarrow> db_ok (w_db w') \<and> origin_ok (w_db w'))"

interpretation origin: frame_relation origin_grows
  by unfold_locales (auto simp: origin_grows_def)

lemma origin_services:
  "preserves origin_grows (CreateCommit req)" "preserves origin_grows (Execute p src tgt u msg rs)"
proof -
  show "preserves origin_grows (CreateCommit req)"
    unfolding preserves_def
  proof
    fix w :: world
    show "wp (CreateCommit req) (\<lambda>_ w'. origin_grows w w') w"
    proof (cases "db_ok (w_db w) \<and> origin_ok (w_db w)")
      case True
      then have ok: "db_ok (w_db w)" "origin_ok (w_db w)" by simp_all
      show ?thesis
        by (rule wp_mono [OF wp_conj [OF CreateCommit_spec [OF ok(1)] CreateCommit_origin [OF ok(2)]]])
          (simp add: origin_grows_def commit_post_def)
    qed (auto simp: wp_iff origin_grows_def)
  qed
  show "preserves origin_grows (Execute p src tgt u msg rs)"
    unfolding preserves_def
  proof
    fix w :: world
    show "wp (Execute p src tgt u msg rs) (\<lambda>_ w'. origin_grows w w') w"
    proof (cases "db_ok (w_db w) \<and> origin_ok (w_db w)")
      case True
      then have ok: "db_ok (w_db w)" "origin_ok (w_db w)" by simp_all
      have "wp (Execute p src tgt u msg rs) (\<lambda>_ w'. history_grows w w') w"
        using history_Execute by (simp add: preserves_def)
      from wp_conj [OF this Execute_origin [OF ok]] show ?thesis
        by (rule wp_mono) (use ok in \<open>simp add: origin_grows_def history_grows_def\<close>)
    qed (auto simp: wp_iff origin_grows_def)
  qed
qed

lemma origin_route: "preserves origin_grows (route maxSize req)"
proof -
  have weaken: "preserves origin_grows m" if "preserves same_history m" "preserves history_grows m" for m :: "'a io"
    using that unfolding preserves_def origin_grows_def
    by (auto simp: wp_iff history_grows_def intro: same_history_origin)
  have same: "preserves same_history (route maxSize req)"
    if "\<And>p u body. req \<noteq> PushCommit p u body" "\<And>p u body. req \<noteq> ExecuteMerge p u body"
    using that
    by (cases req) (auto intro!: same_history.frame_status_of same_history.frame_reads
      same_history.frame_DownloadChunk same_history_requests)
  have push: "preserves origin_grows (PushHandler_Commit p u body)" for p u body
    unfolding PushHandler_Commit_def LockService_CheckPushPaths_def LockStore_CheckPaths_def Let_def
    by (auto intro!: frame_intros origin_services split: option.splits)
  have merge: "preserves origin_grows (MergeHandler_ExecuteMerge p u body)" for p u body
    unfolding MergeHandler_ExecuteMerge_def by (auto intro!: frame_intros origin_services split: option.splits)
  consider (push) p u body where "req = PushCommit p u body" | (merge) p u body where "req = ExecuteMerge p u body"
    | (other) "\<And>p u body. req \<noteq> PushCommit p u body" "\<And>p u body. req \<noteq> ExecuteMerge p u body"
    by blast
  then show ?thesis
  proof cases
    case other
    then show ?thesis using same history_route by (intro weaken) auto
  qed (simp_all add: origin.frame_status_of push merge)
qed

section \<open>Invariants of the whole API\<close>

definition api_ok :: "world \<Rightarrow> bool" where
  "api_ok w \<longleftrightarrow> system_ok w \<and> origin_ok (w_db w)"

definition users_grow :: "world \<Rightarrow> world \<Rightarrow> bool" where
  "users_grow w w' \<longleftrightarrow> (\<exists>us. users (w_db w') = users (w_db w) @ us)"

lemma users_grow_refl: "users (w_db w') = users (w_db w) \<Longrightarrow> users_grow w w'"
  unfolding users_grow_def by (intro exI [of _ "[]"]) simp

lemma users_grow_trans: "users_grow w1 w2 \<Longrightarrow> users_grow w2 w3 \<Longrightarrow> users_grow w1 w3"
  by (auto simp: users_grow_def)

definition api_keeps :: "world \<Rightarrow> world \<Rightarrow> bool" where
  "api_keeps w w' \<longleftrightarrow> (api_ok w \<longrightarrow> api_ok w') \<and> users_grow w w' \<and> bucket_le (w_blobs w) (w_blobs w')"

lemma api_keeps_same: "w_db w' = w_db w \<Longrightarrow> w_blobs w' = w_blobs w \<Longrightarrow> api_keeps w w'"
  by (auto simp: api_keeps_def api_ok_def system_ok_def content_ok_def backed_def bucket_le_def intro: users_grow_refl)

lemma api_keeps_env: "w_db w' = w_db w \<Longrightarrow> same_env w w' \<Longrightarrow> api_keeps w w'"
  by (rule api_keeps_same) (simp_all add: same_env_def)

text \<open>A statement on users or projects.\<close>

lemma api_keeps_exec:
  assumes "same_env w w'" "chunks (w_db w') = chunks (w_db w)" "\<exists>us. users (w_db w') = users (w_db w) @ us"
    and "db_ok (w_db w) \<Longrightarrow> origin_ok (w_db w) \<Longrightarrow> db_ok (w_db w') \<and> origin_ok (w_db w')"
  shows "api_keeps w w'"
  unfolding api_keeps_def
proof (intro conjI impI)
  have blobs: "w_blobs w' = w_blobs w" using assms(1) by (simp add: same_env_def)
  assume ok: "api_ok w"
  have "content_ok w'"
    using same_content_ok [of w w'] ok blobs assms(2) by (simp add: same_content_def api_ok_def system_ok_def)
  with ok assms(4) show "api_ok w'" by (simp add: api_ok_def system_ok_def)
next
  show "users_grow w w'" using assms(3) by (simp add: users_grow_def)
  show "bucket_le (w_blobs w) (w_blobs w')" using assms(1) by (auto simp: same_env_def bucket_le_def)
qed

lemma api_keeps_route: "api_ok w \<Longrightarrow> wp (route maxSize req) (\<lambda>_ w'. api_keeps w w') w"
proof -
  assume ok: "api_ok w"
  obtain st w' where run: "run_state (route maxSize req) w = (st, w')" by fastforce
  have sys: "system_ok w" using ok by (simp add: api_ok_def)
  note step = system_ok_step [OF sys served [OF run]]
  have "origin_grows w w'" using origin_route run by (rule preservesD)
  then have "origin_ok (w_db w')" using ok by (simp add: origin_grows_def api_ok_def system_ok_def)
  moreover have "users (w_db w') = users (w_db w)" using step(2) by (simp add: history_frame_def)
  ultimately show ?thesis
    using step run by (simp add: wp_def api_keeps_def api_ok_def users_grow_refl)
qed

lemma wp_ProjectService_Delete:
  assumes "\<And>e w'. w_db w' = w_db w \<Longrightarrow> same_env w w' \<Longrightarrow> (no_faults w \<Longrightarrow> sql_delete_project p (w_db w) = Inl e) \<Longrightarrow> Q (Inl e) w'"
    and "\<And>w'. sql_delete_project p (w_db w) = Inr ((), w_db w') \<Longrightarrow> same_env w w' \<Longrightarrow> Q (Inr ()) w'"
  shows "wp (ProjectService_Delete p) Q w"
  unfolding ProjectService_Delete_def ProjectStore_Delete_def by (rule wp_db_execI) (use assms in auto)

lemma api_keeps_protected: "api_ok w \<Longrightarrow> wp (protected_route maxSize u req) (\<lambda>_ w'. api_keeps w w') w"
proof (cases req)
  case (CreateProject body)
  have "wp (ProjectService_Create n d u) (\<lambda>_ w'. api_keeps w w') w" for n d
  proof (rule wp_ProjectService_Create)
    fix p and w' :: world
    assume p: "sql_insert_project p (w_db w) = Inr ((), w_db w')" "same_env w w'"
    show "api_keeps w w'"
    proof (rule api_keeps_exec [OF p(2)])
      assume ok: "db_ok (w_db w)" "origin_ok (w_db w)"
      have "db_ok (w_db w')" using ok(1) p(1) by (rule insert_project_ok)
      moreover have "origin_ok (w_db w')"
        using ok(2) by (rule origin_cong) (use p(1) in \<open>auto simp: sql_insert_project_Inr\<close>)
      ultimately show "db_ok (w_db w') \<and> origin_ok (w_db w')" ..
    qed (use p(1) in \<open>auto simp: sql_insert_project_Inr\<close>)
  qed (simp add: api_keeps_env)
  then show ?thesis
    unfolding CreateProject protected_route.simps ProjectHandler_Create_def
    by (intro wp_status_of)
      (auto simp: wp_writeJSON wp_writeErrorJSON wp_if api_keeps_same intro!: wp_reply_resultI split: option.splits)
next
  case (DeleteProject p)
  have "wp (ProjectService_Delete p) (\<lambda>_ w'. api_keeps w w') w"
  proof (rule wp_ProjectService_Delete)
    fix w' :: world
    assume p: "sql_delete_project p (w_db w) = Inr ((), w_db w')" "same_env w w'"
    show "api_keeps w w'"
      by (rule api_keeps_exec [OF p(2)])
        (use p(1) delete_project_ok [OF _ _ p(1)] in \<open>auto simp: sql_delete_project_Inr split: if_splits\<close>)
  qed (simp add: api_keeps_env)
  then show ?thesis
    unfolding DeleteProject protected_route.simps ProjectHandler_Delete_def
    by (intro wp_status_of wp_reply_resultI) (simp_all add: wp_simps)
next
  case (InProject r)
  then show "api_ok w \<Longrightarrow> ?thesis" using api_keeps_route by simp
qed (auto simp: status_of_def wp_simps ProjectHandler_List_def ProjectHandler_Get_def ProjectService_List_def
  ProjectService_Get_def api_keeps_same split: option.splits)

lemma api_keeps_Register: "wp (AuthHandler_Register lib body) (\<lambda>_ w'. api_keeps w w') w"
proof -
  have "wp (AuthService_Register lib n e pw) (\<lambda>_ w'. api_keeps w w') w" for n e pw
  proof (rule wp_AuthService_Register)
    fix u and w' :: world
    assume u: "sql_insert_user u (w_db w) = Inr ((), w_db w')" "same_env w w'"
    show "api_keeps w w'"
    proof (rule api_keeps_exec [OF u(2)])
      assume ok: "db_ok (w_db w)" "origin_ok (w_db w)"
      have "db_ok (w_db w')" using ok(1) u(1) by (rule insert_user_ok)
      moreover have "origin_ok (w_db w')"
        using ok(2) by (rule origin_cong) (use u(1) in \<open>auto simp: sql_insert_user_Inr\<close>)
      ultimately show "db_ok (w_db w') \<and> origin_ok (w_db w')" ..
    qed (use u(1) in \<open>auto simp: sql_insert_user_Inr\<close>)
  qed (simp_all add: api_keeps_env)
  then show ?thesis
    unfolding AuthHandler_Register_def
    by (auto simp: wp_writeJSON wp_writeErrorJSON wp_if api_keeps_same intro!: wp_reply_resultI split: option.splits)
qed

text \<open>Login and refresh only read.\<close>

lemma reads_tokens:
  "preserves only_reads (AuthHandler_Login lib s body)" "preserves only_reads (AuthHandler_Refresh lib s body')"
  "preserves only_reads AuthHandler_Logout"
  unfolding AuthHandler_Login_def AuthHandler_Refresh_def AuthHandler_Logout_def
  by (auto intro!: reads.frame_reply_result reads.frame_writeJSON reads.frame_writeErrorJSON reads.frame_if
    reads.frame_Login reads.frame_RefreshAccessToken split: option.splits)

lemma api_keeps_request: "api_ok w \<Longrightarrow> wp (api lib cfg req) (\<lambda>_ w'. api_keeps w w') w"
proof (cases req)
  case (Register body)
  then show ?thesis
    using api_keeps_Register [of lib body w] by (simp add: wp_bind wp_return_eta)
next
  case (Protected header preq)
  assume ok: "api_ok w"
  show ?thesis
    unfolding Protected
  proof (rule wp_Protected)
    fix tok ctx
    have "api_ok (next_tick w)" using ok api_keeps_same [of "next_tick w" w] by (simp add: api_keeps_def)
    then have "wp (protected_route (max_size cfg) (UserIDFromContext ctx) preq) (\<lambda>_ w'. api_keeps (next_tick w) w') (next_tick w)"
      by (rule api_keeps_protected)
    then show "wp (protected_route (max_size cfg) (UserIDFromContext ctx) preq) (\<lambda>_ w'. api_keeps w w') (next_tick w)"
      by (rule wp_mono) (use \<open>api_ok (next_tick w)\<close> in \<open>simp add: api_keeps_def users_grow_def\<close>)
  qed (simp add: api_keeps_same)
qed (auto simp: wp_bind wp_return_eta only_reads_def intro!: wp_preserves [OF reads_tokens(1)] wp_preserves [OF reads_tokens(2)]
  wp_preserves [OF reads_tokens(3)] api_keeps_same)

lemma api_keeps_step:
  assumes "api_ok w" "api_step lib cfg w ev w'"
  shows "api_keeps w w'"
  using assms(2)
proof (cases rule: api_step.cases)
  case (api_served req st tp)
  from wp_run [OF api_keeps_request [OF assms(1)] api_served(2)] show ?thesis .
qed (simp add: api_keeps_same)

lemma api_keeps_run:
  assumes "api_run lib cfg w evs w'" "api_ok w"
  shows "api_ok w'" "users_grow w w'" "bucket_le (w_blobs w) (w_blobs w')"
proof -
  have "api_ok w' \<and> users_grow w w' \<and> bucket_le (w_blobs w) (w_blobs w')"
    using assms
  proof (induction rule: api_run.induct)
    case (api_Nil w)
    then show ?case by (auto simp: bucket_le_def intro: users_grow_refl)
  next
    case (api_Cons w ev w1 evs w2)
    note step = api_keeps_step [OF api_Cons.prems api_Cons.hyps(1)]
    then have ok: "api_ok w1" using api_Cons.prems by (simp add: api_keeps_def)
    from api_Cons.IH [OF ok] step show ?case
      by (auto simp: api_keeps_def intro: users_grow_trans bucket_le_trans)
  qed
  then show "api_ok w'" "users_grow w w'" "bucket_le (w_blobs w) (w_blobs w')" by blast+
qed

end
