(* ===== verification/Account_Proofs.thy ===== *)
theory Account_Proofs
  imports Api
begin

text \<open>Execution of registration, login and refresh, and the tokens that a run hands out.\<close>

section \<open>Login and refresh\<close>

lemma wp_AuthService_Login:
  assumes err: "\<And>e w'. w_db w' = w_db w \<Longrightarrow> same_env w w' \<Longrightarrow>
      (\<And>u. no_faults w \<Longrightarrow> jwt_signs lib \<Longrightarrow> row_at u_Username n (users (w_db w)) = Some u \<Longrightarrow>
        \<not> bcrypt_Compare lib (u_PasswordHash u) pw) \<Longrightarrow>
      (jwt_signs lib \<Longrightarrow> e = ErrInvalidCredentials) \<Longrightarrow> Q (Inl e) w'"
    and don: "\<And>u tp w'. w_db w' = w_db w \<Longrightarrow> same_env w w' \<Longrightarrow> row_at u_Username n (users (w_db w)) = Some u \<Longrightarrow>
      bcrypt_Compare lib (u_PasswordHash u) pw \<Longrightarrow> issued_to lib s u (w_clock w (Suc (w_tick w))) tp \<Longrightarrow> Q (Inr tp) w'"
  shows "wp (AuthService_Login lib s n pw) Q w"
proof -
  have env: "same_env w w'" if "same_env (next_tick w) w'" for w'
    using same_env_next_tick that by (rule same_env_trans)
  have fail: "Q (Inl ErrInvalidCredentials) (next_tick w)"
    if "\<And>u. no_faults w \<Longrightarrow> row_at u_Username n (users (w_db w)) = Some u \<Longrightarrow> \<not> bcrypt_Compare lib (u_PasswordHash u) pw"
    by (rule err) (use that in auto)
  show ?thesis
  proof (cases "w_fault w (w_tick w)")
    case True
    then show ?thesis
      using fail by (auto simp: AuthService_Login_def wp_simps no_faults_def)
  next
    case up: False
    show ?thesis
    proof (cases "row_at u_Username n (users (w_db w))")
      case None
      then show ?thesis using up fail by (simp add: AuthService_Login_def wp_simps)
    next
      case (Some u)
      show ?thesis
      proof (cases "bcrypt_Compare lib (u_PasswordHash u) pw")
        case True
        have "wp (generateTokenPair lib s u) Q (next_tick w)"
        proof (rule wp_generateTokenPair)
          fix e w'
          assume "w_db w' = w_db (next_tick w)" "same_env (next_tick w) w'" "\<not> jwt_signs lib"
          then show "Q (Inl e) w'" by (intro err) (auto intro: env)
        next
          fix tp w'
          assume "w_db w' = w_db (next_tick w)" "same_env (next_tick w) w'"
            "issued_to lib s u (w_clock (next_tick w) (w_tick (next_tick w))) tp"
          then show "Q (Inr tp) w'" using Some True by (intro don) (auto intro: env)
        qed
        with up Some True show ?thesis by (simp add: AuthService_Login_def wp_simps)
      next
        case False
        then have "Q (Inl ErrInvalidCredentials) (next_tick w)" using Some by (intro fail) simp
        with up Some False show ?thesis by (simp add: AuthService_Login_def wp_simps)
      qed
    qed
  qed
qed

lemma wp_RefreshAccessToken:
  assumes err: "\<And>e w'. w_db w' = w_db w \<Longrightarrow> same_env w w' \<Longrightarrow>
      (\<And>ctx. no_faults w \<Longrightarrow> jwt_signs lib \<Longrightarrow> identity lib (as_jwtSecret s) (w_clock w (w_tick w)) tok = Some ctx \<Longrightarrow>
        row_at u_ID (UserIDFromContext ctx) (users (w_db w)) = None) \<Longrightarrow> Q (Inl e) w'"
    and don: "\<And>ctx u tp w'. w_db w' = w_db w \<Longrightarrow> same_env w w' \<Longrightarrow>
      identity lib (as_jwtSecret s) (w_clock w (w_tick w)) tok = Some ctx \<Longrightarrow>
      row_at u_ID (UserIDFromContext ctx) (users (w_db w)) = Some u \<Longrightarrow>
      issued_to lib s u (w_clock w (w_tick w + 2)) tp \<Longrightarrow> Q (Inr tp) w'"
  shows "wp (RefreshAccessToken lib s tok) Q w"
proof (cases "identity lib (as_jwtSecret s) (w_clock w (w_tick w)) tok")
  case None
  have "Q (Inl e) (next_tick w)" for e by (rule err) (use None in auto)
  with None show ?thesis
    by (auto simp: RefreshAccessToken_def identity_def wp_simps split: sum.splits option.splits if_splits)
next
  case (Some ctx)
  then obtain t c where t: "jwt_Parse lib (w_clock w (w_tick w)) tok (hmac_key (as_jwtSecret s)) = Inr t" "t_Valid t"
      "t_Claims t = Some c" "ctx = claims_context c"
    by (auto simp: identity_def split: sum.splits if_splits)
  let ?i = "case string_claim c ''sub'' of Some v \<Rightarrow> v | None \<Rightarrow> ''''"
  let ?w = "next_tick (next_tick w)"
  have uid: "UserIDFromContext ctx = ?i"
    using t(4) by (simp add: UserIDFromContext_def FromContext_def claims_context_def option.case_eq_if)
  have env: "same_env w w'" if "same_env ?w w'" for w'
    using same_env_next_tick same_env_trans that by blast
  have fail: "Q (Inl e) ?w" if "no_faults w \<Longrightarrow> row_at u_ID ?i (users (w_db w)) = None" for e
    by (rule err) (use that Some uid in \<open>auto intro: env\<close>)
  have found: "wp (generateTokenPair lib s u) Q ?w" if u: "row_at u_ID ?i (users (w_db w)) = Some u" for u
  proof (rule wp_generateTokenPair)
    fix e w'
    assume "w_db w' = w_db ?w" "same_env ?w w'" "\<not> jwt_signs lib"
    then show "Q (Inl e) w'" by (intro err) (auto intro: env)
  next
    fix tp w'
    assume "w_db w' = w_db ?w" "same_env ?w w'" "issued_to lib s u (w_clock ?w (w_tick ?w)) tp"
    then show "Q (Inr tp) w'" using Some u uid by (intro don) (auto intro: env)
  qed
  have run: "wp (RefreshAccessToken lib s tok) Q w =
      wp (go_try (UserStore_GetByID ?i) (\<lambda>_. NewError ''user not found'') (generateTokenPair lib s)) Q (next_tick w)"
    using t by (simp add: RefreshAccessToken_def wp_bind wp_time_Now Let_def)
  show ?thesis
    unfolding run
    using fail found by (auto simp: wp_simps no_faults_def split: option.splits)
qed

section \<open>The tokens a request hands out\<close>

definition handed_out :: "auth_lib \<Rightarrow> Config \<Rightarrow> db \<Rightarrow> TokenPair \<Rightarrow> bool" where
  "handed_out lib cfg d tp \<longleftrightarrow> (\<exists>u \<in> set (users d). \<exists>now. issued_to lib (auth_service cfg) u now tp)"

lemma handed_out_Login:
  "wp (AuthHandler_Login lib (auth_service cfg) body) (\<lambda>r _. \<forall>tp. tokens_of r = Some tp \<longrightarrow> handed_out lib cfg (w_db w) tp) w"
proof -
  have "wp (AuthService_Login lib (auth_service cfg) n pw) (\<lambda>r _. \<forall>tp. r = Inr tp \<longrightarrow> handed_out lib cfg (w_db w) tp) w" for n pw
    by (rule wp_AuthService_Login) (auto simp: handed_out_def dest: row_at_SomeD)
  then show ?thesis
    unfolding AuthHandler_Login_def
    by (auto simp: wp_reply_result wp_writeJSON wp_writeErrorJSON wp_if tokens_of_def
      split: option.splits sum.splits)
qed

lemma handed_out_Refresh:
  "wp (AuthHandler_Refresh lib (auth_service cfg) body) (\<lambda>r _. \<forall>tp. tokens_of r = Some tp \<longrightarrow> handed_out lib cfg (w_db w) tp) w"
proof -
  have "wp (RefreshAccessToken lib (auth_service cfg) tok)
      (\<lambda>r _. \<forall>tp. r = Inr tp \<longrightarrow> handed_out lib cfg (w_db w) tp) w" for tok
    by (rule wp_RefreshAccessToken) (auto simp: handed_out_def dest: row_at_SomeD)
  then show ?thesis
    unfolding AuthHandler_Refresh_def
    by (auto simp: wp_reply_result wp_writeJSON wp_writeErrorJSON wp_if tokens_of_def
      split: option.splits sum.splits)
qed

lemma handed_out_step:
  assumes "api_step lib cfg w (ApiServed req st (Some tp)) w'"
  shows "handed_out lib cfg (w_db w) tp"
proof -
  have "wp (api lib cfg req) (\<lambda>r _. \<forall>tp. snd r = Some tp \<longrightarrow> handed_out lib cfg (w_db w) tp) w"
  proof (cases req)
    case (Login body)
    then show ?thesis using handed_out_Login by (simp add: wp_bind wp_return_eta)
  next
    case (Refresh body)
    then show ?thesis using handed_out_Refresh by (simp add: wp_bind wp_return_eta)
  qed (simp_all add: wp_bind wp_return_eta wp_iff split: prod.splits)
  moreover have "run_state (api lib cfg req) w = ((st, Some tp), w')" using assms by (auto elim: api_stepE)
  ultimately show ?thesis by (auto dest: wp_run)
qed

lemma handed_out_grow: "users_grow w w' \<Longrightarrow> handed_out lib cfg (w_db w) tp \<Longrightarrow> handed_out lib cfg (w_db w') tp"
  by (auto simp: handed_out_def users_grow_def)

lemma handed_out_run:
  "api_run lib cfg w evs w' \<Longrightarrow> api_ok w \<Longrightarrow> ApiServed req st (Some tp) \<in> set evs \<Longrightarrow> handed_out lib cfg (w_db w') tp"
proof (induction rule: api_run.induct)
  case (api_Cons w ev w1 evs w2)
  note step = api_keeps_step [OF api_Cons.prems(1) api_Cons.hyps(1)]
  then have ok: "api_ok w1" "users_grow w w1" using api_Cons.prems(1) by (simp_all add: api_keeps_def)
  have later: "users_grow w1 w2" using api_keeps_run [OF api_Cons.hyps(2) ok(1)] by blast
  show ?case
  proof (cases "ev = ApiServed req st (Some tp)")
    case True
    then have "handed_out lib cfg (w_db w) tp" using api_Cons.hyps(1) handed_out_step by blast
    then show ?thesis using handed_out_grow ok(2) later by blast
  qed (use api_Cons ok(1) in auto)
qed simp

section \<open>What a token proves\<close>

lemma NewAuthService_simps [simp]:
  "as_jwtSecret (auth_service cfg) = secret_of cfg"
  "as_accessTokenTTL (auth_service cfg) = ac_AccessTokenTTL (cfg_Auth cfg)"
  "as_refreshTokenTTL (auth_service cfg) = ac_RefreshTokenTTL (cfg_Auth cfg)"
  by (simp_all add: auth_service_def NewAuthService_def)

lemma identity_signed:
  assumes "jwt_verifies lib" "jwt_Sign lib SigningMethodHS256 claims secret = Inr tok"
    "map_of claims ''exp'' = Some (NumberClaim exp)" "map_of claims ''nbf'' = None" "0 < exp" "exp < 2 ^ 53"
  shows "identity lib secret t tok = (if t < exp * Second then Some (claims_context claims) else None)"
  using parse_signed [OF assms, of t] by (auto simp: identity_def claims_context_def)

lemma identity_faithful:
  assumes "jwt_faithful lib" "jwt_Sign lib SigningMethodHS256 claims secret = Inr tok" "identity lib secret t tok = Some ctx"
  shows "ctx = claims_context claims"
  using assms unfolding jwt_faithful_def
  by (fastforce simp: identity_def claims_context_def split: sum.splits if_splits)

lemma claims_contexts [simp]:
  "claims_context (access_claims u now ttl) =
    \<lparr>ctx_UserID = Some (u_ID u), ctx_Username = Some (u_Username u), ctx_Role = Some (u_Role u)\<rparr>"
  "claims_context (refresh_claims u now ttl) = \<lparr>ctx_UserID = Some (u_ID u), ctx_Username = None, ctx_Role = None\<rparr>"
  by (simp_all add: claims_context_def)

lemma identity_issued:
  assumes "jwt_verifies lib" "issued_to lib (auth_service cfg) u now tp"
  shows "end_of = (now + ac_AccessTokenTTL (cfg_Auth cfg)) div Second \<Longrightarrow> 0 < end_of \<Longrightarrow> end_of < 2 ^ 53 \<Longrightarrow>
    identity lib (secret_of cfg) t (tp_AccessToken tp) = (if t < end_of * Second
      then Some \<lparr>ctx_UserID = Some (u_ID u), ctx_Username = Some (u_Username u), ctx_Role = Some (u_Role u)\<rparr> else None)"
    and "end_of = (now + ac_RefreshTokenTTL (cfg_Auth cfg)) div Second \<Longrightarrow> 0 < end_of \<Longrightarrow> end_of < 2 ^ 53 \<Longrightarrow>
    identity lib (secret_of cfg) t (tp_RefreshToken tp) = (if t < end_of * Second
      then Some \<lparr>ctx_UserID = Some (u_ID u), ctx_Username = None, ctx_Role = None\<rparr> else None)"
  using assms(2)
    identity_signed [OF assms(1), of "access_claims u now (ac_AccessTokenTTL (cfg_Auth cfg))" "secret_of cfg" "tp_AccessToken tp" end_of t]
    identity_signed [OF assms(1), of "refresh_claims u now (ac_RefreshTokenTTL (cfg_Auth cfg))" "secret_of cfg" "tp_RefreshToken tp" end_of t]
  by (simp_all add: issued_to_def time_Unix_def)

end
