(* ===== verification/Demo_Auth.thy ===== *)
theory Demo_Auth
  imports Demo Account_Proofs
begin

text \<open>
  Libraries and a configuration on which the theorems about accounts are applied. The libraries
  are toys with the documented behaviour and none of the cryptography: a hash is the password with
  a prefix, a token the key and the claims written one after the other. They show that the
  hypotheses on \<open>auth_lib\<close> can hold together.
\<close>

section \<open>Lists of texts as one text\<close>

text \<open>Each character is preceded by an \<open>x\<close>, and a text ends with a full stop.\<close>

fun enc_text :: "string \<Rightarrow> string \<Rightarrow> string" where
  "enc_text [] k = CHR ''.'' # k"
| "enc_text (c # cs) k = CHR ''x'' # c # enc_text cs k"

fun split_text :: "string \<Rightarrow> string list" where
  "split_text [] = []"
| "split_text [a] = [[]]"
| "split_text (a # c # cs) =
     (if a = CHR ''.'' then [] # split_text (c # cs)
      else case split_text cs of [] \<Rightarrow> [[c]] | s # ss \<Rightarrow> (c # s) # ss)"

lemma split_enc_text [simp]: "split_text (enc_text s k) = s # split_text k"
proof (induction s)
  case Nil
  show ?case by (cases k) simp_all
qed simp

definition enc_texts :: "string list \<Rightarrow> string" where
  "enc_texts ss = foldr enc_text ss ''''"

lemma split_enc_texts [simp]: "split_text (enc_texts ss) = ss"
  by (induction ss) (simp_all add: enc_texts_def)

section \<open>Tokens\<close>

fun enc_claims :: "MapClaims \<Rightarrow> string list" where
  "enc_claims [] = []"
| "enc_claims ((k, v) # cs) = k # (case v of StringClaim s \<Rightarrow> CHR ''s'' # s | _ \<Rightarrow> '''') # enc_claims cs"

fun dec_claims :: "string list \<Rightarrow> MapClaims" where
  "dec_claims (k # v # cs) = (k, case v of [] \<Rightarrow> OtherClaim | _ # s \<Rightarrow> StringClaim s) # dec_claims cs"
| "dec_claims _ = []"

lemma string_claim_Cons:
  "string_claim ((k, v) # cs) key =
    (if k = key then case v of StringClaim s \<Rightarrow> Some s | _ \<Rightarrow> None else string_claim cs key)"
  by (simp add: string_claim_def)

lemma dec_enc_claims: "string_claim (dec_claims (enc_claims cs)) = string_claim cs"
proof (induction cs rule: enc_claims.induct)
  case (2 k v cs)
  then show ?case by (cases v) (simp_all add: fun_eq_iff string_claim_Cons)
qed simp

definition exp_text :: "MapClaims \<Rightarrow> string" where
  "exp_text claims = (case map_of claims ''exp'' of Some (NumberClaim n) \<Rightarrow> show_int n | _ \<Rightarrow> '''')"

definition demo_sign :: "jwt_method \<Rightarrow> MapClaims \<Rightarrow> string \<Rightarrow> string result" where
  "demo_sign m claims key = (case m of
     SigningMethodHMAC alg \<Rightarrow> Inr (enc_texts (alg # key # exp_text claims # enc_claims claims))
   | OtherMethod alg \<Rightarrow> Inl (NewError ''key is of invalid type''))"

definition demo_parse :: "int \<Rightarrow> string \<Rightarrow> (jwt_method \<Rightarrow> string result) \<Rightarrow> jwt_token result" where
  "demo_parse now tok keyfunc = (case split_text tok of
     alg # key # e # cs \<Rightarrow>
       (case keyfunc (SigningMethodHMAC alg) of
          Inl err \<Rightarrow> Inl err
        | Inr k \<Rightarrow>
            if k \<noteq> key then Inl (NewError ''signature is invalid'')
            else if e \<noteq> '''' \<and> fst (strconv_Atoi e) * Second \<le> now then Inl (NewError ''token is expired'')
            else Inr \<lparr>t_Valid = True, t_Claims = Some (dec_claims cs)\<rparr>)
   | _ \<Rightarrow> Inl (NewError ''token is malformed''))"

definition demo_lib :: auth_lib where
  "demo_lib = \<lparr>bcrypt_Generate = (\<lambda>salt pw cost.
       if 72 < length pw then Inl (NewError ''password too long'') else Inr (''$2a$'' @ pw)),
     bcrypt_Compare = (\<lambda>h pw. h = ''$2a$'' @ pw), jwt_Sign = demo_sign, jwt_Parse = demo_parse\<rparr>"

lemma demo_bcrypt: "bcrypt_total demo_lib" "bcrypt_exact demo_lib"
  by (auto simp: bcrypt_total_def bcrypt_exact_def demo_lib_def)

lemma demo_jwt: "jwt_signs demo_lib" "jwt_verifies demo_lib" "jwt_faithful demo_lib"
proof -
  show "jwt_signs demo_lib" by (simp add: jwt_signs_def demo_lib_def demo_sign_def)
  show "jwt_faithful demo_lib"
    by (auto simp: jwt_faithful_def demo_lib_def demo_sign_def demo_parse_def dec_enc_claims
      split: sum.splits if_splits)
  show "jwt_verifies demo_lib"
    unfolding jwt_verifies_def
    by (auto simp: demo_lib_def demo_sign_def demo_parse_def dec_enc_claims exp_text_def Atoi_show_int)
qed

section \<open>A configuration and the server with it\<close>

definition demo_env :: env where
  "demo_env key =
     (if key = ''STRATA_DB_PASSWORD'' then ''db''
      else if key = ''STRATA_JWT_SECRET'' then ''0123456789abcdef0123456789abcdef''
      else if key = ''STRATA_PORT'' then ''9000''
      else if key = ''STRATA_ACCESS_TOKEN_TTL'' then ''4s''
      else if key = ''STRATA_REFRESH_TOKEN_TTL'' then ''9s''
      else if key = ''STRATA_MAX_CHUNK_SIZE'' then ''8MB'' else '''')"

definition demo_cfg :: Config where
  "demo_cfg = read_config (\<lambda>_ _ _. 0) demo_env"

lemma demo_cfg_values:
  "ac_JWTSecret (cfg_Auth demo_cfg) = ''0123456789abcdef0123456789abcdef''"
  "ac_AccessTokenTTL (cfg_Auth demo_cfg) = 4 * Second"
  "ac_RefreshTokenTTL (cfg_Auth demo_cfg) = 9 * Second"
  by code_simp+

text \<open>A login of the first user, as the service would answer it at the start of the clock.\<close>

definition demo_tokens :: TokenPair where
  "demo_tokens = \<lparr>tp_AccessToken = projr (demo_sign SigningMethodHS256
       (access_claims (demo_user ''alice'') 0 (4 * Second)) (ac_JWTSecret (cfg_Auth demo_cfg))),
     tp_RefreshToken = projr (demo_sign SigningMethodHS256
       (refresh_claims (demo_user ''alice'') 0 (9 * Second)) (ac_JWTSecret (cfg_Auth demo_cfg))),
     tp_ExpiresIn = 4\<rparr>"

lemma demo_issued: "issued_to demo_lib (auth_service demo_cfg) (demo_user ''alice'') 0 demo_tokens"
  by (simp add: issued_to_def demo_tokens_def auth_service_def NewAuthService_def demo_cfg_values demo_lib_def
    demo_sign_def whole_seconds_def Second_def)

lemma demo_api_ok: "api_ok demo_bare"
proof -
  let ?d = "w_db demo_bare"
  have parents: "(''c1'', ''c0'') \<in> parent_of (commits ?d)" "(''c2'', ''c0'') \<in> parent_of (commits ?d)"
    by (auto simp: parent_of_def demo_bare_def demo_def demo_defs)
  then have "reaches ?d ''c1'' ''c0''" "reaches ?d ''c2'' ''c0''" by (auto simp: reaches_def)
  moreover have "reaches ?d c c" for c by (simp add: reaches_def)
  ultimately have "provenance ?d"
    unfolding provenance_def written_by_def by (simp add: demo_bare_def demo_def demo_defs)
  moreover have "merges_local ?d" "versions_local ?d"
    by (simp_all add: merges_local_def versions_local_def demo_bare_def demo_def demo_defs)
  ultimately show ?thesis using demo_bare_ok by (simp add: api_ok_def origin_ok_def)
qed

definition demo_header :: string where
  "demo_header = ''Bearer '' @ tp_AccessToken demo_tokens"

text \<open>A new member of the example server.\<close>

definition demo_register :: api_request where
  "demo_register = Register (Some \<lparr>rq_Username = ''carol'', rq_Email = ''c@x'', rq_Password = ''carols-word''\<rparr>)"

definition demo_joined :: world where
  "demo_joined = snd (run_state (api demo_lib demo_cfg demo_register) demo_bare)"

lemma demo_registered: "fst (run_state (api demo_lib demo_cfg demo_register) demo_bare) = (201, None)"
  by code_simp

lemma demo_register_run: "run_state (api demo_lib demo_cfg demo_register) demo_bare = ((201, None), demo_joined)"
  using demo_registered unfolding demo_joined_def by (metis prod.collapse)

lemma demo_joined_ok: "api_ok demo_joined"
  using api_keeps_step [OF demo_api_ok api_served [OF demo_register_run]] demo_api_ok by (simp add: api_keeps_def)

definition demo_login :: api_request where
  "demo_login = Login (Some \<lparr>lr_Username = ''carol'', lr_Password = ''carols-word''\<rparr>)"

definition demo_pair :: TokenPair where
  "demo_pair = the (snd (fst (run_state (api demo_lib demo_cfg demo_login) demo_joined)))"

lemma demo_login_run: "\<exists>w'. run_state (api demo_lib demo_cfg demo_login) demo_joined = ((200, Some demo_pair), w')"
proof -
  have "fst (fst (run_state (api demo_lib demo_cfg demo_login) demo_joined)) = 200" by code_simp
  moreover have "snd (fst (run_state (api demo_lib demo_cfg demo_login) demo_joined)) \<noteq> None" by code_simp
  ultimately show ?thesis unfolding demo_pair_def by (metis option.collapse prod.collapse)
qed

end
