(* ===== verification/Account_Properties.thy ===== *)
theory Account_Properties
  imports Demo_Auth
begin

text \<open>
  The properties of accounts and tokens (\<^verbatim>\<open>internal/service/auth.go\<close>, \<^verbatim>\<open>internal/handler/auth.go\<close>,
  \<^verbatim>\<open>internal/middleware/auth.go\<close>) and of the configuration (\<^verbatim>\<open>internal/config/config.go\<close>). What
  they assume of bcrypt and jwt is stated in \<open>Auth_Service\<close>, and holds of the libraries of
  \<open>Demo_Auth\<close>.
\<close>

section \<open>The gate in front of the protected routes\<close>

definition proven_identity :: "auth_lib \<Rightarrow> Config \<Rightarrow> int \<Rightarrow> string \<Rightarrow> Context option" where
  "proven_identity lib cfg now header = Option.bind (bearer_token header) (identity lib (secret_of cfg) now)"

text \<open>C8: Behind the gate a request acts for the identity its token proves, and for nobody else: without a
  bearer token that jwt accepts at that moment the reply is 401 and nothing changes; with one, the
  request does exactly what its route does for the user named in the token.\<close>

theorem protected_gate:
  assumes "run_state (api lib cfg (Protected header req)) w = ((st, tp), w')"
  shows "case proven_identity lib cfg (w_clock w (w_tick w)) header of
      None \<Rightarrow> st = 401 \<and> w_db w' = w_db w \<and> w_blobs w' = w_blobs w
    | Some ctx \<Rightarrow> run_state (protected_route (max_size cfg) (UserIDFromContext ctx) req) (next_tick w) = (st, w')"
proof -
  have "wp (api lib cfg (Protected header req)) (\<lambda>r w'. case proven_identity lib cfg (w_clock w (w_tick w)) header of
      None \<Rightarrow> fst r = 401 \<and> w_db w' = w_db w \<and> w_blobs w' = w_blobs w
    | Some ctx \<Rightarrow> run_state (protected_route (max_size cfg) (UserIDFromContext ctx) req) (next_tick w) = (fst r, w')) w"
    by (rule wp_Protected) (auto simp: proven_identity_def wp_iff Option.bind_eq_None_conv Option.bind_eq_Some_conv split: option.splits)
  from wp_run [OF this assms] show ?thesis unfolding fst_conv .
qed

theorem protected_gate_witness:
  "fst (run_state (api demo_lib demo_cfg (Protected ''Basic x'' ListProjects)) demo_bare) = (401, None)
    \<and> fst (run_state (api demo_lib demo_cfg (Protected demo_header ListProjects)) demo_bare) = (200, None)"
proof -
  obtain st tp w' where run: "run_state (api demo_lib demo_cfg (Protected ''Basic x'' ListProjects)) demo_bare = ((st, tp), w')"
    by (metis prod.collapse)
  have "proven_identity demo_lib demo_cfg (w_clock demo_bare (w_tick demo_bare)) ''Basic x'' = None" by code_simp
  then have "st = 401" using protected_gate [OF run] by simp
  moreover have "snd (fst (run_state (api demo_lib demo_cfg (Protected ''Basic x'' ListProjects)) demo_bare)) = None" by code_simp
  moreover have "fst (run_state (api demo_lib demo_cfg (Protected demo_header ListProjects)) demo_bare) = (200, None)" by code_simp
  ultimately show ?thesis using run by simp
qed

text \<open>C20: Tokens name accounts: whatever happens in a run, an access or refresh token that the server has handed
  out proves, at any time, at most the identity of a registered user.\<close>

theorem issued_tokens_name_users:
  assumes "jwt_faithful lib" "api_ok w" "api_run lib cfg w evs w'" "ApiServed req st (Some tp) \<in> set evs"
    and "tok \<in> {tp_AccessToken tp, tp_RefreshToken tp}" "identity lib (secret_of cfg) t tok = Some ctx"
  shows "\<exists>u \<in> set (users (w_db w')). UserIDFromContext ctx = u_ID u \<and> ctx_Username ctx \<in> {None, Some (u_Username u)}"
proof -
  have "handed_out lib cfg (w_db w') tp" using handed_out_run [OF assms(3,2,4)] .
  then obtain u now where "u \<in> set (users (w_db w'))" "issued_to lib (auth_service cfg) u now tp"
    by (auto simp: handed_out_def)
  then show ?thesis
    using assms(5) identity_faithful [OF assms(1) _ assms(6)]
    by (auto simp: issued_to_def UserIDFromContext_def FromContext_def)
qed

theorem issued_tokens_name_users_witness:
  "\<exists>w' u. api_run demo_lib demo_cfg demo_joined [ApiServed demo_login 200 (Some demo_pair)] w' \<and> u \<in> set (users (w_db w'))
    \<and> map_option UserIDFromContext (identity demo_lib (secret_of demo_cfg) 0 (tp_RefreshToken demo_pair)) = Some (u_ID u)"
proof -
  obtain w' where "run_state (api demo_lib demo_cfg demo_login) demo_joined = ((200, Some demo_pair), w')"
    using demo_login_run by blast
  then have run: "api_run demo_lib demo_cfg demo_joined [ApiServed demo_login 200 (Some demo_pair)] w'"
    by (auto intro: api_served)
  have "identity demo_lib (secret_of demo_cfg) 0 (tp_RefreshToken demo_pair) \<noteq> None" by code_simp
  then obtain ctx where ctx: "identity demo_lib (secret_of demo_cfg) 0 (tp_RefreshToken demo_pair) = Some ctx" by blast
  from issued_tokens_name_users [OF demo_jwt(3) demo_joined_ok run _ _ ctx] run ctx show ?thesis by force
qed

section \<open>Registration and login\<close>

text \<open>C23: A registration is answered with 400 for its form, with 409 exactly when the name or the address is
  taken or too long for its column, and otherwise with 201; only then there is a change, one new
  member with this name and address. (Working store, password of at most 72 bytes, new identifier.)\<close>

theorem register_exact:
  assumes "no_faults w" "bcrypt_total lib" "length pw \<le> 72" "uuid_at w (w_tick w + 2) \<notin> u_ID ` set (users (w_db w))"
    and "run_state (api lib cfg (Register (Some \<lparr>rq_Username = n, rq_Email = e, rq_Password = pw\<rparr>))) w = ((st, tp), w')"
  shows "st = (if n = '''' \<or> e = '''' \<or> length pw < 8 then 400
      else if n \<in> u_Username ` set (users (w_db w)) \<or> e \<in> u_Email ` set (users (w_db w))
        \<or> 64 < char_count n \<or> 256 < char_count e then 409 else 201)
    \<and> (if st = 201 then \<exists>u. new_user u n e \<and> w_db w' = (w_db w)\<lparr>users := users (w_db w) @ [u]\<rparr> else w_db w' = w_db w)"
proof -
  let ?taken = "n \<in> u_Username ` set (users (w_db w)) \<or> e \<in> u_Email ` set (users (w_db w))
        \<or> 64 < char_count n \<or> 256 < char_count e"
  have role: "char_count ''member'' \<le> 32" by code_simp
  have exists: "(\<exists>d'. sql_insert_user u (w_db w) = Inr ((), d')) \<longleftrightarrow> \<not> ?taken"
    if "new_user u n e" "u_ID u = uuid_at w (w_tick w + 2)" for u
    using that assms(4) role by (auto simp: sql_insert_user_Inr new_user_def not_less)
  have "wp (AuthService_Register lib n e pw) (\<lambda>r w'. case r of
      Inl x \<Rightarrow> x = ErrUserExists \<and> ?taken \<and> w_db w' = w_db w
    | Inr u \<Rightarrow> \<not> ?taken \<and> new_user u n e \<and> w_db w' = (w_db w)\<lparr>users := users (w_db w) @ [u]\<rparr>) w"
  proof (rule wp_AuthService_Register, goal_cases)
    case (2 u w')
    then show ?case using exists [of u] assms(1) by simp
  next
    case (3 u w' salt)
    then show ?case by (auto simp: sql_insert_user_Inr new_user_def)
  qed (use assms(2,3) in auto)
  then have "wp (api lib cfg (Register (Some \<lparr>rq_Username = n, rq_Email = e, rq_Password = pw\<rparr>))) (\<lambda>(st, tp) w'.
      st = (if n = '''' \<or> e = '''' \<or> length pw < 8 then 400 else if ?taken then 409 else 201)
      \<and> (if st = 201 then \<exists>u. new_user u n e \<and> w_db w' = (w_db w)\<lparr>users := users (w_db w) @ [u]\<rparr> else w_db w' = w_db w)) w"
    by (auto simp: AuthHandler_Register_def wp_simps wp_reply_result elim!: wp_mono split: sum.splits)
  from wp_run [OF this assms(5)] show ?thesis by simp
qed

theorem register_exact_witness:
  "\<exists>u. new_user u ''carol'' ''c@x'' \<and> users (w_db demo_joined) = users (w_db demo_bare) @ [u]"
proof -
  have no_faults: "no_faults demo_bare" using demo_no_faults by (simp add: demo_bare_def no_faults_def)
  have fresh: "uuid_at demo_bare (w_tick demo_bare + 2) \<notin> u_ID ` set (users (w_db demo_bare))" by code_simp
  have pw: "length ''carols-word'' \<le> 72" by simp
  from register_exact [OF no_faults demo_bcrypt(1) pw fresh demo_register_run [unfolded demo_register_def]]
  show ?thesis by auto
qed

lemma wp_Register_created:
  "wp (api lib cfg (Register (Some rq))) (\<lambda>r w'. same_env w w' \<and> (fst r = 201 \<longrightarrow> (\<exists>u salt. users (w_db w') = users (w_db w) @ [u]
    \<and> new_user u (rq_Username rq) (rq_Email rq)
    \<and> bcrypt_Generate lib salt (rq_Password rq) bcrypt_DefaultCost = Inr (u_PasswordHash u)))) w"
proof -
  have "wp (AuthService_Register lib (rq_Username rq) (rq_Email rq) (rq_Password rq)) (\<lambda>r w'. same_env w w' \<and> (case r of
      Inl x \<Rightarrow> True
    | Inr u \<Rightarrow> \<exists>salt. users (w_db w') = users (w_db w) @ [u] \<and> new_user u (rq_Username rq) (rq_Email rq)
    \<and> bcrypt_Generate lib salt (rq_Password rq) bcrypt_DefaultCost = Inr (u_PasswordHash u))) w"
    by (rule wp_AuthService_Register) (auto simp: sql_insert_user_Inr)
  then show ?thesis
    by (auto simp: AuthHandler_Register_def wp_simps wp_reply_result elim!: wp_mono split: sum.splits)
qed

text \<open>C19: Once somebody has registered, then however the run goes on, a login under that name succeeds, with
  tokens, exactly for the password of the registration, when the store works at the time of the login.\<close>

theorem login_iff_password:
  assumes "bcrypt_exact lib" "jwt_signs lib" "api_ok w"
    and "run_state (api lib cfg (Register (Some \<lparr>rq_Username = n, rq_Email = e, rq_Password = pw\<rparr>))) w = ((201, t1), w1)"
    and "api_run lib cfg w1 evs w2" "no_faults w2" "plain_password pw" "plain_password pw'"
    and "run_state (api lib cfg (Login (Some \<lparr>lr_Username = n, lr_Password = pw'\<rparr>))) w2 = ((st, tp), w3)"
  shows "st = (if pw' = pw then 200 else 401) \<and> (tp \<noteq> None \<longleftrightarrow> pw' = pw)"
proof -
  from wp_run [OF wp_Register_created assms(4)] obtain u salt where
      "users (w_db w1) = users (w_db w) @ [u]" "new_user u n e"
      "bcrypt_Generate lib salt pw bcrypt_DefaultCost = Inr (u_PasswordHash u)"
    by auto
  then have u: "u \<in> set (users (w_db w1))" "u_Username u = n"
      "bcrypt_Generate lib salt pw bcrypt_DefaultCost = Inr (u_PasswordHash u)"
    by (simp_all add: new_user_def)
  have "api_keeps w w1" using api_keeps_step [OF assms(3) api_served [OF assms(4)]] .
  then have "api_ok w1" using assms(3) by (simp add: api_keeps_def)
  note later = api_keeps_run [OF assms(5) this]
  have "u \<in> set (users (w_db w2))" using u(1) later(2) by (auto simp: users_grow_def)
  moreover have "users_ok (w_db w2)" using later(1) by (simp add: api_ok_def system_ok_def db_ok_def schema_ok_def)
  ultimately have row: "row_at u_Username n (users (w_db w2)) = Some u" using user_found u(2) by blast
  have match: "bcrypt_Compare lib (u_PasswordHash u) pw' \<longleftrightarrow> pw' = pw"
    using assms(1,7,8) u(3) unfolding bcrypt_exact_def by blast
  have "wp (AuthService_Login lib (auth_service cfg) n pw') (\<lambda>r w'. case r of
      Inl x \<Rightarrow> x = ErrInvalidCredentials \<and> pw' \<noteq> pw | Inr t \<Rightarrow> pw' = pw) w2"
    by (rule wp_AuthService_Login) (use assms(2,6) row match in auto)
  then have "wp (api lib cfg (Login (Some \<lparr>lr_Username = n, lr_Password = pw'\<rparr>)))
      (\<lambda>r w'. fst r = (if pw' = pw then 200 else 401) \<and> (snd r \<noteq> None \<longleftrightarrow> pw' = pw)) w2"
    by (auto simp: AuthHandler_Login_def wp_simps wp_reply_result tokens_of_def elim!: wp_mono split: sum.splits)
  from wp_run [OF this assms(9)] show ?thesis by simp
qed

theorem login_iff_password_witness:
  "\<exists>tp w3. run_state (api demo_lib demo_cfg (Login (Some \<lparr>lr_Username = ''carol'', lr_Password = ''guess''\<rparr>))) demo_joined
    = ((401, tp), w3)"
proof -
  have "same_env demo_bare demo_joined"
    using wp_run [OF wp_Register_created demo_register_run [unfolded demo_register_def]] by simp
  then have joined: "no_faults demo_joined"
    using demo_no_faults by (simp add: same_env_def demo_bare_def no_faults_def)
  have later: "api_run demo_lib demo_cfg demo_joined [ApiElapsed] demo_joined"
    by (auto intro: api_elapsed)
  have "plain_password ''carols-word''" "plain_password ''guess''" by (simp_all add: plain_password_def)
  note fixed = login_iff_password [OF demo_bcrypt(2) demo_jwt(1) demo_api_ok demo_register_run [unfolded demo_register_def]
      later joined this]
  obtain st tp w3 where "run_state (api demo_lib demo_cfg
      (Login (Some \<lparr>lr_Username = ''carol'', lr_Password = ''guess''\<rparr>))) demo_joined = ((st, tp), w3)"
    by (metis prod.collapse)
  with fixed [OF this] show ?thesis by simp
qed

section \<open>What tokens are good for\<close>

lemma wp_Login_tokens:
  "wp (api lib cfg (Login (Some \<lparr>lr_Username = n, lr_Password = pw\<rparr>))) (\<lambda>r w'. \<forall>tp. snd r = Some tp \<longrightarrow>
    (\<exists>u. row_at u_Username n (users (w_db w)) = Some u \<and> bcrypt_Compare lib (u_PasswordHash u) pw
      \<and> issued_to lib (auth_service cfg) u (w_clock w (Suc (w_tick w))) tp)) w"
proof -
  have "wp (AuthService_Login lib (auth_service cfg) n pw) (\<lambda>r w'. \<forall>tp. r = Inr tp \<longrightarrow>
    (\<exists>u. row_at u_Username n (users (w_db w)) = Some u \<and> bcrypt_Compare lib (u_PasswordHash u) pw
      \<and> issued_to lib (auth_service cfg) u (w_clock w (Suc (w_tick w))) tp)) w"
    by (rule wp_AuthService_Login) auto
  then show ?thesis
    by (auto simp: AuthHandler_Login_def wp_simps wp_reply_result tokens_of_def elim!: wp_mono split: sum.splits)
qed

text \<open>C26: The access token of a login works for the user who gave the password, from then on for the configured
  lifetime cut to whole seconds, and not after it.\<close>

theorem access_token_lifetime:
  assumes "jwt_verifies lib"
    and "run_state (api lib cfg (Login (Some \<lparr>lr_Username = n, lr_Password = pw\<rparr>))) w = ((st, Some tp), w')"
    and "end_of = (w_clock w (Suc (w_tick w)) + ac_AccessTokenTTL (cfg_Auth cfg)) div Second"
    and "0 < end_of" "end_of < 2 ^ 53"
  shows "\<exists>u \<in> set (users (w_db w)). u_Username u = n \<and> bcrypt_Compare lib (u_PasswordHash u) pw
    \<and> (\<forall>t. proven_identity lib cfg t (''Bearer '' @ tp_AccessToken tp) = (if t < end_of * Second
        then Some \<lparr>ctx_UserID = Some (u_ID u), ctx_Username = Some n, ctx_Role = Some (u_Role u)\<rparr> else None))"
proof -
  obtain u where u: "row_at u_Username n (users (w_db w)) = Some u" "bcrypt_Compare lib (u_PasswordHash u) pw"
      "issued_to lib (auth_service cfg) u (w_clock w (Suc (w_tick w))) tp"
    using wp_run [OF wp_Login_tokens assms(2)] by auto
  have "u \<in> set (users (w_db w)) \<and> u_Username u = n" using row_at_SomeD [OF u(1)] .
  moreover have "proven_identity lib cfg t (''Bearer '' @ tp_AccessToken tp) = (if t < end_of * Second
      then Some \<lparr>ctx_UserID = Some (u_ID u), ctx_Username = Some (u_Username u), ctx_Role = Some (u_Role u)\<rparr> else None)" for t
    unfolding proven_identity_def bearer_header
    by (simp add: identity_issued(1) [OF assms(1) u(3) assms(3-5)])
  ultimately show ?thesis using u(2) by blast
qed

lemma demo_ends:
  "4 = (w_clock demo_joined (Suc (w_tick demo_joined)) + ac_AccessTokenTTL (cfg_Auth demo_cfg)) div Second"
  "9 = (w_clock demo_joined (Suc (w_tick demo_joined)) + ac_RefreshTokenTTL (cfg_Auth demo_cfg)) div Second"
  by code_simp+

theorem access_token_lifetime_witness:
  "proven_identity demo_lib demo_cfg (3 * Second) (''Bearer '' @ tp_AccessToken demo_pair) \<noteq> None
    \<and> proven_identity demo_lib demo_cfg (4 * Second) (''Bearer '' @ tp_AccessToken demo_pair) = None"
proof -
  obtain w' where run: "run_state (api demo_lib demo_cfg demo_login) demo_joined = ((200, Some demo_pair), w')"
    using demo_login_run by blast
  from access_token_lifetime [OF demo_jwt(2) run [unfolded demo_login_def] demo_ends(1)] show ?thesis
    by (auto simp: Second_def)
qed

text \<open>C27: A refresh token opens the protected routes as well: the middleware does not look at the claim called type, so
  until its own, longer lifetime ends it proves the identity of its user.\<close>

theorem refresh_token_is_access_token:
  assumes "jwt_verifies lib"
    and "run_state (api lib cfg (Login (Some \<lparr>lr_Username = n, lr_Password = pw\<rparr>))) w = ((st, Some tp), w')"
    and "end_of = (w_clock w (Suc (w_tick w)) + ac_RefreshTokenTTL (cfg_Auth cfg)) div Second"
    and "0 < end_of" "end_of < 2 ^ 53"
  shows "\<exists>u \<in> set (users (w_db w)). u_Username u = n
    \<and> (\<forall>t. proven_identity lib cfg t (''Bearer '' @ tp_RefreshToken tp) = (if t < end_of * Second
        then Some \<lparr>ctx_UserID = Some (u_ID u), ctx_Username = None, ctx_Role = None\<rparr> else None))"
proof -
  obtain u where u: "row_at u_Username n (users (w_db w)) = Some u"
      "issued_to lib (auth_service cfg) u (w_clock w (Suc (w_tick w))) tp"
    using wp_run [OF wp_Login_tokens assms(2)] by auto
  have "u \<in> set (users (w_db w)) \<and> u_Username u = n" using row_at_SomeD [OF u(1)] .
  moreover have "proven_identity lib cfg t (''Bearer '' @ tp_RefreshToken tp) = (if t < end_of * Second
      then Some \<lparr>ctx_UserID = Some (u_ID u), ctx_Username = None, ctx_Role = None\<rparr> else None)" for t
    unfolding proven_identity_def bearer_header
    by (simp add: identity_issued(2) [OF assms(1) u(2) assms(3-5)])
  ultimately show ?thesis by blast
qed

theorem refresh_token_is_access_token_witness:
  "proven_identity demo_lib demo_cfg (8 * Second) (''Bearer '' @ tp_RefreshToken demo_pair) \<noteq> None"
proof -
  obtain w' where run: "run_state (api demo_lib demo_cfg demo_login) demo_joined = ((200, Some demo_pair), w')"
    using demo_login_run by blast
  from refresh_token_is_access_token [OF demo_jwt(2) run [unfolded demo_login_def] demo_ends(2)] show ?thesis
    by (auto simp: Second_def)
qed

text \<open>An access token is a refresh token too: presented to the refresh route before it ends it yields a new
  pair with a new lifetime, so that a session never has to end.\<close>

theorem access_token_renews_itself:
  assumes "jwt_verifies lib" "jwt_signs lib" "api_ok w" "no_faults w" "u \<in> set (users (w_db w))"
    and "issued_to lib (auth_service cfg) u now tp"
    and "end_of = (now + ac_AccessTokenTTL (cfg_Auth cfg)) div Second" "0 < end_of" "end_of < 2 ^ 53"
    and "w_clock w (w_tick w) < end_of * Second"
  shows "\<exists>tp' w'. run_state (api lib cfg (Refresh (Some (tp_AccessToken tp)))) w = ((200, Some tp'), w')
    \<and> issued_to lib (auth_service cfg) u (w_clock w (w_tick w + 2)) tp'"
proof -
  let ?ctx = "\<lparr>ctx_UserID = Some (u_ID u), ctx_Username = Some (u_Username u), ctx_Role = Some (u_Role u)\<rparr>"
  have ident: "identity lib (secret_of cfg) (w_clock w (w_tick w)) (tp_AccessToken tp) = Some ?ctx"
    using assms(10) by (simp add: identity_issued(1) [OF assms(1,6-9)])
  have uid: "UserIDFromContext ?ctx = u_ID u" by (simp add: UserIDFromContext_def FromContext_def)
  have "users_ok (w_db w)" using assms(3) by (simp add: api_ok_def system_ok_def db_ok_def schema_ok_def)
  then have row: "row_at u_ID (u_ID u) (users (w_db w)) = Some u" using user_found assms(5) by blast
  have "wp (RefreshAccessToken lib (auth_service cfg) (tp_AccessToken tp)) (\<lambda>r w'.
      \<exists>tp'. r = Inr tp' \<and> issued_to lib (auth_service cfg) u (w_clock w (w_tick w + 2)) tp') w"
    by (rule wp_RefreshAccessToken) (use assms(2,4) ident row uid in auto)
  then have "wp (api lib cfg (Refresh (Some (tp_AccessToken tp)))) (\<lambda>r w'.
      \<exists>tp'. r = (200, Some tp') \<and> issued_to lib (auth_service cfg) u (w_clock w (w_tick w + 2)) tp') w"
    by (auto simp: AuthHandler_Refresh_def wp_simps wp_reply_result tokens_of_def elim!: wp_mono)
  then show ?thesis by (auto simp: wp_def)
qed

theorem access_token_renews_itself_witness:
  "\<exists>tp' w'. run_state (api demo_lib demo_cfg (Refresh (Some (tp_AccessToken demo_tokens)))) demo_bare = ((200, Some tp'), w')"
proof -
  have "no_faults demo_bare" using demo_no_faults by (simp add: demo_bare_def no_faults_def)
  moreover have "demo_user ''alice'' \<in> set (users (w_db demo_bare))" by (simp add: demo_bare_def demo_def demo_db_def)
  moreover have "4 = (0 + ac_AccessTokenTTL (cfg_Auth demo_cfg)) div Second" by code_simp
  moreover have "w_clock demo_bare (w_tick demo_bare) < 4 * Second" by code_simp
  ultimately show ?thesis
    using access_token_renews_itself [OF demo_jwt(2,1) demo_api_ok _ _ demo_issued] by fastforce
qed

section \<open>Outages\<close>

text \<open>An outage of the store is reported as a mistake of the client: while no statement gets through, a
  registration under a free name is answered with 409 as taken, a login with the right password with 401, a new
  project with 409 as taken, and the request for an existing project with 404.\<close>

theorem outage_blames_client:
  assumes "\<forall>n. w_fault w n" "bcrypt_total lib"
    and "n \<noteq> ''''" "e \<noteq> ''''" "8 \<le> length pw" "length pw \<le> 72" "name \<noteq> ''''"
  shows "fst (run_state (AuthHandler_Register lib (Some \<lparr>rq_Username = n, rq_Email = e, rq_Password = pw\<rparr>)) w)
      = ErrorReply 409 ''USER_EXISTS'' ''Username or email already exists''
    \<and> fst (run_state (AuthHandler_Login lib s (Some \<lparr>lr_Username = n, lr_Password = pw\<rparr>)) w)
      = ErrorReply 401 ''AUTH_INVALID_CREDENTIALS'' ''Invalid username or password''
    \<and> fst (run_state (ProjectHandler_Create u (Some \<lparr>cp_Name = name, cp_Description = descr\<rparr>)) w)
      = ErrorReply 409 ''PROJECT_EXISTS'' ''Project name already exists''
    \<and> fst (run_state (ProjectHandler_Get p) w) = ErrorReply 404 ''PROJECT_NOT_FOUND'' ''Project not found''"
proof (intro conjI)
  obtain h where h: "bcrypt_Generate lib (take 16 (w_rand w (w_tick w) @ replicate 16 0)) pw bcrypt_DefaultCost = Inr h"
    using assms(2,6) by (auto simp: bcrypt_total_def)
  have long: "pw \<noteq> []" "\<not> length pw < 8" using assms(5) by auto
  have "wp (AuthHandler_Register lib (Some \<lparr>rq_Username = n, rq_Email = e, rq_Password = pw\<rparr>))
      (\<lambda>r _. r = ErrorReply 409 ''USER_EXISTS'' ''Username or email already exists'') w"
    using assms(1,3-4) long h
    by (simp add: AuthHandler_Register_def AuthService_Register_def UserStore_Create_def wp_simps wp_reply_result
      wp_generateUUID Let_def)
  then show "fst (run_state (AuthHandler_Register lib (Some \<lparr>rq_Username = n, rq_Email = e, rq_Password = pw\<rparr>)) w)
      = ErrorReply 409 ''USER_EXISTS'' ''Username or email already exists''"
    by (simp add: wp_iff)
  have "wp (AuthHandler_Login lib s (Some \<lparr>lr_Username = n, lr_Password = pw\<rparr>))
      (\<lambda>r _. r = ErrorReply 401 ''AUTH_INVALID_CREDENTIALS'' ''Invalid username or password'') w"
    using assms(1) by (simp add: AuthHandler_Login_def AuthService_Login_def wp_simps wp_reply_result)
  then show "fst (run_state (AuthHandler_Login lib s (Some \<lparr>lr_Username = n, lr_Password = pw\<rparr>)) w)
      = ErrorReply 401 ''AUTH_INVALID_CREDENTIALS'' ''Invalid username or password''"
    by (simp add: wp_iff)
  have "wp (ProjectHandler_Create u (Some \<lparr>cp_Name = name, cp_Description = descr\<rparr>))
      (\<lambda>r _. r = ErrorReply 409 ''PROJECT_EXISTS'' ''Project name already exists'') w"
    using assms(1,7)
    by (simp add: ProjectHandler_Create_def ProjectService_Create_def ProjectStore_Create_def wp_simps wp_reply_result
      wp_generateUUID Let_def)
  then show "fst (run_state (ProjectHandler_Create u (Some \<lparr>cp_Name = name, cp_Description = descr\<rparr>)) w)
      = ErrorReply 409 ''PROJECT_EXISTS'' ''Project name already exists''"
    by (simp add: wp_iff)
  have "wp (ProjectHandler_Get p)
      (\<lambda>r _. r = ErrorReply 404 ''PROJECT_NOT_FOUND'' ''Project not found'') w"
    using assms(1) by (simp add: ProjectHandler_Get_def ProjectService_Get_def wp_simps wp_reply_result)
  then show "fst (run_state (ProjectHandler_Get p) w) = ErrorReply 404 ''PROJECT_NOT_FOUND'' ''Project not found''"
    by (simp add: wp_iff)
qed

theorem outage_blames_client_witness:
  "fst (run_state (AuthHandler_Login demo_lib (auth_service demo_cfg)
      (Some \<lparr>lr_Username = ''carol'', lr_Password = ''carols-word''\<rparr>)) (demo_joined\<lparr>w_fault := \<lambda>_. True\<rparr>))
    = ErrorReply 401 ''AUTH_INVALID_CREDENTIALS'' ''Invalid username or password''"
  using outage_blames_client [of "demo_joined\<lparr>w_fault := \<lambda>_. True\<rparr>" demo_lib "''carol''" "''c@x''" "''carols-word''" "''x''"]
    demo_bcrypt(1) by simp

section \<open>Configuration\<close>

text \<open>The server starts exactly with a database password and a signing secret of at least 32 bytes, and the
  secret of the token service is then the one of the environment.\<close>

theorem load_accepts_iff:
  "case Load fscale getenv of
      Inr cfg \<Rightarrow> getenv ''STRATA_DB_PASSWORD'' \<noteq> '''' \<and> 32 \<le> length (getenv ''STRATA_JWT_SECRET'')
        \<and> as_jwtSecret (auth_service cfg) = getenv ''STRATA_JWT_SECRET''
    | Inl e \<Rightarrow> getenv ''STRATA_DB_PASSWORD'' = '''' \<or> length (getenv ''STRATA_JWT_SECRET'') < 32"
proof (cases "Load fscale getenv")
  case (Inl e)
  then have "Load fscale getenv \<noteq> Inr (read_config fscale getenv)" by simp
  then have "getenv ''STRATA_DB_PASSWORD'' = '''' \<or> length (getenv ''STRATA_JWT_SECRET'') < 32"
    by (simp only: Load_Inr not_le) auto
  with Inl show ?thesis by simp
next
  case (Inr cfg)
  with Inr [unfolded Load_Inr] show ?thesis by simp
qed

text \<open>C28: Numbers of the environment are read as they are written: the port and the chunk limit of a loaded
  configuration are the 64 bit numbers whose decimal text the variables hold, and the address shows that text.\<close>

theorem config_numbers_roundtrip:
  assumes "Load fscale getenv = Inr cfg"
    and "getenv ''STRATA_PORT'' = show_int n" "- (2 ^ 63) \<le> n" "n < 2 ^ 63"
    and "getenv ''STRATA_MAX_CHUNK_SIZE'' = show_int m" "- (2 ^ 63) \<le> m" "m < 2 ^ 63"
  shows "sc_Port (cfg_Server cfg) = n \<and> max_size cfg = m
    \<and> Addr (cfg_Server cfg) = sc_Host (cfg_Server cfg) @ '':'' @ getenv ''STRATA_PORT''"
proof -
  have "cfg = read_config fscale getenv" using assms(1) [unfolded Load_Inr] ..
  then show ?thesis
    by (simp add: read_config_def Addr_def assms(2) envInt_show [of getenv, OF assms(2-4)] envInt64_show [of getenv, OF assms(5-7)])
qed

theorem config_numbers_roundtrip_witness:
  "sc_Port (cfg_Server (read_config (\<lambda>_ _ _. 0) (demo_env(''STRATA_MAX_CHUNK_SIZE'' := ''64'')))) = 9000"
proof -
  let ?g = "demo_env(''STRATA_MAX_CHUNK_SIZE'' := ''64'')"
  have "Load (\<lambda>_ _ _. 0) ?g = Inr (read_config (\<lambda>_ _ _. 0) ?g)"
    by (subst Load_Inr) (simp add: demo_env_def)
  moreover have "?g ''STRATA_PORT'' = show_int 9000" "?g ''STRATA_MAX_CHUNK_SIZE'' = show_int 64"
    by (simp_all add: demo_env_def show_int_def show_nat.simps hex_digit_def)
  ultimately show ?thesis using config_numbers_roundtrip [of "\<lambda>_ _ _. 0" ?g _ 9000 64] by simp
qed

text \<open>A number that cannot be read is not reported; the default takes its place.\<close>

lemma malformed_size_ignored:
  "demo_env ''STRATA_MAX_CHUNK_SIZE'' = ''8MB'' \<and> max_size demo_cfg = 4 * 1024 * 1024"
  by code_simp

end
