(* ===== verification/Project_Proofs.thy ===== *)
theory Project_Proofs
  imports Api
begin

text \<open>
  What any request to the API leaves of the commits of a project that is not deleted, and the exact
  effect of a deletion.
\<close>

section \<open>Relations that every request keeps\<close>

definition deletes :: "string \<Rightarrow> api_event \<Rightarrow> bool" where
  "deletes p ev \<longleftrightarrow> (case ev of ApiServed (Protected _ (DeleteProject q)) _ _ \<Rightarrow> q = p | _ \<Rightarrow> False)"

text \<open>
  A relation that the requests within a project and the statements on users and projects keep is kept by
  the whole API; the projects in \<open>spared\<close> must not be deleted.
\<close>

locale api_frame = frame_relation +
  fixes spared :: "string \<Rightarrow> bool"
  assumes on_user: "preserves R (UserStore_Create u)"
    and on_project: "preserves R (ProjectStore_Create pr)"
    and on_deletion: "\<not> spared pid \<Longrightarrow> preserves R (ProjectStore_Delete pid)"
    and on_route: "preserves R (route maxSize req)"
begin

lemma frame_protected:
  assumes "\<And>pid. spared pid \<Longrightarrow> req \<noteq> DeleteProject pid"
  shows "preserves R (protected_route maxSize u req)"
proof (cases req)
  case (CreateProject body)
  show ?thesis
    unfolding CreateProject protected_route.simps ProjectHandler_Create_def ProjectService_Create_def Let_def
    by (auto intro!: frame_intros frame_status_of on_project split: option.splits)
next
  case (DeleteProject pid)
  then show ?thesis
    using assms unfolding DeleteProject protected_route.simps ProjectHandler_Delete_def ProjectService_Delete_def
    by (auto intro!: frame_intros frame_status_of on_deletion)
qed (auto intro!: frame_intros frame_status_of on_route
  simp: ProjectHandler_List_def ProjectHandler_Get_def ProjectService_List_def ProjectService_Get_def
    ProjectStore_GetByID_def ProjectStore_ListByUser_def)

lemma frame_request:
  assumes "\<And>h pid. spared pid \<Longrightarrow> req \<noteq> Protected h (DeleteProject pid)"
  shows "preserves R (api lib cfg req)"
proof (cases req)
  case (Register body)
  show ?thesis
    unfolding Register api.simps AuthHandler_Register_def AuthService_Register_def Let_def
    by (auto intro!: frame_intros on_user split: option.splits sum.splits)
next
  case (Login body)
  show ?thesis
    unfolding Login api.simps AuthHandler_Login_def
    by (auto intro!: frame_intros frame_Login split: option.splits)
next
  case (Refresh body)
  show ?thesis
    unfolding Refresh api.simps AuthHandler_Refresh_def
    by (auto intro!: frame_intros frame_RefreshAccessToken split: option.splits)
next
  case Logout
  show ?thesis unfolding Logout api.simps AuthHandler_Logout_def by (auto intro!: frame_intros)
next
  case (Protected h preq)
  then show ?thesis
    using assms unfolding Protected api.simps by (auto intro!: frame_intros frame_Auth frame_protected)
qed

lemma frame_step:
  assumes "api_step lib cfg w ev w'" "\<And>pid. spared pid \<Longrightarrow> \<not> deletes pid ev"
  shows "R w w'"
  using assms(1)
proof (cases rule: api_step.cases)
  case (api_served req st tp)
  have "preserves R (api lib cfg req)"
    by (rule frame_request) (use assms(2) api_served(1) in \<open>fastforce simp: deletes_def\<close>)
  then show ?thesis using api_served(2) by (rule preservesD)
qed (auto simp: frame_idle)

lemma frame_run:
  "api_run lib cfg w evs w' \<Longrightarrow> \<forall>ev \<in> set evs. \<forall>pid. spared pid \<longrightarrow> \<not> deletes pid ev \<Longrightarrow> R w w'"
proof (induction rule: api_run.induct)
  case (api_Nil w)
  show ?case by (simp add: frame_idle)
next
  case (api_Cons w ev w1 evs w2)
  from frame_trans [OF frame_step [OF api_Cons.hyps(1)] api_Cons.IH] api_Cons.prems show ?case by simp
qed

end

section \<open>The commits of a project\<close>

definition commits_kept :: "string \<Rightarrow> db \<Rightarrow> db \<Rightarrow> bool" where
  "commits_kept p d d' \<longleftrightarrow> (\<forall>c \<in> set (commits d). c_ProjectID c = p \<longrightarrow>
     c \<in> set (commits d') \<and> (\<forall>q path. manifest d' q (c_ID c) path = manifest d q (c_ID c) path))"

definition project_kept :: "string \<Rightarrow> world \<Rightarrow> world \<Rightarrow> bool" where
  "project_kept p w w' \<longleftrightarrow> (db_ok (w_db w) \<and> origin_ok (w_db w) \<longrightarrow>
     db_ok (w_db w') \<and> origin_ok (w_db w') \<and> commits_kept p (w_db w) (w_db w'))"

lemma commits_kept_refl: "commits_kept p d d"
  by (simp add: commits_kept_def)

lemma commits_kept_trans: "commits_kept p d1 d2 \<Longrightarrow> commits_kept p d2 d3 \<Longrightarrow> commits_kept p d1 d3"
  unfolding commits_kept_def by simp

interpretation kept: frame_relation "project_kept p"
  by unfold_locales (auto simp: project_kept_def intro: commits_kept_refl commits_kept_trans)

lemma commits_kept_history: "db_ok d \<Longrightarrow> db_ok d' \<Longrightarrow> history_frame d d' \<Longrightarrow> commits_kept p d d'"
  unfolding commits_kept_def
proof (intro ballI impI conjI allI)
  fix c
  assume ok: "db_ok d" "db_ok d'" "history_frame d d'" and c: "c \<in> set (commits d)"
  then show "c \<in> set (commits d')" by (auto simp: history_frame_def)
  show "manifest d' q (c_ID c) path = manifest d q (c_ID c) path" for q path
    using ok c by (rule history_frame_manifest)
qed

lemma commits_kept_cong:
  assumes "commits d' = commits d" "files d' = files d" "file_versions d' = file_versions d" "commit_files d' = commit_files d"
  shows "commits_kept p d d'"
proof -
  have "version_manifest d' = version_manifest d" by (simp add: fun_eq_iff version_manifest_def assms(3))
  then show ?thesis by (simp add: commits_kept_def manifest_def manifest_by_def assms(1,2) snap_cong [OF assms(4)])
qed

lemma commits_kept_delete:
  assumes "db_ok d" "origin_ok d" "sql_delete_project pid d = Inr (x, d')" "p \<noteq> pid"
  shows "commits_kept p d d'"
  unfolding commits_kept_def
proof (intro ballI impI conjI allI)
  fix c
  assume c: "c \<in> set (commits d)" "c_ProjectID c = p"
  have "\<not> in_project pid d (c_ID c)"
    using in_project_commit [of d c pid] c assms(1,4) by (simp add: db_ok_def)
  then show "manifest d' q (c_ID c) path = manifest d q (c_ID c) path" for q path
    by (rule delete_project_manifest [OF assms(1-3)])
  show "c \<in> set (commits d')"
    using assms(3,4) c by (auto simp: sql_delete_project_Inr split: if_splits)
qed

lemma kept_statements:
  "preserves (project_kept p) (UserStore_Create u)" "preserves (project_kept p) (ProjectStore_Create pr)"
  "p \<noteq> pid \<Longrightarrow> preserves (project_kept p) (ProjectStore_Delete pid)"
proof -
  show "preserves (project_kept p) (UserStore_Create u)"
    unfolding UserStore_Create_def
  proof (rule kept.frame_db_exec)
    fix x and w w' :: world
    assume run: "sql_insert_user u (w_db w) = Inr (x, w_db w')"
    then have eq: "w_db w' = (w_db w)\<lparr>users := users (w_db w) @ [u]\<rparr>" by (simp add: sql_insert_user_Inr)
    show "project_kept p w w'"
      unfolding project_kept_def using run eq
      by (auto intro: insert_user_ok origin_cong commits_kept_cong)
  qed
  show "preserves (project_kept p) (ProjectStore_Create pr)"
    unfolding ProjectStore_Create_def
  proof (rule kept.frame_db_exec)
    fix x and w w' :: world
    assume run: "sql_insert_project pr (w_db w) = Inr (x, w_db w')"
    then have eq: "w_db w' = (w_db w)\<lparr>projects := projects (w_db w) @ [pr]\<rparr>" by (simp add: sql_insert_project_Inr)
    show "project_kept p w w'"
      unfolding project_kept_def using run eq
      by (auto intro: insert_project_ok origin_cong commits_kept_cong)
  qed
  show "p \<noteq> pid \<Longrightarrow> preserves (project_kept p) (ProjectStore_Delete pid)"
    unfolding ProjectStore_Delete_def
    by (rule kept.frame_db_exec) (auto simp: project_kept_def dest: delete_project_ok intro: commits_kept_delete)
qed

lemma kept_route: "preserves (project_kept p) (route maxSize req)"
  unfolding preserves_def
proof
  fix w :: world
  have "wp (route maxSize req) (\<lambda>_ w'. history_grows w w') w" "wp (route maxSize req) (\<lambda>_ w'. origin_grows w w') w"
    using history_route origin_route by (simp_all add: preserves_def)
  from wp_conj [OF this] show "wp (route maxSize req) (\<lambda>_ w'. project_kept p w w') w"
    by (rule wp_mono) (auto simp: history_grows_def origin_grows_def project_kept_def commits_kept_history)
qed

interpretation kept_api: api_frame "project_kept p" "\<lambda>q. q = p"
  by unfold_locales (auto intro: kept_statements kept_route)

lemma kept_run: "api_run lib cfg w evs w' \<Longrightarrow> \<forall>ev \<in> set evs. \<not> deletes p ev \<Longrightarrow> project_kept p w w'"
  by (rule kept_api.frame_run) auto

text \<open>No request removes the record of a chunk, not even the deletion of a project.\<close>

interpretation chunks_frame: frame_relation chunks_grow
  by unfold_locales (auto simp: chunks_grow_def)

lemma chunks_statements:
  "preserves chunks_grow (UserStore_Create u)" "preserves chunks_grow (ProjectStore_Create pr)"
  "preserves chunks_grow (ProjectStore_Delete pid)"
  unfolding UserStore_Create_def ProjectStore_Create_def ProjectStore_Delete_def
  by (auto intro!: chunks_frame.frame_db_exec simp: chunks_grow_def sql_insert_user_Inr sql_insert_project_Inr
      sql_delete_project_Inr cascade_project_def split: if_splits)

lemma chunks_route: "preserves chunks_grow (route maxSize req)"
  unfolding preserves_def wp_iff by (auto intro: chunks_grow_step [OF served] simp: prod_eq_iff)

interpretation chunks_api: api_frame chunks_grow "\<lambda>_. False"
  by unfold_locales (rule chunks_statements chunks_route)+

end
