(* ===== verification/Project_Properties.thy ===== *)
theory Project_Properties
  imports Demo_Auth Project_Proofs
begin

text \<open>
  The properties of projects and of the API as a whole: what every run keeps, where content comes
  from, and what the deletion of a project does (\<^verbatim>\<open>internal/store/postgres/project.go\<close> with the
  cascades of \<^verbatim>\<open>migrations/\<close>).
\<close>

section \<open>Runs of the whole API\<close>

text \<open>C7: Over any run of the API, whatever is requested and however the stores fail, the database keeps its
  constraints and the invariants of history and origin, every recorded chunk stays backed by an
  object with its hash, no account is changed or removed, and objects are only added.\<close>

theorem api_keeps_invariants:
  assumes "api_ok w" "api_run lib cfg w evs w'"
  shows "db_ok (w_db w') \<and> origin_ok (w_db w') \<and> content_ok w' \<and> (\<exists>us. users (w_db w') = users (w_db w) @ us)
    \<and> bucket_le (w_blobs w) (w_blobs w')"
  using api_keeps_run [OF assms(2,1)] by (simp add: api_ok_def system_ok_def users_grow_def)

text \<open>A run: registration, login, the deletion of the project by another user, a pause.\<close>

definition demo_delete :: api_request where
  "demo_delete = Protected demo_header (DeleteProject ''p'')"

definition demo_deleted :: world where
  "demo_deleted = snd (run_state (api demo_lib demo_cfg demo_delete) demo_joined)"

definition demo_run :: "api_event list" where
  "demo_run = [ApiServed demo_register 201 None, ApiServed demo_delete 200 None, ApiElapsed]"

lemma demo_delete_run: "run_state (api demo_lib demo_cfg demo_delete) demo_joined = ((200, None), demo_deleted)"
proof -
  have "fst (run_state (api demo_lib demo_cfg demo_delete) demo_joined) = (200, None)" by code_simp
  then show ?thesis unfolding demo_deleted_def by (metis prod.collapse)
qed

lemma demo_api_run: "api_run demo_lib demo_cfg demo_bare demo_run demo_deleted"
  unfolding demo_run_def using api_served [OF demo_register_run] api_served [OF demo_delete_run]
  by (auto intro: api_elapsed)

theorem api_keeps_invariants_witness:
  "length (users (w_db demo_deleted)) = 3 \<and> commits (w_db demo_deleted) = [] \<and> db_ok (w_db demo_deleted)"
proof -
  have "length (users (w_db demo_deleted)) = 3" "commits (w_db demo_deleted) = []" by code_simp+
  then show ?thesis using api_keeps_invariants [OF demo_api_ok demo_api_run] by blast
qed

text \<open>C5: Committed content does not change: over any run of the API, however the stores fail, every commit stays
  with its parents, author and message and has the same manifest for every path, unless its own project is deleted.\<close>

theorem committed_content_kept:
  assumes "api_ok w" "api_run lib cfg w evs w'" "c \<in> set (commits (w_db w))"
    and "\<forall>ev \<in> set evs. \<not> deletes (c_ProjectID c) ev"
  shows "c \<in> set (commits (w_db w')) \<and> manifest (w_db w') p (c_ID c) path = manifest (w_db w) p (c_ID c) path"
  using kept_run [OF assms(2,4)] assms(1,3)
  by (simp add: project_kept_def commits_kept_def api_ok_def system_ok_def)

theorem committed_content_kept_witness:
  "\<exists>w'. api_run demo_lib demo_cfg demo_bare [ApiServed demo_register 201 None, ApiElapsed] w'
    \<and> manifest (w_db w') ''p'' ''c1'' ''a.txt'' = Some [''h1'']"
proof -
  have run: "api_run demo_lib demo_cfg demo_bare [ApiServed demo_register 201 None, ApiElapsed] demo_joined"
    using api_served [OF demo_register_run] by (auto intro: api_elapsed)
  have c: "demo_commit ''c1'' (Some ''c0'') 2 \<in> set (commits (w_db demo_bare))"
    by (simp add: demo_bare_def demo_def demo_db_def)
  have "manifest (w_db demo_bare) ''p'' ''c1'' ''a.txt'' = Some [''h1'']" by code_simp
  with committed_content_kept [OF demo_api_ok run c, of "''p''" "''a.txt''"] run show ?thesis
    by (auto simp: deletes_def demo_register_def demo_commit_def)
qed

text \<open>C22: What a commit shows for a file was written for it: after any run, every version in a snapshot is a version
  of that file, written by the commit itself or by one of its ancestors, in the project that the file belongs to.\<close>

theorem snapshot_origin:
  assumes "api_ok w" "api_run lib cfg w evs w'" "snap (w_db w') c f = Some v"
  shows "\<exists>fv \<in> set (file_versions (w_db w')). fv_ID fv = v \<and> fv_FileID fv = f \<and> reaches (w_db w') c (fv_CommitID fv)
    \<and> (\<exists>fl \<in> set (files (w_db w')). \<exists>writer \<in> set (commits (w_db w')). f_ID fl = f
        \<and> c_ID writer = fv_CommitID fv \<and> c_ProjectID writer = f_ProjectID fl)"
proof -
  let ?d = "w_db w'"
  have ok: "db_ok ?d" "origin_ok ?d"
    using api_keeps_run(1) [OF assms(2,1)] by (simp_all add: api_ok_def system_ok_def)
  then have sch: "schema_ok ?d" by (simp add: db_ok_def)
  have "distinct (map cf_key (commit_files ?d))" using schema_okD [OF sch] by blast
  then obtain cf where cf: "cf \<in> set (commit_files ?d)" "cf_CommitID cf = c" "cf_FileID cf = f" "cf_FileVersionID cf = v"
    using assms(3) by (auto simp: snap_Some)
  obtain fv where fv: "fv \<in> set (file_versions ?d)" "fv_ID fv = v" "reaches ?d c (fv_CommitID fv)"
    using ok(2) cf by (auto simp: origin_ok_def provenance_def written_by_def)
  obtain fv' where fv': "fv' \<in> set (file_versions ?d)" "fv_ID fv' = v" "fv_FileID fv' = f"
    using ok(1) cf by (fastforce simp: db_ok_def history_ok_def snapshot_typed_def)
  have "fv' = fv" using fv fv' version_unique [OF sch] by simp
  moreover obtain fl writer where "fl \<in> set (files ?d)" "writer \<in> set (commits ?d)" "f_ID fl = fv_FileID fv"
      "c_ID writer = fv_CommitID fv" "f_ProjectID fl = c_ProjectID writer"
    using ok(2) fv(1) unfolding origin_ok_def versions_local_def by blast
  ultimately show ?thesis using fv fv' by metis
qed

theorem snapshot_origin_witness:
  "\<exists>fv \<in> set (file_versions (w_db demo_joined)). fv_ID fv = ''b0'' \<and> reaches (w_db demo_joined) ''c1'' (fv_CommitID fv)"
proof -
  have run: "api_run demo_lib demo_cfg demo_bare [ApiServed demo_register 201 None] demo_joined"
    using api_served [OF demo_register_run] by auto
  have "snap (w_db demo_joined) ''c1'' ''fb'' = Some ''b0''" by code_simp
  from snapshot_origin [OF demo_api_ok run this] show ?thesis by blast
qed

section \<open>Deleting a project\<close>




text \<open>C29: A commit can hold a foreign project hostage: while some commit of another project names one of its commits as
  parent, the deletion of a project is answered with 500 and changes nothing.\<close>

theorem foreign_child_blocks_deletion:
  assumes "c \<in> set (commits (w_db w))" "c_ProjectID c \<noteq> pid" "c_ParentID c = Some q"
    and "in_project pid (w_db w) q" "pid \<in> p_ID ` set (projects (w_db w))"
    and "run_state (ProjectHandler_Delete pid) w = (r, w')"
  shows "r = ErrorReply 500 ''INTERNAL_ERROR'' ''Failed to delete project'' \<and> w_db w' = w_db w"
proof -
  have "\<not> (\<exists>d'. sql_delete_project pid (w_db w) = Inr ((), d'))"
    using assms(1-5) by (auto simp: sql_delete_project_Inr)
  then have "wp (ProjectService_Delete pid) (\<lambda>r w'. isl r \<and> w_db w' = w_db w) w"
    by (intro wp_ProjectService_Delete) auto
  then have "wp (ProjectHandler_Delete pid) (\<lambda>r w'. r = ErrorReply 500 ''INTERNAL_ERROR'' ''Failed to delete project''
      \<and> w_db w' = w_db w) w"
    by (auto simp: ProjectHandler_Delete_def wp_simps wp_reply_result elim!: wp_mono split: sum.splits)
  from wp_run [OF this assms(6)] show ?thesis .
qed

text \<open>Such a commit is accepted: without a ref, nothing checks which project the parent is in.\<close>

definition demo_two :: world where
  "demo_two = demo\<lparr>w_db := demo_db\<lparr>projects := projects demo_db @
     [\<lparr>p_ID = ''p2'', p_Name = ''other'', p_Description = '''', p_CreatedBy = ''bob'', p_CreatedAt = 0, p_UpdatedAt = 0\<rparr>]\<rparr>\<rparr>"

definition demo_foreign :: "push_reply reply \<times> world" where
  "demo_foreign = run_state (PushHandler_Commit ''p2'' ''bob'' (Some \<lparr>pr_ParentCommitID = Some ''c1'', pr_Message = ''m'',
     pr_Ref = '''', pr_Files = [\<lparr>ce_Path = ''x'', ce_TotalSize = 1, ce_ChunkHashes = Some [''h1'']\<rparr>]\<rparr>)) demo_two"

theorem foreign_child_blocks_deletion_witness:
  "status (fst demo_foreign) = 201 \<and> fst (run_state (ProjectHandler_Delete ''p'') (snd demo_foreign))
    = ErrorReply 500 ''INTERNAL_ERROR'' ''Failed to delete project''"
proof -
  have pushed: "status (fst demo_foreign) = 201" by code_simp
  have "list_ex (\<lambda>c. c_ProjectID c = ''p2'' \<and> c_ParentID c = Some ''c1'') (commits (w_db (snd demo_foreign)))" by code_simp
  then obtain c where c: "c \<in> set (commits (w_db (snd demo_foreign)))" "c_ProjectID c \<noteq> ''p''" "c_ParentID c = Some ''c1''"
    by (auto simp: list_ex_iff)
  have p: "in_project ''p'' (w_db (snd demo_foreign)) ''c1''" by code_simp
  have "list_ex (\<lambda>p. p_ID p = ''p'') (projects (w_db (snd demo_foreign)))" by code_simp
  then have "''p'' \<in> p_ID ` set (projects (w_db (snd demo_foreign)))"
    by (force simp: list_ex_iff)
  from foreign_child_blocks_deletion [OF c p this prod.collapse [symmetric]] pushed show ?thesis by blast
qed

end
