(* ===== verification/Repository.thy ===== *)
theory Repository
  imports Project_Proofs Branch_Proofs
begin

text \<open>
  An abstract specification of the server: a project is a repository of commits, each with a tree of
  files, and of branches that point to commits. The tables, identifiers, versions and snapshot rows
  of the code implement it: with a working store every request to the API is a step of the
  repository of every project (\<open>api_refines_repository\<close>).
\<close>

section \<open>Repositories\<close>

record repo =
  known :: "string set"
  ancestors :: "string \<Rightarrow> string set"
  tree :: "string \<Rightarrow> string \<Rightarrow> string list option"
  head :: "string \<Rightarrow> string option"

text \<open>What is recorded stays: commits, their trees and what they descend from.\<close>

definition extends :: "repo \<Rightarrow> repo \<Rightarrow> bool" where
  "extends r r' \<longleftrightarrow> known r \<subseteq> known r'
     \<and> (\<forall>c \<in> known r. tree r' c = tree r c \<and> ancestors r c \<subseteq> ancestors r' c)"

lemma extends_trans:
  assumes "extends r1 r2" "extends r2 r3"
  shows "extends r1 r3"
  unfolding extends_def
proof (intro conjI ballI)
  show "known r1 \<subseteq> known r3" using assms unfolding extends_def by (meson order_trans)
  fix c
  assume c: "c \<in> known r1"
  then have c2: "c \<in> known r2" using assms(1) by (auto simp: extends_def)
  show "tree r3 c = tree r1 c" using assms c c2 by (simp add: extends_def)
  show "ancestors r1 c \<subseteq> ancestors r3 c" using assms c c2 by (meson extends_def subset_trans)
qed

text \<open>A tree with some files replaced, the last entry of a path counting.\<close>

definition overlay :: "CommitFileEntry list \<Rightarrow> (string \<Rightarrow> string list option) \<Rightarrow> string \<Rightarrow> string list option" where
  "overlay fs t path = (case pushed fs path of Some e \<Rightarrow> ce_ChunkHashes e | None \<Rightarrow> t path)"

text \<open>
  The steps: other activity, which moves no branch; a push onto a branch or to a new one; a new
  branch at the head of another; a fast-forward; a merge, each file of which comes from one of the
  two heads or from a common ancestor; and the removal of the whole repository.
\<close>

inductive repo_step :: "repo \<Rightarrow> repo \<Rightarrow> bool" where
  rest: "extends r r' \<Longrightarrow> head r' = head r \<Longrightarrow> repo_step r r'"
| push: "extends r r' \<Longrightarrow> c \<notin> known r \<Longrightarrow> known r' = insert c (known r) \<Longrightarrow>
    tree r' c = overlay fs (case head r n of None \<Rightarrow> Map.empty | Some q \<Rightarrow> tree r q) \<Longrightarrow>
    set_option (head r n) \<subseteq> ancestors r' c \<Longrightarrow> head r' = (head r)(n \<mapsto> c) \<Longrightarrow> repo_step r r'"
| branch: "extends r r' \<Longrightarrow> known r' = known r \<Longrightarrow> head r n = None \<Longrightarrow> head r m = Some c \<Longrightarrow>
    head r' = (head r)(n \<mapsto> c) \<Longrightarrow> repo_step r r'"
| forward: "extends r r' \<Longrightarrow> known r' = known r \<Longrightarrow> head r s = Some y \<Longrightarrow> head r t = Some x \<Longrightarrow> x \<in> ancestors r' y \<Longrightarrow>
    head r' = (head r)(t \<mapsto> y) \<Longrightarrow> repo_step r r'"
| merge: "extends r r' \<Longrightarrow> c \<notin> known r \<Longrightarrow> known r' = insert c (known r) \<Longrightarrow>
    head r s = Some y \<Longrightarrow> head r t = Some x \<Longrightarrow> b \<in> ancestors r x \<inter> ancestors r y \<Longrightarrow>
    \<forall>path. tree r' c path \<in> {tree r b path, tree r x path, tree r y path} \<Longrightarrow>
    {x, y} \<subseteq> ancestors r' c \<Longrightarrow> head r' = (head r)(t \<mapsto> c) \<Longrightarrow> repo_step r r'"
| drop: "known r' = {} \<Longrightarrow> head r' = Map.empty \<Longrightarrow> repo_step r r'"

text \<open>In a step that does not remove the repository, every branch stays and its head descends from the one before.\<close>

definition advances :: "repo \<Rightarrow> repo \<Rightarrow> bool" where
  "advances r r' \<longleftrightarrow> extends r r'
     \<and> (\<forall>n h. head r n = Some h \<longrightarrow> (\<exists>h'. head r' n = Some h' \<and> (h' = h \<or> h \<in> ancestors r' h')))"

lemma repo_step_advances: "repo_step r r' \<Longrightarrow> known r' \<noteq> {} \<Longrightarrow> advances r r'"
  unfolding advances_def by (cases rule: repo_step.cases) auto

section \<open>The repository of a project\<close>

definition repo_of :: "string \<Rightarrow> db \<Rightarrow> repo" where
  "repo_of p d = \<lparr>known = c_ID ` {c \<in> set (commits d). c_ProjectID c = p}, ancestors = (\<lambda>c. {a. reaches d c a}),
     tree = manifest d p, head = head_of d p\<rparr>"

lemma repo_of_simps [simp]:
  "known (repo_of p d) = c_ID ` {c \<in> set (commits d). c_ProjectID c = p}"
  "ancestors (repo_of p d) c = {a. reaches d c a}" "tree (repo_of p d) = manifest d p" "head (repo_of p d) = head_of d p"
  by (simp_all add: repo_of_def)

lemma known_append: "commits d' = commits d @ [c] \<Longrightarrow> c_ProjectID c = p \<Longrightarrow>
    known (repo_of p d') = insert (c_ID c) (known (repo_of p d))"
  by (simp add: conj_disj_distribR Collect_disj_eq image_Un Collect_conv_if)

lemma extends_history:
  assumes "db_ok d" "db_ok d'" "history_frame d d'"
  shows "extends (repo_of p d) (repo_of p d')"
proof -
  have "manifest d' p (c_ID c) = manifest d p (c_ID c)" if "c \<in> set (commits d)" for c
    using history_frame_manifest [OF assms that] by (simp add: fun_eq_iff)
  moreover have "set (commits d) \<subseteq> set (commits d')" using assms(3) by (auto simp: history_frame_def)
  ultimately show ?thesis using reaches_mono [OF assms(3)] by (auto simp: extends_def)
qed

lemma step_history:
  "db_ok d \<Longrightarrow> db_ok d' \<Longrightarrow> history_frame d d' \<Longrightarrow> head_of d' p = head_of d p \<Longrightarrow> repo_step (repo_of p d) (repo_of p d')"
  by (intro rest extends_history) simp_all

lemma repo_of_cong:
  assumes "commits d' = commits d" "files d' = files d" "file_versions d' = file_versions d" "commit_files d' = commit_files d"
    "refs d' = refs d"
  shows "repo_of p d' = repo_of p d"
proof -
  have "version_manifest d' = version_manifest d" by (simp add: fun_eq_iff version_manifest_def assms(3))
  then have "manifest d' = manifest d"
    by (intro ext) (simp add: manifest_def manifest_by_def assms(2) snap_cong [OF assms(4)])
  moreover have "head_of d' = head_of d" by (simp add: fun_eq_iff head_of_def assms(5))
  ultimately show ?thesis by (simp add: repo_of_def reaches_def assms(1))
qed

lemma step_same: "repo_step (repo_of p d) (repo_of p d)"
  by (rule rest) (simp_all add: extends_def)

lemma heads_after: "ref_target d' = (ref_target d)((q, n, ''branch'') \<mapsto> c) \<Longrightarrow>
    head_of d' p = (if p = q then (head_of d p)(n \<mapsto> c) else head_of d p)"
  by (auto simp: fun_eq_iff head_of_ref_target)

section \<open>Each operation is a step\<close>

lemma step_CreateCommit:
  assumes ok: "db_ok (w_db w)" and run: "no_faults w"
  shows "wp (CreateCommit req) (\<lambda>_ w'. repo_step (repo_of p (w_db w)) (repo_of p (w_db w'))) w"
proof (rule wp_mono [OF CreateCommit_spec [OF ok]])
  fix r and w' :: world
  let ?d = "w_db w" and ?d' = "w_db w'"
  assume post: "commit_post req w r w' \<and> (no_faults w \<longrightarrow> r \<noteq> Inl ErrCommitConflict \<longrightarrow>
    cr_Ref req = '''' \<or> head_of ?d (cr_ProjectID req) (cr_Ref req) = cr_ParentCommitID req)"
  then have ok': "db_ok ?d'" and frame: "history_frame ?d ?d'" by (simp_all add: commit_post_def)
  show "repo_step (repo_of p ?d) (repo_of p ?d')"
  proof (cases "\<exists>res. r = Inr res \<and> cr_Ref req \<noteq> '''' \<and> cr_ProjectID req = p")
    case False
    then have "head_of ?d' p = head_of ?d p"
      using post by (cases r) (auto simp: commit_post_def fun_eq_iff head_of_ref_target split: if_splits)
    then show ?thesis by (rule step_history [OF ok ok' frame])
  next
    case True
    then obtain res where res: "r = Inr res" "cr_Ref req \<noteq> ''''" "cr_ProjectID req = p" by blast
    let ?c = "cres_CommitID res"
    obtain now where c: "commits ?d' = commits ?d @ [new_commit req ?c now]"
      using post res(1) by (auto simp: commit_post_def)
    have head: "head_of ?d p (cr_Ref req) = cr_ParentCommitID req" using post res run by simp
    show ?thesis
    proof (rule push [where c = ?c and n = "cr_Ref req" and fs = "cr_Files req"])
      show "extends (repo_of p ?d) (repo_of p ?d')" by (rule extends_history [OF ok ok' frame])
      show "?c \<notin> known (repo_of p ?d)" using post res(1) by (auto simp: commit_post_def)
      show "known (repo_of p ?d') = insert ?c (known (repo_of p ?d))" 
        using known_append [OF c, of p] res(3) by (simp add: new_commit_def)
      have "manifest ?d' p ?c path = overlay (cr_Files req)
          (case cr_ParentCommitID req of None \<Rightarrow> Map.empty | Some q \<Rightarrow> manifest ?d p q) path" for path
        using post res run by (simp add: commit_post_def inherited_def overlay_def split: option.splits)
      then show "tree (repo_of p ?d') ?c = overlay (cr_Files req)
          (case head (repo_of p ?d) (cr_Ref req) of None \<Rightarrow> Map.empty | Some q \<Rightarrow> tree (repo_of p ?d) q)"
        unfolding repo_of_simps head by (rule ext)
      show "set_option (head (repo_of p ?d) (cr_Ref req)) \<subseteq> ancestors (repo_of p ?d') ?c"
      proof
        fix q
        assume "q \<in> set_option (head (repo_of p ?d) (cr_Ref req))"
        then have q: "cr_ParentCommitID req = Some q" "head_of ?d p (cr_Ref req) = Some q" using head by simp_all
        then have "q \<in> c_ID ` set (commits ?d)" using ok by (auto intro: head_is_commit simp: db_ok_def)
        then have "(?c, q) \<in> parent_of (commits ?d')" using q(1) c by (auto simp: parent_of_def new_commit_def)
        then show "q \<in> ancestors (repo_of p ?d') ?c" by (auto simp: reaches_def)
      qed
      have "ref_target ?d' = (ref_target ?d)((p, cr_Ref req, ''branch'') \<mapsto> ?c)"
        using post res by (simp add: commit_post_def)
      from heads_after [OF this, of p] show "head (repo_of p ?d') = (head (repo_of p ?d))(cr_Ref req \<mapsto> ?c)" by simp
    qed
  qed
qed

lemma merged_from:
  assumes "analysis_ok d base sh th an" "validate_resolutions an rs = None"
    and "\<And>v. merged (snap d base) (snap d sh) (snap d th) rs f = Some v \<Longrightarrow> v \<noteq> ''''"
  shows "merged (snap d base) (snap d sh) (snap d th) rs f \<in> {snap d base f, snap d sh f, snap d th f}"
proof (cases "differs (snap d base) (snap d sh) (snap d th) f")
  case True
  then have conf: "ma_Type an = MergeTypeConflict" using analysis_resolutions(1) [OF assms(1,2)] by blast
  then obtain v where v: "resolved rs f = Some v" using analysis_resolutions(3) [OF assms(1,2)] True by blast
  then have "v \<noteq> ''''" using assms(3) True by (simp add: merged_def)
  with analysis_resolutions(4) [OF assms(1,2) conf v] v True show ?thesis
    by (auto simp: merged_def opt_name_def split: option.splits)
qed (simp add: merged_def)

lemma step_Execute:
  assumes ok: "db_ok (w_db w)"
  shows "wp (Execute q src tgt u msg rs) (\<lambda>_ w'. repo_step (repo_of p (w_db w)) (repo_of p (w_db w'))) w"
proof (rule wp_Execute [OF ok], goal_cases)
  case (3 e w' sh th base an)
  then show ?case by (intro step_history [OF ok]) (simp_all add: fun_eq_iff head_of_ref_target)
next
  case (4 r w' rows sh th)
  let ?d = "w_db w" and ?d' = "w_db w'"
  have "history_frame ?d ?d'" unfolding 4(3) by (simp add: history_frame_def)
  note ext = extends_history [OF ok 4(1) this, of p]
  note head = heads_after [OF 4(5), of p]
  show ?case
  proof (cases "p = q")
    case True
    then show ?thesis
      using ext head 4(4) by (intro forward [where s = src and t = tgt and y = sh and x = th])
        (simp_all add: forwarding_def 4(3) reaches_def)
  qed (use ext head in \<open>auto intro: rest\<close>)
next
  case (5 c w')
  let ?d = "w_db w" and ?d' = "w_db w'"
  obtain sh th base an s t now where m: "merging ?d q src tgt sh th base an" "validate_resolutions an rs = None"
      "r_CommitID s = sh" "r_CommitID t = th" "c_ID c \<notin> c_ID ` set (commits ?d)"
      "commits ?d' = commits ?d @ [merge_row q src tgt u msg s t now (c_ID c)]"
      "snap ?d' (c_ID c) = merged (snap ?d base) (snap ?d sh) (snap ?d th) rs"
      "ref_target ?d' = (ref_target ?d)((q, tgt, ''branch'') \<mapsto> c_ID c)"
      "files ?d' = files ?d" "file_versions ?d' = file_versions ?d"
    using 5(4) unfolding merge_done_def by blast
  note ext = extends_history [OF ok 5(1,3), of p]
  note head = heads_after [OF m(8), of p]
  show ?case
  proof (cases "p = q")
    case True
    have heads: "head_of ?d p src = Some sh" "head_of ?d p tgt = Some th" using m(1) True by (simp_all add: merging_def)
    have sch: "schema_ok ?d" "schema_ok ?d'" using ok 5(1) by (simp_all add: db_ok_def)
    have base: "reaches ?d th base \<and> reaches ?d sh base"
      using m(1) sql_merge_base_Some [of ?d sh th base] schema_okD(1) [OF sch(1)]
      by (auto simp: merging_def reaches_def common_ancestor_def)
    have reach: "reaches ?d' (c_ID c) x" if "x \<in> {sh, th}" for x
      using that m(3,4) heads head_is_commit [OF sch(1)] by (intro reaches_merge_row [OF m(6)]) auto
    have named: "v \<noteq> ''''" if "snap ?d' (c_ID c) f = Some v" for f v
    proof -
      have "distinct (map cf_key (commit_files ?d'))" using schema_okD [OF sch(2)] by blast
      with that have "v \<in> fv_ID ` set (file_versions ?d')"
        using sch(2) by (auto simp: snap_Some schema_ok_def snapshots_ok_def)
      then show ?thesis using 5(1) by (auto simp: db_ok_def history_ok_def versions_named_def)
    qed
    have from3: "snap ?d' (c_ID c) f \<in> {snap ?d base f, snap ?d sh f, snap ?d th f}" for f
      unfolding m(7) using m(1) named [of f] unfolding m(7) by (intro merged_from [OF _ m(2)]) (simp_all add: merging_def)
    have vm: "version_manifest ?d' = version_manifest ?d" by (simp add: fun_eq_iff version_manifest_def m(10))
    have trees: "manifest ?d' p (c_ID c) path \<in> {manifest ?d p base path, manifest ?d p th path, manifest ?d p sh path}" for path
    proof (cases "row_at f_key (p, path) (files ?d)")
      case (Some f)
      then show ?thesis using from3 [of "f_ID f"] by (auto simp: manifest_def manifest_by_def m(9) vm)
    qed (simp add: manifest_def manifest_by_def m(9))
    show ?thesis
    proof (rule merge [OF ext, where c = "c_ID c" and s = src and t = tgt and y = sh and x = th and b = base])
      show "known (repo_of p ?d') = insert (c_ID c) (known (repo_of p ?d))" 
        using known_append [OF m(6), of p] True by (simp add: merge_row_def)
    qed (use m(5) heads base trees reach head True in auto)
  qed (use ext head in \<open>auto intro: rest\<close>)
qed (simp_all add: step_same)

section \<open>Each request is a step\<close>

abbreviation repo_steps :: "string \<Rightarrow> world \<Rightarrow> world \<Rightarrow> bool" where
  "repo_steps p w w' \<equiv> repo_step (repo_of p (w_db w)) (repo_of p (w_db w'))"

lemma step_idle: "w_db w' = w_db w \<Longrightarrow> repo_steps p w w'"
  by (simp add: step_same)

lemma step_Push:
  assumes ok: "db_ok (w_db w)" and run: "no_faults w"
  shows "wp (PushHandler_Commit q u body) (\<lambda>_ w'. repo_steps p w w') w"
proof (cases "\<exists>req. body = Some req \<and> pr_Message req \<noteq> [] \<and> pr_Files req \<noteq> []")
  case True
  then obtain req where req: "body = Some req" "pr_Message req \<noteq> []" "pr_Files req \<noteq> []" by blast
  show ?thesis
    unfolding req(1)
  proof (rule wp_Push [OF ok run req(2,3)], goal_cases)
    case (1 w' info)
    then show ?case by (simp add: step_same)
  next
    case (2 w1)
    have "wp (CreateCommit (push_commit_request q u req)) (\<lambda>_ w'. repo_steps p w1 w') w1"
      using 2 ok run by (intro step_CreateCommit) (simp_all add: same_env_no_faults)
    then show ?case using 2(1) by (auto elim!: wp_mono split: sum.splits)
  qed
next
  case False
  then consider "body = None" | req where "body = Some req" "pr_Message req = []"
    | req where "body = Some req" "pr_Files req = []" by (cases body) auto
  then show ?thesis
    by cases (simp_all add: PushHandler_Commit_def wp_simps step_same)
qed

lemma step_Merge:
  assumes "db_ok (w_db w)"
  shows "wp (MergeHandler_ExecuteMerge q u body) (\<lambda>_ w'. repo_steps p w w') w"
proof (cases body)
  case None
  then show ?thesis by (simp add: MergeHandler_ExecuteMerge_def wp_simps step_same)
next
  case (Some req)
  show ?thesis
    unfolding MergeHandler_ExecuteMerge_def Some
    by (auto simp: wp_simps step_same split: option.splits sum.splits intro: wp_mono [OF step_Execute [OF assms]])
qed

lemma step_Branch:
  assumes ok: "db_ok (w_db w)" and run: "no_faults w"
  shows "wp (MergeHandler_CreateBranch q body) (\<lambda>_ w'. repo_steps p w w') w"
proof (cases "\<exists>req. body = Some req \<and> br_Name req \<noteq> []")
  case True
  then obtain req where req: "body = Some req" "br_Name req \<noteq> []" by blast
  let ?src = "if br_FromRef req = '''' then ''main'' else br_FromRef req"
  show ?thesis
    unfolding req(1)
  proof (rule wp_CreateBranch [OF ok req(2) refl], goal_cases)
    case (1 w' st c m)
    then show ?case by (simp add: step_same)
  next
    case (2 w' rs ref h)
    have "history_frame (w_db w) (w_db w')" unfolding 2(3) by (simp add: history_frame_def)
    note ext = extends_history [OF ok 2(1) this, of p]
    note head = heads_after [OF 2(6), of p]
    show ?case
    proof (cases "p = q")
      case True
      then show ?thesis
        using ext head 2(4,5) run by (intro branch [where n = "br_Name req" and m = ?src and c = h]) (simp_all add: 2(3))
    qed (use ext head in \<open>auto intro: rest\<close>)
  qed
next
  case False
  then consider "body = None" | req where "body = Some req" "br_Name req = []" by (cases body) auto
  then show ?thesis by cases (simp_all add: MergeHandler_CreateBranch_def wp_simps step_same)
qed

lemma step_route:
  assumes ok: "db_ok (w_db w)" and run: "no_faults w"
  shows "wp (route maxSize req) (\<lambda>_ w'. repo_steps p w w') w"
proof -
  consider (push) q u body where "req = PushCommit q u body" | (merge) q u body where "req = ExecuteMerge q u body"
    | (branch) q body where "req = CreateBranch q body"
    | (other) "\<And>q u body. req \<noteq> PushCommit q u body" "\<And>q u body. req \<noteq> ExecuteMerge q u body"
      "\<And>q body. req \<noteq> CreateBranch q body"
    by blast
  then show ?thesis
  proof cases
    case push
    show ?thesis unfolding push route.simps by (intro wp_status_of step_Push [OF ok run])
  next
    case merge
    show ?thesis unfolding merge route.simps by (intro wp_status_of step_Merge [OF ok])
  next
    case branch
    show ?thesis unfolding branch route.simps by (intro wp_status_of step_Branch [OF ok run])
  next
    case other
    have "wp (route maxSize req) (\<lambda>_ w'. same_refs w w') w" "wp (route maxSize req) (\<lambda>_ w'. history_grows w w') w"
      using refs_route [OF other] history_route by (simp_all add: preserves_def)
    from wp_conj [OF this] show ?thesis
      by (rule wp_mono)
        (use ok in \<open>auto simp: same_refs_def history_grows_def head_of_def fun_eq_iff intro!: step_history\<close>)
  qed
qed

lemma step_delete:
  assumes ok: "db_ok d" "origin_ok d" and run: "sql_delete_project pid d = Inr (x, d')"
  shows "repo_step (repo_of p d) (repo_of p d')"
  using delete_project_deletable [OF ok run]
proof
  assume del: "d' = cascade_project pid d \<and> deletable pid d"
  show ?thesis
  proof (cases "p = pid")
    case True
    have "row_at r_key (pid, n, ''branch'') (refs d') = None" for n
      unfolding row_at_None using del by (auto simp: r_key_def)
    then show ?thesis using del True by (intro drop) (auto simp: head_of_def fun_eq_iff)
  next
    case False
    have sch: "schema_ok d" using ok(1) by (simp add: db_ok_def)
    have "extends (repo_of p d) (repo_of p d')"
      unfolding extends_def
    proof (intro conjI ballI)
      show "known (repo_of p d) \<subseteq> known (repo_of p d')" using del False by auto
      fix c
      assume "c \<in> known (repo_of p d)"
      then have c: "\<not> in_project pid d c" using in_project_commit [OF sch] False by auto
      then show "tree (repo_of p d') c = tree (repo_of p d) c"
        using delete_project_manifest [OF ok run c] by (simp add: fun_eq_iff)
      show "ancestors (repo_of p d) c \<subseteq> ancestors (repo_of p d') c"
        using del reaches_cascade [of pid d c] c by auto
    qed
    moreover have "head_of d' p = head_of d p" using delete_project_heads [OF run False] by (simp add: fun_eq_iff)
    ultimately show ?thesis by (intro rest) simp_all
  qed
qed (simp add: step_same)

lemma step_protected:
  assumes ok: "db_ok (w_db w)" "origin_ok (w_db w)" and run: "no_faults w"
  shows "wp (protected_route maxSize u req) (\<lambda>_ w'. repo_steps p w w') w"
proof (cases req)
  case (CreateProject body)
  have "wp (ProjectService_Create n d u) (\<lambda>_ w'. repo_steps p w w') w" for n d
  proof (rule wp_ProjectService_Create)
    fix pr and w' :: world
    assume "sql_insert_project pr (w_db w) = Inr ((), w_db w')"
    then have "repo_of p (w_db w') = repo_of p (w_db w)" by (intro repo_of_cong) (simp_all add: sql_insert_project_Inr)
    then show "repo_steps p w w'" by (simp add: step_same)
  qed (simp add: step_same)
  then show ?thesis
    unfolding CreateProject protected_route.simps ProjectHandler_Create_def
    by (intro wp_status_of)
      (auto simp: wp_writeJSON wp_writeErrorJSON wp_if step_same intro!: wp_reply_resultI split: option.splits)
next
  case (DeleteProject pid)
  have "wp (ProjectService_Delete pid) (\<lambda>_ w'. repo_steps p w w') w"
    by (rule wp_ProjectService_Delete) (auto simp: step_same intro: step_delete [OF ok])
  then show ?thesis
    unfolding DeleteProject protected_route.simps ProjectHandler_Delete_def
    by (intro wp_status_of wp_reply_resultI) (simp_all add: wp_simps)
next
  case (InProject r)
  then show ?thesis using step_route [OF ok(1) run] by simp
qed (auto simp: status_of_def wp_simps ProjectHandler_List_def ProjectHandler_Get_def ProjectService_List_def
  ProjectService_Get_def step_same split: option.splits)

lemma step_Register: "wp (AuthHandler_Register lib body) (\<lambda>_ w'. repo_steps p w w') w"
proof -
  have "wp (AuthService_Register lib n e pw) (\<lambda>_ w'. repo_steps p w w') w" for n e pw
  proof (rule wp_AuthService_Register)
    fix u and w' :: world
    assume "sql_insert_user u (w_db w) = Inr ((), w_db w')"
    then have "repo_of p (w_db w') = repo_of p (w_db w)" by (intro repo_of_cong) (simp_all add: sql_insert_user_Inr)
    then show "repo_steps p w w'" by (simp add: step_same)
  qed (simp_all add: step_same)
  then show ?thesis
    unfolding AuthHandler_Register_def
    by (auto simp: wp_writeJSON wp_writeErrorJSON wp_if step_same intro!: wp_reply_resultI split: option.splits)
qed

lemma step_api:
  assumes ok: "db_ok (w_db w)" "origin_ok (w_db w)" and run: "no_faults w"
  shows "wp (api lib cfg req) (\<lambda>_ w'. repo_steps p w w') w"
proof (cases req)
  case (Register body)
  then show ?thesis using step_Register [of lib body p w] by (simp add: wp_bind wp_return_eta)
next
  case (Protected header preq)
  show ?thesis
    unfolding Protected
  proof (rule wp_Protected)
    fix tok ctx
    show "wp (protected_route (max_size cfg) (UserIDFromContext ctx) preq) (\<lambda>_ w'. repo_steps p w w') (next_tick w)"
      using step_protected [of "next_tick w" _ _ preq p] assms by simp
  qed (simp add: step_same)
qed (auto simp: wp_bind wp_return_eta only_reads_def intro!: wp_preserves [OF reads_tokens(1)] wp_preserves [OF reads_tokens(2)]
  wp_preserves [OF reads_tokens(3)] step_idle)

section \<open>Runs\<close>

text \<open>A run in which the store works whenever a request is served.\<close>

inductive calm_api_run :: "auth_lib \<Rightarrow> Config \<Rightarrow> world \<Rightarrow> api_event list \<Rightarrow> world \<Rightarrow> bool" for lib cfg where
  calm_api_Nil: "calm_api_run lib cfg w [] w"
| calm_api_Cons: "no_faults w \<Longrightarrow> api_step lib cfg w ev w1 \<Longrightarrow> calm_api_run lib cfg w1 evs w2 \<Longrightarrow>
    calm_api_run lib cfg w (ev # evs) w2"

inductive_simps calm_api_run_simps [simp]: "calm_api_run lib cfg w [] w'" "calm_api_run lib cfg w (ev # evs) w'"

lemma step_api_step:
  assumes "api_ok w" "no_faults w" "api_step lib cfg w ev w'"
  shows "repo_steps p w w'"
  using assms(3)
proof (cases rule: api_step.cases)
  case (api_served req st tp)
  have "wp (api lib cfg req) (\<lambda>_ w'. repo_steps p w w') w"
    using assms(1,2) by (intro step_api) (simp_all add: api_ok_def system_ok_def)
  then show ?thesis using api_served(2) by (rule wp_run)
qed (simp add: step_same)

lemma calm_api_run_steps:
  assumes "calm_api_run lib cfg w evs w'" "api_ok w"
  shows "repo_step\<^sup>*\<^sup>* (repo_of p (w_db w)) (repo_of p (w_db w'))"
  using assms
proof (induction rule: calm_api_run.induct)
  case (calm_api_Cons w ev w1 evs w2)
  have "api_ok w1" using api_keeps_step [OF calm_api_Cons.prems calm_api_Cons.hyps(2)] calm_api_Cons.prems
    by (simp add: api_keeps_def)
  with calm_api_Cons.IH step_api_step [OF calm_api_Cons.prems calm_api_Cons.hyps(1,2)]
  show ?case by (meson converse_rtranclp_into_rtranclp)
qed simp

lemma head_known: "db_ok d \<Longrightarrow> head_of d p n = Some h \<Longrightarrow> h \<in> known (repo_of p d)"
  using head_local by fastforce

lemma advances_trans:
  assumes ok: "db_ok d2" and 12: "advances (repo_of p d1) (repo_of p d2)" and 23: "advances (repo_of p d2) (repo_of p d3)"
  shows "advances (repo_of p d1) (repo_of p d3)"
  unfolding advances_def
proof (intro conjI allI impI)
  show "extends (repo_of p d1) (repo_of p d3)" 
    using 12 23 extends_trans by (simp add: advances_def) blast
  fix n h
  assume "head (repo_of p d1) n = Some h"
  then obtain h2 where h2: "head_of d2 p n = Some h2" "h2 = h \<or> reaches d2 h2 h" using 12 by (auto simp: advances_def)
  then obtain h3 where h3: "head_of d3 p n = Some h3" "h3 = h2 \<or> reaches d3 h3 h2" using 23 by (auto simp: advances_def)
  have "h2 \<in> known (repo_of p d2)" using ok h2(1) by (rule head_known)
  then have "ancestors (repo_of p d2) h2 \<subseteq> ancestors (repo_of p d3) h2" using 23 unfolding advances_def extends_def by blast
  then have "h2 = h \<or> reaches d3 h2 h" using h2(2) by auto
  with h3(2) have "h3 = h \<or> reaches d3 h3 h" unfolding reaches_def by (blast intro: rtrancl_trans)
  with h3(1) show "\<exists>h'. head (repo_of p d3) n = Some h' \<and> (h' = h \<or> h \<in> ancestors (repo_of p d3) h')" by auto
qed

lemma calm_api_run_advances:
  assumes "calm_api_run lib cfg w evs w'" "api_ok w" "\<forall>ev \<in> set evs. \<not> deletes p ev"
    and "known (repo_of p (w_db w)) \<noteq> {}"
  shows "advances (repo_of p (w_db w)) (repo_of p (w_db w'))"
  using assms
proof (induction rule: calm_api_run.induct)
  case (calm_api_Nil w)
  then show ?case by (simp add: advances_def extends_def)
next
  case (calm_api_Cons w ev w1 evs w2)
  have ok: "api_ok w1" using api_keeps_step [OF calm_api_Cons.prems(1) calm_api_Cons.hyps(2)] calm_api_Cons.prems(1)
    by (simp add: api_keeps_def)
  have "project_kept p w w1" using kept_api.frame_step [OF calm_api_Cons.hyps(2)] calm_api_Cons.prems(2) by simp
  then have "commits_kept p (w_db w) (w_db w1)"
    using calm_api_Cons.prems(1) by (simp add: project_kept_def api_ok_def system_ok_def)
  then have some: "known (repo_of p (w_db w1)) \<noteq> {}"
    using calm_api_Cons.prems(3) unfolding commits_kept_def repo_of_simps by blast
  have "advances (repo_of p (w_db w)) (repo_of p (w_db w1))"
    using step_api_step [OF calm_api_Cons.prems(1) calm_api_Cons.hyps(1,2)] some by (rule repo_step_advances)
  moreover have "advances (repo_of p (w_db w1)) (repo_of p (w_db w2))"
    using calm_api_Cons.IH [OF ok _ some] calm_api_Cons.prems(2) by simp
  moreover have "db_ok (w_db w1)" using ok by (simp add: api_ok_def system_ok_def)
  ultimately show ?case by (rule advances_trans [rotated])
qed

end
