(* ===== verification/Replies.thy ===== *)
theory Replies
  imports Api
begin

text \<open>
  The status codes that the handlers can answer with, against the ones that
  \<^verbatim>\<open>internal/docs/openapi.yaml\<close> documents.
\<close>

section \<open>The statuses of a handler\<close>

definition replies :: "nat set \<Rightarrow> 'a reply io \<Rightarrow> bool" where
  "replies S m \<longleftrightarrow> (\<forall>w. status (fst (run_state m w)) \<in> S)"

named_theorems replies_intros

lemma replies_bind [replies_intros]: "(\<And>x. replies S (f x)) \<Longrightarrow> replies S (State_Monad.bind m f)"
  by (simp add: replies_def split: prod.splits)

lemma replies_return [replies_intros]: "status r \<in> S \<Longrightarrow> replies S (ret r)"
  by (simp add: replies_def)

lemma replies_write [replies_intros]:
  "st \<in> S \<Longrightarrow> replies S (writeJSON st x)" "st \<in> S \<Longrightarrow> replies S (writeErrorJSON st c m)" "st \<in> S \<Longrightarrow> replies S (writeError st c m)"
  unfolding writeJSON_def writeErrorJSON_def writeError_def by (simp_all add: replies_return)

lemma replies_if [replies_intros]: "replies S m \<Longrightarrow> replies S n \<Longrightarrow> replies S (if b then m else n)"
  by simp

lemma replies_result [replies_intros]:
  "(\<And>e. replies S (f e)) \<Longrightarrow> (\<And>x. replies S (g x)) \<Longrightarrow> replies S (reply_result m f g)"
  unfolding reply_result_def by (rule replies_bind) (simp split: sum.splits)

lemma replies_outcome [replies_intros]:
  "500 \<in> S \<Longrightarrow> (\<And>e. replies S (f e)) \<Longrightarrow> (\<And>x. replies S (g x)) \<Longrightarrow> replies S (reply_outcome m f g)"
  unfolding reply_outcome_def by (rule replies_bind) (auto intro: replies_return split: option.splits sum.splits)

lemma replies_Auth [replies_intros]: "401 \<in> S \<Longrightarrow> (\<And>ctx. replies S (h ctx)) \<Longrightarrow> replies S (Auth lib secret header h)"
  unfolding Auth_def check_token_def by (auto intro!: replies_intros split: list.splits sum.splits option.splits)

lemma replies_status_of: "replies S m \<Longrightarrow> fst (run_state (status_of m) w) \<in> S"
  by (simp add: replies_def status_of_def split: prod.splits) (metis fst_conv)

section \<open>The documented ones\<close>

fun documented_in_project :: "request \<Rightarrow> nat set" where
  "documented_in_project (CheckChunks _) = {200}"
| "documented_in_project (UploadChunk _ _) = {201, 400, 413}"
| "documented_in_project (PushCommit _ _ _) = {201, 409}"
| "documented_in_project (PullDiff _ _) = {200, 400, 404}"
| "documented_in_project (DownloadChunk _) = {200, 400, 404}"
| "documented_in_project (CreateBranch _ _) = {201, 404, 409}"
| "documented_in_project (AnalyzeMerge _ _) = {200, 400, 409}"
| "documented_in_project (ExecuteMerge _ _ _) = {200, 400, 409}"
| "documented_in_project (AcquireLock _ _ _) = {201, 409}"
| "documented_in_project (ReleaseLock _ _ _) = {200, 403}"
| "documented_in_project (ListLocks _) = {200}"
| "documented_in_project (ListCommits _ _ _) = {200}"
| "documented_in_project (GetCommit _) = {200, 404}"
| "documented_in_project (ListCommitFiles _) = {200}"
| "documented_in_project (ListRefs _) = {200}"
| "documented_in_project (GetTree _ _) = {200, 404}"

fun documented :: "api_request \<Rightarrow> nat set" where
  "documented (Register _) = {201, 400, 409}"
| "documented (Login _) = {200, 401}"
| "documented (Refresh _) = {200, 401}"
| "documented Logout = {200}"
| "documented (Protected _ (CreateProject _)) = {201, 400, 409}"
| "documented (Protected _ ListProjects) = {200}"
| "documented (Protected _ (GetProject _)) = {200, 404}"
| "documented (Protected _ (DeleteProject _)) = {200}"
| "documented (Protected _ (InProject req)) = documented_in_project req"

text \<open>A body or parameter that cannot be read, a missing or refused token, and a fault of the server.\<close>

definition common :: "nat set" where
  "common = {400, 401, 500}"

lemmas handler_defs = PushHandler_CheckChunks_def PushHandler_UploadChunk_def PushHandler_Commit_def
  PullHandler_Diff_def PullHandler_DiffTo_def PullHandler_DownloadChunk_def MergeHandler_CreateBranch_def
  MergeHandler_AnalyzeMerge_def MergeHandler_ExecuteMerge_def LockHandler_Acquire_def LockHandler_Release_def
  LockHandler_List_def VersionHandler_ListCommits_def VersionHandler_GetCommit_def VersionHandler_ListCommitFiles_def
  VersionHandler_ListRefs_def VersionHandler_GetTree_def ProjectHandler_Create_def ProjectHandler_List_def
  ProjectHandler_Get_def ProjectHandler_Delete_def AuthHandler_Register_def AuthHandler_Login_def
  AuthHandler_Refresh_def AuthHandler_Logout_def Let_def

lemma route_statuses: "fst (run_state (route maxSize req) w) \<in> documented_in_project req \<union> common"
  by (cases req; simp only: route.simps documented_in_project.simps; rule replies_status_of; unfold handler_defs)
    (auto simp: common_def intro!: replies_intros split: option.splits sum.splits)

lemma protected_statuses:
  "fst (run_state (protected_route maxSize u req) w) \<in> documented (Protected h req) \<union> common"
proof (cases req)
  case (InProject r)
  have "documented_in_project (as_user u r) = documented_in_project r" by (cases r) simp_all
  then show ?thesis using route_statuses [of maxSize "as_user u r" w] InProject by simp
qed (simp only: protected_route.simps documented.simps; rule replies_status_of; unfold handler_defs;
  auto simp: common_def intro!: replies_intros split: option.splits sum.splits)+

lemma api_statuses: "fst (fst (run_state (api lib cfg req) w)) \<in> documented req \<union> common"
proof -
  have seen: "fst (fst (run_state (do { r \<leftarrow> m; ret (status r, g r) }) w)) \<in> S" if "replies S m" for S m g
    using that by (simp add: replies_def split: prod.splits) (metis fst_conv)
  show ?thesis
  proof (cases req)
    case (Protected h preq)
    show ?thesis
      unfolding Protected api.simps
    proof (rule seen, rule replies_Auth)
      show "401 \<in> documented (Protected h preq) \<union> common" by (simp add: common_def)
      show "replies (documented (Protected h preq) \<union> common) (do {
          st \<leftarrow> protected_route (max_size cfg) (UserIDFromContext ctx) preq; ret (Reply st ()) })" for ctx
        using protected_statuses [of "max_size cfg" "UserIDFromContext ctx" preq _ h]
        by (simp add: replies_def split: prod.splits) (metis fst_conv)
    qed
  qed (simp only: api.simps documented.simps; rule seen; unfold handler_defs;
    auto simp: common_def intro!: replies_intros split: option.splits sum.splits)+
qed

end
