(* ===== verification/File_Transfer.thy ===== *)
theory File_Transfer
  imports Project_Proofs Demo_Auth
begin

text \<open>
  The way of a file through the server: a client cuts it into pieces, uploads them, pushes a commit that
  names them, and some time later somebody downloads them again.
\<close>

section \<open>The client\<close>

text \<open>Uploading pieces one by one; the result is whether each was answered with 201.\<close>

primrec client_upload :: "int \<Rightarrow> bytes list \<Rightarrow> bool io" where
  "client_upload maxSize [] = ret True"
| "client_upload maxSize (piece # pieces) = do {
     r \<leftarrow> PushHandler_UploadChunk maxSize (hash_of piece) piece;
     ok \<leftarrow> client_upload maxSize pieces;
     ret (status r = 201 \<and> ok)
   }"

text \<open>Downloading the chunks of a manifest.\<close>

primrec client_download :: "string list \<Rightarrow> bytes option list io" where
  "client_download [] = ret []"
| "client_download (h # hs) = do {
     r \<leftarrow> PullHandler_DownloadChunk h;
     bodies \<leftarrow> client_download hs;
     ret ((case r of Reply _ c \<Rightarrow> Some (cp_Body c) | ErrorReply _ _ _ \<Rightarrow> None) # bodies)
   }"

abbreviation recorded :: "world \<Rightarrow> string set" where
  "recorded w \<equiv> ch_Hash ` set (chunks (w_db w))"

lemma wp_upload_piece:
  assumes "api_ok w"
  shows "wp (PushHandler_UploadChunk maxSize (hash_of x) x)
    (\<lambda>r w'. (api_ok w' \<and> chunks_grow w w') \<and> (status r = 201 \<longrightarrow> hash_of x \<in> recorded w')) w"
proof (rule wp_conj)
  have "wp (route maxSize (UploadChunk (hash_of x) x)) (\<lambda>_ w'. api_keeps w w' \<and> chunks_grow w w') w"
    by (intro wp_conj api_keeps_route assms chunks_route [unfolded preserves_def, rule_format])
  then show "wp (PushHandler_UploadChunk maxSize (hash_of x) x) (\<lambda>_ w'. api_ok w' \<and> chunks_grow w w') w"
    using assms by (auto simp: status_of_def wp_simps api_keeps_def elim!: wp_mono)
  have "wp (ChunkService_Upload maxSize (hash_of x) x) (\<lambda>r w'. r = Some (Inr ()) \<longrightarrow> hash_of x \<in> recorded w') w"
    by (rule wp_Upload) (auto simp: ch_Hash_upsert)
  then show "wp (PushHandler_UploadChunk maxSize (hash_of x) x) (\<lambda>r w'. status r = 201 \<longrightarrow> hash_of x \<in> recorded w') w"
    by (auto simp: PushHandler_UploadChunk_def wp_simps elim!: wp_mono split: option.splits sum.splits)
qed

lemma wp_client_upload:
  "api_ok w \<Longrightarrow> wp (client_upload maxSize pieces)
    (\<lambda>ok w'. api_ok w' \<and> chunks_grow w w' \<and> (ok \<longrightarrow> hash_of ` set pieces \<subseteq> recorded w')) w"
proof (induction pieces arbitrary: w)
  case Nil
  then show ?case by (simp add: wp_simps chunks_grow_def)
next
  case (Cons x xs)
  show ?case
    unfolding client_upload.simps
  proof (rule wp_bindI, rule wp_mono [OF wp_upload_piece [OF Cons.prems]])
    fix r and w1 :: world
    assume first: "(api_ok w1 \<and> chunks_grow w w1) \<and> (status r = 201 \<longrightarrow> hash_of x \<in> recorded w1)"
    then show "wp (do { ok \<leftarrow> client_upload maxSize xs; ret (status r = 201 \<and> ok) })
        (\<lambda>ok w'. api_ok w' \<and> chunks_grow w w' \<and> (ok \<longrightarrow> hash_of ` set (x # xs) \<subseteq> recorded w')) w1"
      by (intro wp_bindI wp_mono [OF Cons.IH]) (auto simp: wp_simps chunks_grow_def)
  qed
qed

text \<open>A download of recorded chunks with a working store.\<close>

lemma wp_download_piece:
  assumes "content_ok w" "no_faults w" "h \<in> recorded w"
  shows "wp (PullHandler_DownloadChunk h) (\<lambda>r w'. (\<exists>c. r = Reply 200 c \<and> cp_Body c \<in> ran (w_blobs w) \<and> hash_of (cp_Body c) = h)
    \<and> w_db w' = w_db w \<and> w_blobs w' = w_blobs w \<and> no_faults w') w"
proof -
  obtain k data where blob: "KeyFromHash h = Some k" "w_blobs w k = Some data" "hash_of data = h"
    using assms(1,3) by (auto simp: content_ok_def backed_def)
  obtain c where row: "row_at ch_Hash h (chunks (w_db w)) = Some c"
    using assms(3) row_at_None [of ch_Hash h "chunks (w_db w)"] by (cases "row_at ch_Hash h (chunks (w_db w))") auto
  have "length h = 64" using blob(3) by auto
  then show ?thesis
    using assms(2) row blob
    by (simp add: PullHandler_DownloadChunk_def ChunkService_Download_def wp_simps no_faults_def ranI)
qed

lemma wp_client_download:
  "content_ok w \<Longrightarrow> no_faults w \<Longrightarrow> set hs \<subseteq> recorded w \<Longrightarrow> wp (client_download hs)
    (\<lambda>bodies _. list_all2 (\<lambda>h b. \<exists>data \<in> ran (w_blobs w). b = Some data \<and> hash_of data = h) hs bodies) w"
proof (induction hs arbitrary: w)
  case Nil
  then show ?case by (simp add: wp_simps)
next
  case (Cons h hs)
  from Cons.prems(3) have "h \<in> recorded w" by simp
  note piece = wp_download_piece [OF Cons.prems(1,2) this]
  show ?case
    unfolding client_download.simps
  proof (rule wp_bindI, rule wp_mono [OF piece])
    fix r and w1 :: world
    assume first: "(\<exists>c. r = Reply 200 c \<and> cp_Body c \<in> ran (w_blobs w) \<and> hash_of (cp_Body c) = h)
      \<and> w_db w1 = w_db w \<and> w_blobs w1 = w_blobs w \<and> no_faults w1"
    then have "content_ok w1" "no_faults w1" "set hs \<subseteq> recorded w1"
      using Cons.prems by (simp_all add: content_ok_def backed_def)
    from Cons.IH [OF this] show "wp (do { bodies \<leftarrow> client_download hs;
        ret ((case r of Reply _ c \<Rightarrow> Some (cp_Body c) | ErrorReply _ _ _ \<Rightarrow> None) # bodies) })
      (\<lambda>bodies _. list_all2 (\<lambda>h b. \<exists>data \<in> ran (w_blobs w). b = Some data \<and> hash_of data = h) (h # hs) bodies) w1"
      by (rule wp_bindI [OF wp_mono]) (use first in \<open>auto simp: wp_simps\<close>)
  qed
qed

text \<open>Without a collision in the bucket, only the piece itself has its hash.\<close>

definition no_collision :: "world \<Rightarrow> bytes list \<Rightarrow> bool" where
  "no_collision w pieces \<longleftrightarrow> (\<forall>data \<in> ran (w_blobs w). \<forall>piece \<in> set pieces. hash_of data = hash_of piece \<longrightarrow> data = piece)"

lemma downloaded_pieces:
  assumes "list_all2 (\<lambda>h b. \<exists>data \<in> ran (w_blobs w). b = Some data \<and> hash_of data = h) (map hash_of pieces) bodies"
    and "no_collision w pieces"
  shows "bodies = map Some pieces"
proof (rule nth_equalityI)
  show len: "length bodies = length (map Some pieces)" using list_all2_lengthD [OF assms(1)] by simp
  fix i
  assume "i < length bodies"
  then have i: "i < length pieces" using len by simp
  then obtain data where "data \<in> ran (w_blobs w)" "bodies ! i = Some data" "hash_of data = hash_of (pieces ! i)"
    using list_all2_nthD [OF assms(1), of i] by auto
  then show "bodies ! i = map Some pieces ! i"
    using assms(2) i nth_mem [OF i] by (simp add: no_collision_def)
qed

section \<open>The push\<close>

lemma wp_push_manifest:
  assumes "api_ok w"
  shows "wp (PushHandler_Commit p u (Some body)) (\<lambda>r w'. (api_ok w' \<and> chunks_grow w w') \<and>
    (\<forall>st res. r = Reply st (Committed res) \<and> no_faults w \<longrightarrow>
      (\<exists>c \<in> set (commits (w_db w')). c_ID c = cres_CommitID res \<and> c_ProjectID c = p)
      \<and> (\<forall>path e. pushed (pr_Files body) path = Some e \<longrightarrow>
          manifest (w_db w') p (cres_CommitID res) path = ce_ChunkHashes e))) w"
proof (rule wp_conj)
  have "wp (route maxSize (PushCommit p u (Some body))) (\<lambda>_ w'. api_keeps w w' \<and> chunks_grow w w') w" for maxSize
    by (intro wp_conj api_keeps_route assms chunks_route [unfolded preserves_def, rule_format])
  then show "wp (PushHandler_Commit p u (Some body)) (\<lambda>_ w'. api_ok w' \<and> chunks_grow w w') w"
    using assms by (auto simp: status_of_def wp_simps api_keeps_def elim!: wp_mono)
  let ?req = "\<lparr>cr_ProjectID = p, cr_ParentCommitID = pr_ParentCommitID body, cr_AuthorID = u, cr_Message = pr_Message body,
    cr_Ref = pr_Ref body, cr_Files = pr_Files body\<rparr>"
  have commit: "wp (CreateCommit ?req) (\<lambda>r w'. \<forall>res. r = Inr res \<and> no_faults w \<longrightarrow>
      (\<exists>c \<in> set (commits (w_db w')). c_ID c = cres_CommitID res \<and> c_ProjectID c = p)
      \<and> (\<forall>path e. pushed (pr_Files body) path = Some e \<longrightarrow>
          manifest (w_db w') p (cres_CommitID res) path = ce_ChunkHashes e)) w1"
    if "w_db w1 = w_db w" "no_faults w \<Longrightarrow> no_faults w1" for w1
    by (rule wp_mono [OF CreateCommit_spec])
      (use assms that in \<open>auto simp: commit_post_def new_commit_def api_ok_def system_ok_def\<close>)
  show "wp (PushHandler_Commit p u (Some body)) (\<lambda>r w'. \<forall>st res. r = Reply st (Committed res) \<and> no_faults w \<longrightarrow>
      (\<exists>c \<in> set (commits (w_db w')). c_ID c = cres_CommitID res \<and> c_ProjectID c = p)
      \<and> (\<forall>path e. pushed (pr_Files body) path = Some e \<longrightarrow>
          manifest (w_db w') p (cres_CommitID res) path = ce_ChunkHashes e)) w"
    using commit [of "next_tick w"]
    by (auto simp: PushHandler_Commit_def LockService_CheckPushPaths_def wp_simps Let_def no_faults_def
      elim!: wp_mono split: sum.splits)
qed

section \<open>There and back\<close>

text \<open>C3: A pushed file comes back: when its pieces were uploaded and a push that names them was accepted, then
  whatever is requested in between and afterwards, and however the stores fail meanwhile, as long as the project is
  not deleted, the commit keeps the manifest and downloading it with a working store gives the pieces,
  unless the bucket holds a collision of SHA-256 with one of them.\<close>

theorem pushed_file_recovered:
  assumes "api_ok w" "run_state (client_upload maxSize pieces) w = (True, w1)"
    and "api_run lib cfg w1 evs w2" "no_faults w2"
    and "run_state (PushHandler_Commit p u (Some body)) w2 = (Reply st (Committed res), w3)"
    and "pushed (pr_Files body) path = Some e" "ce_ChunkHashes e = Some (map hash_of pieces)"
    and "api_run lib cfg w3 evs' w4" "\<forall>ev \<in> set evs'. \<not> deletes p ev" "no_faults w4" "no_collision w4 pieces"
  shows "manifest (w_db w4) p (cres_CommitID res) path = Some (map hash_of pieces)
    \<and> fst (run_state (client_download (map hash_of pieces)) w4) = map Some pieces"
proof
  have w1: "api_ok w1" "hash_of ` set pieces \<subseteq> recorded w1"
    using wp_run [OF wp_client_upload [OF assms(1)] assms(2)] by simp_all
  have w2: "api_ok w2" using api_keeps_run(1) [OF assms(3) w1(1)] .
  note pushed = wp_run [OF wp_push_manifest [OF w2] assms(5)]
  note committed = conjunct2 [OF pushed, THEN spec, THEN spec, THEN mp, OF conjI, OF refl assms(4)]
  obtain c where c: "c \<in> set (commits (w_db w3))" "c_ID c = cres_CommitID res" "c_ProjectID c = p"
    and manifest: "manifest (w_db w3) p (cres_CommitID res) path = Some (map hash_of pieces)"
    using conjunct1 [OF committed] conjunct2 [OF committed, THEN spec, THEN spec, THEN mp, OF assms(6)] assms(7) by auto
  have w3: "api_ok w3" using pushed by simp
  have "project_kept p w3 w4" using kept_run [OF assms(8,9)] .
  then show "manifest (w_db w4) p (cres_CommitID res) path = Some (map hash_of pieces)"
    using w3 c manifest by (auto simp: project_kept_def commits_kept_def api_ok_def system_ok_def)
  have "chunks_grow w1 w2" "chunks_grow w3 w4"
    by (rule chunks_api.frame_run [OF assms(3)], simp) (rule chunks_api.frame_run [OF assms(8)], simp)
  moreover have "chunks_grow w2 w3" using pushed by simp
  ultimately have "set (map hash_of pieces) \<subseteq> recorded w4" using w1(2) by (auto simp: chunks_grow_def)
  moreover have "content_ok w4" using api_keeps_run(1) [OF assms(8) w3] by (simp add: api_ok_def system_ok_def)
  ultimately have "wp (client_download (map hash_of pieces)) (\<lambda>bodies _. bodies = map Some pieces) w4"
    by (intro wp_mono [OF wp_client_download] downloaded_pieces) (use assms(10,11) in auto)
  then show "fst (run_state (client_download (map hash_of pieces)) w4) = map Some pieces" by (simp add: wp_iff)
qed

text \<open>The three bytes of \<open>abc\<close> as one piece.\<close>

definition demo_hash :: string where
  "demo_hash = ''ba7816bf8f01cfea414140de5dae2223b00361a396177a9cb410ff61f20015ad''"

lemma hash_of_abc: "hash_of [97, 98, 99] = demo_hash"
  unfolding Sum256_abc demo_hash_def by code_simp

definition demo_sent :: world where
  "demo_sent = demo_bare\<lparr>w_db := (w_db demo_bare)\<lparr>chunks := [\<lparr>ch_Hash = demo_hash, ch_SizeBytes = 3, ch_MinioBucket = ''chunks'',
     ch_MinioKey = ''ba/78/'' @ demo_hash, ch_RefCount = 0, ch_CreatedAt = 1\<rparr>]\<rparr>,
     w_blobs := [''ba/78/'' @ demo_hash \<mapsto> [97, 98, 99]], w_tick := 3\<rparr>"

lemma demo_key: "KeyFromHash demo_hash = Some (''ba/78/'' @ demo_hash)"
  by code_simp

lemma demo_hash_length: "length demo_hash = 64" "demo_hash \<noteq> []"
  by code_simp+

lemma demo_upload: "run_state (client_upload 4 [[97, 98, 99]]) demo_bare = (True, demo_sent)"
proof -
  have "wp (client_upload 4 [[97, 98, 99]]) (\<lambda>ok w'. ok \<and> w' = demo_sent) demo_bare"
    by (simp add: PushHandler_UploadChunk_def ChunkService_Upload_def wp_simps hash_of_abc demo_key demo_hash_length demo_sent_def
      demo_bare_def demo_def demo_db_def sql_insert_chunk_def upsert_row_def next_tick_def)
  then show ?thesis by (simp add: wp_iff prod_eq_iff)
qed

definition demo_send :: PushRequest where
  "demo_send = demo_body\<lparr>pr_Files := [\<lparr>ce_Path = ''a.txt'', ce_TotalSize = 3, ce_ChunkHashes = Some [demo_hash]\<rparr>]\<rparr>"

lemma demo_send_ok: "case fst (run_state (PushHandler_Commit ''p'' ''bob'' (Some demo_send)) demo_sent) of
    Reply st (Committed res) \<Rightarrow> st = 201 | _ \<Rightarrow> False"
  by code_simp

theorem pushed_file_recovered_witness:
  "\<exists>res w. run_state (PushHandler_Commit ''p'' ''bob'' (Some demo_send)) demo_sent = (Reply 201 (Committed res), w)
    \<and> fst (run_state (client_download [demo_hash]) (w\<lparr>w_fault := \<lambda>_. False\<rparr>)) = [Some [97, 98, 99]]"
proof -
  obtain r w where run: "run_state (PushHandler_Commit ''p'' ''bob'' (Some demo_send)) demo_sent = (r, w)" by fastforce
  obtain res where r: "r = Reply 201 (Committed res)"
    using demo_send_ok run by (auto split: reply.splits push_reply.splits)
  let ?later = "w\<lparr>w_fault := \<lambda>_. False\<rparr>"
  have free: "no_faults demo_sent" using demo_no_faults by (simp add: demo_sent_def demo_bare_def no_faults_def)
  have "same_content demo_sent w" using content_requests(1) run by (rule preservesD)
  then have "no_collision ?later [[97, 98, 99]]" by (simp add: no_collision_def same_content_def demo_sent_def demo_bare_def demo_def)
  moreover have "no_faults ?later" by (simp add: no_faults_def)
  moreover have "pushed (pr_Files demo_send) ''a.txt'' = Some \<lparr>ce_Path = ''a.txt'', ce_TotalSize = 3, ce_ChunkHashes = Some [demo_hash]\<rparr>"
    by code_simp
  moreover have "api_run demo_lib demo_cfg demo_sent [] demo_sent" "api_run demo_lib demo_cfg w [ApiElapsed] ?later"
    by (simp_all add: api_step.simps)
  ultimately have "fst (run_state (client_download (map hash_of [[97, 98, 99]])) ?later) = map Some [[97, 98, 99]]"
    using pushed_file_recovered [OF demo_api_ok demo_upload _ free run [unfolded r], of demo_lib demo_cfg "[]" "''a.txt''" _ "[ApiElapsed]" ?later]
    by (simp add: hash_of_abc deletes_def)
  then show ?thesis using run r by (simp add: hash_of_abc)
qed

end
