(* ===== verification/Startup.thy ===== *)
theory Startup
  imports Config Http "HOL-Library.Word"
begin

text \<open>
  What \<^verbatim>\<open>cmd/server/main.go\<close> does around the routes: connecting to the stores, waiting for the end,
  the health check, the documentation of \<^verbatim>\<open>internal/docs/docs.go\<close> and the log line of
  \<^verbatim>\<open>internal/middleware/logging.go\<close>. The outcomes of the libraries for PostgreSQL, MinIO and HTTP are
  parameters, \<open>None\<close> being the nil error.
\<close>

section \<open>Start and end\<close>

text \<open>What ends the wait: a signal, \<open>http.ErrServerClosed\<close>, or another result of \<open>ListenAndServe\<close>.\<close>

datatype stop = Signalled string | ServerClosed | Returned "error option"

record platform =
  pgxpool_ParseConfig :: "string \<Rightarrow> error option"
  pgxpool_NewWithConfig :: "string \<Rightarrow> int \<Rightarrow> error option"
  pool_Ping :: "error option"
  minio_New :: "string \<Rightarrow> string \<Rightarrow> string \<Rightarrow> bool \<Rightarrow> error option"
  minio_MakeBucket :: "string \<Rightarrow> error option"
  minio_BucketExists :: "string \<Rightarrow> error + bool"
  http_ListenAndServe :: "string \<Rightarrow> stop"
  http_Shutdown :: "error option"

text \<open>The conversion \<open>int32(n)\<close>.\<close>

definition go_int32 :: "int \<Rightarrow> int" where
  "go_int32 n = sint (word_of_int n :: 32 word)"

text \<open>\<open>if err != nil { return fmt.Errorf(...) }\<close> with the rest of the function.\<close>

definition unless_err :: "error option \<Rightarrow> string \<Rightarrow> 'a result \<Rightarrow> 'a result" where
  "unless_err err msg rest = (case err of Some e \<Rightarrow> Inl (Wrap msg e) | None \<Rightarrow> rest)"

definition ensure_bucket :: "platform \<Rightarrow> string \<Rightarrow> unit result" where
  "ensure_bucket pf bucket = (case minio_MakeBucket pf bucket of
     None \<Rightarrow> Inr ()
   | Some err \<Rightarrow> (case minio_BucketExists pf bucket of
       Inr True \<Rightarrow> Inr ()
     | _ \<Rightarrow> Inl (Wrap (''create minio bucket '' @ go_quote bucket) err)))"

text \<open>From the environment to the configuration of a server with both stores connected.\<close>

definition connect :: "platform \<Rightarrow> fscale \<Rightarrow> env \<Rightarrow> Config result" where
  "connect pf fscale getenv = (case Load fscale getenv of
     Inl err \<Rightarrow> Inl (Wrap ''config'' err)
   | Inr cfg \<Rightarrow>
       let dsn = DSN (cfg_Database cfg); mn = cfg_MinIO cfg in
       unless_err (pgxpool_ParseConfig pf dsn) ''parse db config''
       (unless_err (pgxpool_NewWithConfig pf dsn (go_int32 (dc_MaxConns (cfg_Database cfg)))) ''connect to database''
       (unless_err (pool_Ping pf) ''ping database''
       (unless_err (minio_New pf (mn_Endpoint mn) (mn_AccessKey mn) (mn_SecretKey mn) (mn_UseSSL mn)) ''connect to minio''
       (case ensure_bucket pf (mn_ChunkBucket mn) of Inl err \<Rightarrow> Inl err | Inr _ \<Rightarrow> Inr cfg)))))"

definition serve :: "platform \<Rightarrow> Config \<Rightarrow> unit result" where
  "serve pf cfg = (case http_ListenAndServe pf (Addr (cfg_Server cfg)) of
     Returned (Some err) \<Rightarrow> Inl (Wrap ''server error'' err)
   | _ \<Rightarrow> unless_err (http_Shutdown pf) ''shutdown'' (Inr ()))"

definition run :: "platform \<Rightarrow> fscale \<Rightarrow> env \<Rightarrow> unit result" where
  "run pf fscale getenv = (case connect pf fscale getenv of Inl err \<Rightarrow> Inl err | Inr cfg \<Rightarrow> serve pf cfg)"

text \<open>\<open>main\<close> logs \<open>strata: %v\<close> and exits with 1 when \<open>run\<close> fails.\<close>

definition main :: "platform \<Rightarrow> fscale \<Rightarrow> env \<Rightarrow> nat \<times> string option" where
  "main pf fscale getenv = (case run pf fscale getenv of
     Inl err \<Rightarrow> (1, Some (''strata: '' @ error_Error err)) | Inr _ \<Rightarrow> (0, None))"

section \<open>Pages\<close>

text \<open>A reply that is no JSON: content type and bytes, or a redirection.\<close>

datatype page = Page (page_type: string) (page_body: string) | Redirect (redirect_to: string) (redirect_code: nat)

definition health :: page where
  "health = Page ''application/json'' ''{\"status\":\"ok\",\"service\":\"strata\"}''"

definition docs_redirect :: page where
  "docs_redirect = Redirect ''/docs/'' 301"

text \<open>The files embedded in the binary are parameters.\<close>

definition SpecHandler :: "string \<Rightarrow> page" where
  "SpecHandler specYAML = Page ''application/yaml; charset=utf-8'' specYAML"

definition UIHandler :: "string \<Rightarrow> page" where
  "UIHandler indexHTML = Page ''text/html; charset=utf-8'' indexHTML"

section \<open>The log\<close>

text \<open>\<open>time.Duration.Round\<close>: to the nearest multiple, halves away from zero.\<close>

definition duration_Round :: "int \<Rightarrow> int \<Rightarrow> int" where
  "duration_Round d m = (if m \<le> 0 then d
     else let r = \<bar>d\<bar> mod m; a = (if r + r < m then \<bar>d\<bar> - r else \<bar>d\<bar> + m - r) in if d < 0 then - a else a)"

record log_line =
  lg_Method :: string
  lg_Path :: string
  lg_Status :: nat
  lg_Elapsed :: int
  lg_RemoteAddr :: string

definition Millisecond :: int where
  "Millisecond = 10 ^ 6"

definition Logger :: "string \<Rightarrow> string \<Rightarrow> string \<Rightarrow> 'a reply io \<Rightarrow> ('a reply \<times> log_line) io" where
  "Logger meth path remoteAddr next_handler = do {
     start \<leftarrow> time_Now;
     r \<leftarrow> next_handler;
     now \<leftarrow> time_Now;
     ret (r, \<lparr>lg_Method = meth, lg_Path = path, lg_Status = status r,
       lg_Elapsed = duration_Round (now - start) Millisecond, lg_RemoteAddr = remoteAddr\<rparr>)
   }"

section \<open>What it gives\<close>

lemma unless_err_Inr: "unless_err err msg rest = Inr x \<longleftrightarrow> err = None \<and> rest = Inr x"
  by (simp add: unless_err_def split: option.splits)

lemma ensure_bucket_Inr:
  "ensure_bucket pf b = Inr () \<longleftrightarrow> minio_MakeBucket pf b = None \<or> minio_BucketExists pf b = Inr True"
  by (auto simp: ensure_bucket_def split: option.splits sum.splits bool.splits)

lemma connect_Inr:
  "connect pf fscale getenv = Inr cfg \<longleftrightarrow> Load fscale getenv = Inr cfg
    \<and> pgxpool_ParseConfig pf (DSN (cfg_Database cfg)) = None
    \<and> pgxpool_NewWithConfig pf (DSN (cfg_Database cfg)) (go_int32 (dc_MaxConns (cfg_Database cfg))) = None
    \<and> pool_Ping pf = None
    \<and> minio_New pf (mn_Endpoint (cfg_MinIO cfg)) (mn_AccessKey (cfg_MinIO cfg)) (mn_SecretKey (cfg_MinIO cfg))
        (mn_UseSSL (cfg_MinIO cfg)) = None
    \<and> (minio_MakeBucket pf (mn_ChunkBucket (cfg_MinIO cfg)) = None
      \<or> minio_BucketExists pf (mn_ChunkBucket (cfg_MinIO cfg)) = Inr True)"
  by (auto simp: connect_def Let_def unless_err_Inr ensure_bucket_Inr [symmetric] split: sum.splits)

text \<open>Only the low 32 bits of the number of connections reach the pool.\<close>

lemma go_int32_small: "- (2 ^ 31) \<le> n \<Longrightarrow> n < 2 ^ 31 \<Longrightarrow> go_int32 n = n"
  unfolding go_int32_def by (simp add: sint_sbintrunc' signed_take_bit_int_eq_self)

lemma pool_size_wraps: "go_int32 (2 ^ 32 + 5) = 5" "go_int32 (2 ^ 31) = - (2 ^ 31)"
  by code_simp+

text \<open>The parts of the address are not quoted, so different settings give the same address.\<close>

lemma dsn_ambiguous:
  "DSN \<lparr>dc_Host = ''db'', dc_Port = 1, dc_Name = ''n'', dc_User = ''u'', dc_Password = ''p@x'', dc_MaxConns = 1\<rparr> =
   DSN \<lparr>dc_Host = ''x@db'', dc_Port = 1, dc_Name = ''n'', dc_User = ''u'', dc_Password = ''p'', dc_MaxConns = 1\<rparr>"
  by (simp add: DSN_def)

text \<open>Logging changes nothing but the clock.\<close>

lemma wp_Logger:
  "wp (Logger meth path addr h) Q w = wp h (\<lambda>r w'. Q (r, \<lparr>lg_Method = meth, lg_Path = path, lg_Status = status r,
     lg_Elapsed = duration_Round (w_clock w' (w_tick w') - w_clock w (w_tick w)) Millisecond, lg_RemoteAddr = addr\<rparr>)
     (next_tick w')) (next_tick w)"
  unfolding Logger_def wp_simps by (simp add: wp_iff [of h] wp_simps)

lemma duration_Round_near: "0 < m \<Longrightarrow> \<bar>duration_Round d m - d\<bar> * 2 \<le> m \<and> m dvd duration_Round d m"
proof -
  assume m: "0 < m"
  define r where "r = \<bar>d\<bar> mod m"
  have r: "0 \<le> r" "r < m" "m dvd \<bar>d\<bar> - r" using m by (simp_all add: r_def)
  then have "m dvd \<bar>d\<bar> + m - r" by (metis add_diff_eq diff_add_eq dvd_add_triv_right_iff)
  then show ?thesis using m r by (auto simp: duration_Round_def Let_def r_def [symmetric])
qed

lemma run_Inr:
  "run pf fscale getenv = Inr () \<longleftrightarrow> (\<exists>cfg. connect pf fscale getenv = Inr cfg
    \<and> http_Shutdown pf = None \<and> (\<forall>err. http_ListenAndServe pf (Addr (cfg_Server cfg)) \<noteq> Returned (Some err)))"
  by (auto simp: run_def serve_def unless_err_Inr split: sum.splits stop.splits option.splits)

text \<open>The server comes to listen exactly when the environment holds a database password and a signing secret of
  at least 32 bytes, the pool can be opened with the low 32 bits of the connection limit and answers,
  the client for the objects can be made, and the bucket of the chunks could be made or exists.\<close>

theorem starts_iff:
  "(\<exists>cfg. connect pf fscale getenv = Inr cfg) \<longleftrightarrow>
    (let cfg = read_config fscale getenv; dsn = DSN (cfg_Database cfg); mn = cfg_MinIO cfg in
      getenv ''STRATA_DB_PASSWORD'' \<noteq> '''' \<and> 32 \<le> length (getenv ''STRATA_JWT_SECRET'')
      \<and> pgxpool_ParseConfig pf dsn = None \<and> pool_Ping pf = None
      \<and> pgxpool_NewWithConfig pf dsn (signed_take_bit 31 (dc_MaxConns (cfg_Database cfg))) = None
      \<and> minio_New pf (mn_Endpoint mn) (mn_AccessKey mn) (mn_SecretKey mn) (mn_UseSSL mn) = None
      \<and> (minio_MakeBucket pf (mn_ChunkBucket mn) = None \<or> minio_BucketExists pf (mn_ChunkBucket mn) = Inr True))"
  by (auto simp: connect_Inr Load_Inr go_int32_def sint_sbintrunc' Let_def)

end
