(* ===== verification/Spec2Isabelle.thy ===== *)
theory Spec2Isabelle
  imports Version_Properties Merge_Properties Lock_Properties Content_Properties
    Account_Properties Project_Properties Repository Replies File_Transfer Startup
begin

text \<open>
  StrataServer is a version control server for large files. A client splits files into chunks,
  uploads the chunks under their SHA-256, pushes a commit that lists for each changed file the
  hashes of its chunks, and pulls by asking which chunks it is missing. Branches are named
  pointers to commits, a merge combines two branches into a commit with two parents, and
  advisory locks keep other users from pushing a path.

  \<^bold>\<open>Parts and theories.\<close> The order is that of the calls, from the bottom up.

  \<^item> \<^verbatim>\<open>Prelude\<close>: tables as lists of rows with a key and the locale \<open>upsert_table\<close> with its two
    extensions, which state what \<open>INSERT ... ON CONFLICT\<close> promises (the row is there afterwards,
    other keys are untouched, and the first or the last writer wins); Go maps as association
    lists; hexadecimal text. The locales are interpreted on the model's own statements in the
    store theories.
  \<^item> \<^verbatim>\<open>Model\<close>: the structs of \<^verbatim>\<open>internal/model\<close>, the error values with \<open>errors.Is\<close> and \<open>Error()\<close>.
  \<^item> \<^verbatim>\<open>World\<close>: the state (the rows of every table, the bucket, and oracles for clock, random bytes,
    order of \<open>range\<close> over a map and availability of the stores), the state monad in which all
    code runs, its rules for symbolic execution, and \<open>service.GenerateUUID\<close>.
  \<^item> \<^verbatim>\<open>Schema\<close>: the constraints of \<^verbatim>\<open>migrations/\<close> and the invariants of the server, \<open>db_ok\<close>.
  \<^item> \<^verbatim>\<open>Commit_Store\<close>, \<^verbatim>\<open>File_Store\<close>, \<^verbatim>\<open>Chunk_Store\<close>, \<^verbatim>\<open>Lock_Store\<close>: \<^verbatim>\<open>internal/store/postgres\<close>
    and \<^verbatim>\<open>internal/store/minio\<close>, one definition per method. A method is one SQL statement: a
    function from the database to an error (a violated constraint) or a result and a new
    database. The recursive queries of \<open>IsAncestor\<close> and \<open>FindMergeBase\<close> are the iteration
    that SQL prescribes, with a proof that it ends and that it computes reachability.
  \<^item> \<^verbatim>\<open>Sha256\<close>: SHA-256, which names the chunks.
  \<^item> \<^verbatim>\<open>Version_Service\<close>, \<^verbatim>\<open>Merge_Service\<close>, \<^verbatim>\<open>Chunk_Service\<close>, \<^verbatim>\<open>Lock_Service\<close>: \<^verbatim>\<open>internal/service\<close>.
    \<open>CreateCommit\<close> is cut at its comments into the parent check, the loop over the files and the
    rest; \<open>Execute\<close> into the fast-forward, the validation and the merge commit.
  \<^item> \<^verbatim>\<open>Http\<close>, \<^verbatim>\<open>Push_Handler\<close>, \<^verbatim>\<open>Pull_Handler\<close>, \<^verbatim>\<open>Version_Handler\<close>, \<^verbatim>\<open>Merge_Handler\<close> and the second
    half of \<^verbatim>\<open>Lock_Service\<close>: \<^verbatim>\<open>internal/handler\<close>; a request is the decoded body (or none, when it
    is no JSON), the path parameters and the user the middleware put in the context.
  \<^item> \<^verbatim>\<open>Rate_Limit\<close>: \<^verbatim>\<open>internal/middleware/ratelimit.go\<close>.
  \<^item> \<^verbatim>\<open>Server\<close>: the requests within a project as one step relation, its runs, and the locale \<open>frame_relation\<close>
    (from \<^verbatim>\<open>World\<close>) interpreted for what requests do not touch.
  \<^item> \<^verbatim>\<open>Strconv\<close>, \<^verbatim>\<open>Config\<close>: \<open>strconv\<close> and \<open>time.ParseDuration\<close> as far as \<^verbatim>\<open>internal/config/config.go\<close> uses them, and
    the configuration. \<^verbatim>\<open>Startup\<close>: the rest of \<^verbatim>\<open>cmd/server/main.go\<close> around the routes, \<^verbatim>\<open>internal/docs\<close> and
    \<^verbatim>\<open>middleware/logging.go\<close>.
  \<^item> \<^verbatim>\<open>User_Store\<close>, \<^verbatim>\<open>Auth_Service\<close>, \<^verbatim>\<open>Auth_Middleware\<close>, \<^verbatim>\<open>Auth_Handler\<close>: accounts, tokens and the gate in front of the
    protected routes. \<^verbatim>\<open>Project_Store\<close>, \<^verbatim>\<open>Project_Service\<close>: projects, from the table to the handler, with the
    cascades of their deletion.
  \<^item> \<^verbatim>\<open>Api\<close>: the whole router: public routes, gate, projects, and the requests of \<^verbatim>\<open>Server\<close> behind them, which get
    their user from the token; its steps \<open>api_step\<close> and runs \<open>api_run\<close>.

  \<^bold>\<open>What is proved.\<close> \<^verbatim>\<open>Version_Proofs\<close> and \<^verbatim>\<open>Commit_Proofs\<close> give the postcondition of
  \<open>CreateCommit\<close> for every behaviour of the store, \<^verbatim>\<open>Commit_Liveness\<close> when it must succeed,
  \<^verbatim>\<open>Merge_Proofs\<close> the classification of files, the validation of resolutions, the merged
  snapshot and the effect of \<open>Execute\<close>, \<^verbatim>\<open>Lock_Proofs\<close> that locks are held, \<^verbatim>\<open>Branch_Proofs\<close> that
  branches only move forward, \<^verbatim>\<open>Origin\<close> that every version in a snapshot was written by the commit or an
  ancestor in the same project, \<^verbatim>\<open>Deletion\<close> that deleting a project keeps all invariants, \<^verbatim>\<open>Account_Proofs\<close> what
  login and refresh hand out, \<^verbatim>\<open>Project_Proofs\<close> what every request leaves of a project that is not deleted (the
  locale \<open>api_frame\<close>: a relation that the parts of the API keep is kept by its runs). \<^verbatim>\<open>Repository\<close> states
  what the server promises as an abstract repository, a set of commits, trees and heads with the relation
  \<open>repo_step\<close>, and simulates it; \<^verbatim>\<open>Replies\<close> compares the status codes with \<^verbatim>\<open>internal/docs/openapi.yaml\<close>;
  \<^verbatim>\<open>File_Transfer\<close> follows a file from upload and push to its download. The other properties are in
  \<^verbatim>\<open>Version_Properties\<close>, \<^verbatim>\<open>Merge_Properties\<close>, \<^verbatim>\<open>Lock_Properties\<close>, \<^verbatim>\<open>Content_Properties\<close>, \<^verbatim>\<open>Account_Properties\<close>,
  \<^verbatim>\<open>Project_Properties\<close> and, for the server as a whole, here; each is applied to the example states of \<^verbatim>\<open>Demo\<close> and
  \<^verbatim>\<open>Demo_Auth\<close>.

  \<^bold>\<open>Libraries.\<close> bcrypt and jwt are a parameter of type \<open>auth_lib\<close>. What the code relies on is stated as hypotheses
  where it is needed: a generated hash compares equal exactly with its password (\<open>bcrypt_exact\<close>), a signed token is
  parsed with its claims until it ends (\<open>jwt_signs\<close>, \<open>jwt_verifies\<close>), and only then (\<open>jwt_faithful\<close>); \<^verbatim>\<open>Demo_Auth\<close> has an
  instance that satisfies them all. The scaling of a fraction in a duration is floating point arithmetic and the
  parameter \<open>fscale\<close>; \<open>ExpiresIn\<close> is a conversion of the seconds as a float, exact for a lifetime of whole
  seconds. The drivers for PostgreSQL, MinIO and the listener are a parameter of \<^verbatim>\<open>Startup\<close>.

  \<^bold>\<open>Failures.\<close> Every store call asks the oracle whether the store is unavailable; if it is, the
  call has no effect and returns an error. Theorems without the hypothesis \<open>no_faults\<close> hold for
  every pattern of failures. A nil dereference or an index out of range is the outcome \<open>None\<close>,
  which the router's recoverer turns into a reply 500. Several requests at the same time are
  modelled where the code checks first and acts later: the statements of two requests are
  interleaved explicitly (\<open>racing_commits\<close>, \<open>racing_locks\<close>). Everywhere else a request is one step.

  \<^bold>\<open>Numbers and bounds.\<close> Sizes, counts and times are integers; the 32 bit column of reference
  counts, the widths of text columns and the 64 bit range of \<open>strconv.Atoi\<close> are written out. No
  definition needs fuel: every recursion has a proof of termination.

  \<^bold>\<open>Not modelled.\<close> How chi matches a path to a route, the timeout and the CORS headers it adds, and JSON decoding are
  the libraries'; a request is a route with its parameters, and a body that does not decode is \<open>None\<close>. The
  constructors of stores, services and handlers only keep their arguments. A malformed UUID parameter is an
  error of the statement and so one of the failures above. Deadlines and cancellation are failures too.
\<close>

section \<open>The server as a whole\<close>

text \<open>Over any run of the server, whatever is requested and however the stores fail, the database keeps
  its constraints and invariants, every recorded chunk stays backed by an object with its hash, and
  history and objects are only added to.\<close>

theorem server_keeps_invariants:
  assumes "system_ok w" "server_run maxSize w evs w'"
  shows "db_ok (w_db w') \<and> content_ok w' \<and> history_frame (w_db w) (w_db w') \<and> bucket_le (w_blobs w) (w_blobs w')"
  using system_ok_run [OF assms(2,1)] by (simp add: system_ok_def)

theorem server_keeps_invariants_witness: "\<exists>w'. server_run 0 demo_bare demo_events w' \<and> db_ok (w_db w')"
  using server_keeps_invariants [OF demo_bare_ok demo_server_run] demo_server_run by blast

text \<open>Nothing that was pushed to a branch is lost: when requests are handled one after the other and the
  store works while they are, every branch stays and its head at the end reaches, along parents, every head
  it had before.\<close>

theorem branches_only_advance:
  assumes "system_ok w" "calm_run maxSize w evs w'" "head_of (w_db w) p n = Some h"
  shows "\<exists>h'. head_of (w_db w') p n = Some h' \<and> reaches (w_db w') h' h"
  using forward_run [OF assms(2,1)] assms(3) unfolding forward_def by blast

theorem branches_only_advance_witness:
  "\<exists>evs w' h'. evs \<noteq> [] \<and> calm_run 0 demo_bare evs w' \<and> head_of (w_db w') ''p'' ''main'' = Some h'
    \<and> reaches (w_db w') h' ''c1''"
proof -
  let ?req = "PushCommit ''p'' ''bob'' (Some demo_body)"
  let ?w' = "snd (run_state (route 0 ?req) demo_bare)"
  have "run_state (route 0 ?req) demo_bare = (201, ?w')" using demo_served by (metis prod.collapse)
  then have run: "calm_run 0 demo_bare [Served ?req 201] ?w'"
    using demo_bare_no_faults by (simp only: calm_run_simps) (blast intro: served)
  have "head_of (w_db demo_bare) ''p'' ''main'' = Some ''c1''" by code_simp
  from branches_only_advance [OF demo_bare_ok run this] run show ?thesis by blast
qed


text \<open>A push of \<open>b.txt\<close> with the token of the first user.\<close>

definition demo_api_push :: api_request where
  "demo_api_push = Protected demo_header (InProject (PushCommit ''p'' '''' (Some (demo_body\<lparr>pr_Files :=
     [\<lparr>ce_Path = ''b.txt'', ce_TotalSize = 1, ce_ChunkHashes = Some [''h2'']\<rparr>]\<rparr>))))"

definition demo_pushed :: world where
  "demo_pushed = snd (run_state (api demo_lib demo_cfg demo_api_push) demo_bare)"

definition demo_push_events :: "api_event list" where
  "demo_push_events = [ApiServed demo_api_push 201 None]"

lemma demo_pushed_run: "calm_api_run demo_lib demo_cfg demo_bare demo_push_events demo_pushed"
proof -
  have "no_faults demo_bare" using demo_no_faults by (simp add: demo_bare_def no_faults_def)
  moreover have "fst (run_state (api demo_lib demo_cfg demo_api_push) demo_bare) = (201, None)" by code_simp
  then have "run_state (api demo_lib demo_cfg demo_api_push) demo_bare = ((201, None), demo_pushed)"
    unfolding demo_pushed_def by (metis prod.collapse)
  ultimately show ?thesis unfolding demo_push_events_def using api_served by fastforce
qed


text \<open>C6: Nothing that was pushed to a branch is lost: over any run of the API in which requests are handled one
  after the other, the store works while they are and the project is not deleted, every branch of the project
  stays, and its head at the end reaches, along parents, every head it had before.\<close>

theorem api_branches_only_advance:
  assumes "api_ok w" "calm_api_run lib cfg w evs w'" "\<forall>ev \<in> set evs. \<not> deletes p ev"
    and "head_of (w_db w) p n = Some h"
  shows "\<exists>h'. head_of (w_db w') p n = Some h' \<and> reaches (w_db w') h' h"
proof -
  have "db_ok (w_db w)" using assms(1) by (simp add: api_ok_def system_ok_def)
  then have "known (repo_of p (w_db w)) \<noteq> {}" using head_known assms(4) by blast
  then have "advances (repo_of p (w_db w)) (repo_of p (w_db w'))"
    using assms(1-3) by (intro calm_api_run_advances)
  then obtain h' where "head_of (w_db w') p n = Some h'" "h' = h \<or> reaches (w_db w') h' h"
    using assms(4) by (auto simp: advances_def)
  then show ?thesis using reaches_refl by auto
qed

theorem api_branches_only_advance_witness:
  "\<exists>h'. head_of (w_db demo_pushed) ''p'' ''main'' = Some h' \<and> h' \<noteq> ''c1'' \<and> reaches (w_db demo_pushed) h' ''c1''"
proof -
  have "head_of (w_db demo_bare) ''p'' ''main'' = Some ''c1''" by code_simp
  moreover have "\<forall>ev \<in> set demo_push_events. \<not> deletes ''p'' ev"
    by (simp add: demo_push_events_def deletes_def demo_api_push_def)
  moreover have "head_of (w_db demo_pushed) ''p'' ''main'' \<noteq> Some ''c1''" by code_simp
  ultimately show ?thesis using api_branches_only_advance [OF demo_api_ok demo_pushed_run] by fastforce
qed

text \<open>C24: Every request is answered, and with a status that the API documentation lists for its route, or with
  400, 401 or 500, however the stores fail and whatever the request holds.\<close>

theorem replies_documented: "fst (fst (run_state (api lib cfg req) w)) \<in> documented req \<union> {400, 401, 500}"
  using api_statuses [of lib cfg req w] by (simp only: common_def)

end
